(* ===== verification/Bt_Prelude.thy ===== *)
theory Bt_Prelude
  imports Main "HOL-Library.Word" "HOL-Library.Monad_Syntax"
begin

text \<open>
  Shared vocabulary of the development: the machine integers of the C++ sources, the result
  type of operations that may abort the process, the single-shot alarm, and the generic list,
  option and word lemmas the component theories use.

  An operation that can run into a failing ASSERT, a null pointer or an out-of-range access
  returns an \<open>option\<close>: \<open>None\<close> is ``the process does not get past this call''.  The
  \<open>do\<close> notation of HOL-Library sequences such operations.
\<close>

unbundle bit_operations_syntax

subsection \<open>Machine integers\<close>

type_synonym u8 = "8 word"
type_synonym u16 = "16 word"
type_synonym u32 = "32 word"
type_synonym bytes = "u8 list"

type_synonym Cid = u16
type_synonym Psm = u16
type_synonym Mtu = u16

text \<open>Conversions C++ performs implicitly when an int or size\_t is stored in a narrower type.\<close>

abbreviation to_u8 :: "int \<Rightarrow> u8" where
  "to_u8 \<equiv> word_of_int"

abbreviation to_u16 :: "int \<Rightarrow> u16" where
  "to_u16 \<equiv> word_of_int"

abbreviation size_u16 :: "nat \<Rightarrow> u16" where
  "size_u16 \<equiv> word_of_nat"

named_theorems l2cap_inv \<open>preservation lemmas of the component invariants\<close>
named_theorems l2cap_frame \<open>fields an operation leaves alone\<close>

subsection \<open>os::Alarm\<close>

text \<open>
  A single-shot alarm: \<open>None\<close> when it is not armed, otherwise the delay in milliseconds it
  was last scheduled with.  Scheduling an armed alarm replaces its task and delay, cancelling an
  idle alarm has no effect (the comments of os/alarm.h).
\<close>

type_synonym alarm = "nat option"

definition Alarm_Schedule :: "nat \<Rightarrow> alarm \<Rightarrow> alarm" where
  "Alarm_Schedule delay a = Some delay"

definition Alarm_Cancel :: "alarm \<Rightarrow> alarm" where
  "Alarm_Cancel a = None"

lemma Alarm_simps [simp]:
  "Alarm_Schedule d a = Some d" "Alarm_Cancel a = None"
  by (simp_all add: Alarm_Schedule_def Alarm_Cancel_def)

subsection \<open>Assertions\<close>

definition ASSERT :: "bool \<Rightarrow> unit option" where
  "ASSERT b = (if b then Some () else None)"

lemma ASSERT_simps [simp]:
  "ASSERT True = Some ()" "ASSERT False = None"
  by (simp_all add: ASSERT_def)

lemma ASSERT_bind: "Option.bind (ASSERT b) f = (if b then f () else None)"
  by (simp add: ASSERT_def)

lemma ASSERT_bind_Some [simp]:
  "Option.bind (ASSERT b) f = Some y \<longleftrightarrow> b \<and> f () = Some y"
  by (simp add: ASSERT_def)

subsection \<open>Lists, options and words\<close>

text \<open>A list of partial steps, run in order.\<close>

primrec foldM :: "('x \<Rightarrow> 's \<Rightarrow> 's option) \<Rightarrow> 'x list \<Rightarrow> 's \<Rightarrow> 's option" where
  "foldM f [] s = Some s"
| "foldM f (x # xs) s = Option.bind (f x s) (foldM f xs)"

lemma foldM_append [simp]: "foldM f (xs @ ys) s = Option.bind (foldM f xs s) (foldM f ys)"
proof (induction xs arbitrary: s)
  case (Cons x xs)
  then show ?case by (cases "f x s") simp_all
qed simp

lemma foldM_invariant:
  assumes "foldM f xs s = Some t" and "P s"
    and "\<And>x s s'. x \<in> set xs \<Longrightarrow> P s \<Longrightarrow> f x s = Some s' \<Longrightarrow> P s'"
  shows "P t"
  using assms by (induction xs arbitrary: s) (auto simp: bind_eq_Some_conv)

lemma unat_u8_lt: "unat (x :: u8) < 256"
proof -
  have "unat x < 2 ^ LENGTH(8)" by (rule unsigned_less)
  then show ?thesis by simp
qed

lemma unat_u16_lt: "unat (x :: u16) < 65536"
proof -
  have "unat x < 2 ^ LENGTH(16)" by (rule unsigned_less)
  then show ?thesis by simp
qed

lemma uint_u8_lt: "uint (x :: u8) < 256"
proof -
  have "uint x < 2 ^ LENGTH(8)" by (rule unsigned_less)
  then show ?thesis by simp
qed

lemma unat_size_u16_mod: "unat (size_u16 n) = n mod 65536"
  by (simp add: unsigned_of_nat take_bit_eq_mod)

lemma unat_size_u16: "n < 65536 \<Longrightarrow> unat (size_u16 n) = n"
  by (simp add: unat_size_u16_mod)

end
