(* ===== verification/Packet.thy ===== *)
theory Packet
  imports Bt_Prelude
begin

text \<open>
  The packet layer of system/gd/packet: the length-limited \<open>RawBuilder\<close>, the bit-wise
  inserters, the \<open>FragmentingInserter\<close> that cuts a serialized SDU into segments, and
  \<open>View\<close>/\<open>PacketView\<close>, the bounds-checked windows onto received bytes.

  A View keeps the shared vector and its two bounds; a PacketView is a list of such windows with
  its cached total length.  \<open>bytes_of\<close> is the abstraction to plain byte lists against which
  the operations are specified.
\<close>

subsection \<open>RawBuilder (raw\_builder.cc)\<close>

record raw_builder =
  max_bytes :: nat
  rb_payload :: "u8 list"

definition RawBuilder :: "nat \<Rightarrow> raw_builder" where
  "RawBuilder n = \<lparr>max_bytes = n, rb_payload = []\<rparr>"

definition AddOctets_vec :: "nat \<Rightarrow> u8 list \<Rightarrow> raw_builder \<Rightarrow> bool \<times> raw_builder" where
  "AddOctets_vec octets bytes b =
     (if max_bytes b < length (rb_payload b) + octets then (False, b)
      else if octets \<noteq> length bytes then (False, b)
      else (True, b\<lparr>rb_payload := rb_payload b @ bytes\<rparr>))"

text \<open>The little-endian split of a 64-bit value: the loop and the value left over.\<close>

fun value_octets :: "nat \<Rightarrow> 64 word \<Rightarrow> u8 list \<times> 64 word" where
  "value_octets 0 v = ([], v)"
| "value_octets (Suc n) v =
     (let (bs, rest) = value_octets n (drop_bit 8 v) in (ucast (v AND 0xff) # bs, rest))"

definition AddOctets_val :: "nat \<Rightarrow> 64 word \<Rightarrow> raw_builder \<Rightarrow> bool \<times> raw_builder" where
  "AddOctets_val octets v b =
     (if 8 < octets then (False, b)
      else let (bs, rest) = value_octets octets v in
        if rest \<noteq> 0 then (False, b) else AddOctets_vec octets bs b)"

definition AddOctets1 :: "u8 \<Rightarrow> raw_builder \<Rightarrow> bool \<times> raw_builder" where
  "AddOctets1 x = AddOctets_val 1 (ucast x)"

definition CanAddOctets :: "nat \<Rightarrow> raw_builder \<Rightarrow> bool" where
  "CanAddOctets n b \<longleftrightarrow> length (rb_payload b) + n \<le> max_bytes b"

subsection \<open>BitInserter and FragmentingInserter\<close>

record bit_inserter =
  num_saved_bits :: nat
  saved_bits :: u8
  inserted :: "u8 list"

definition shifted_value :: "u8 \<Rightarrow> u8 \<Rightarrow> nat \<Rightarrow> u16" where
  "shifted_value saved byte n = ucast saved OR push_bit n (ucast byte)"

definition insert_bits :: "u8 \<Rightarrow> nat \<Rightarrow> bit_inserter \<Rightarrow> bit_inserter" where
  "insert_bits byte num_bits it =
     (let total = num_bits + num_saved_bits it;
          new_value = shifted_value (saved_bits it) byte (num_saved_bits it);
          (it, total, new_value) =
            (if 8 \<le> total
             then (it\<lparr>inserted := inserted it @ [ucast new_value]\<rparr>, total - 8, drop_bit 8 new_value)
             else (it, total, new_value));
          mask = drop_bit (8 - total) (0xff :: u8)
      in it\<lparr>num_saved_bits := total, saved_bits := ucast new_value AND mask\<rparr>)"

record fragmenting_inserter =
  frag_num_saved_bits :: nat
  frag_saved_bits :: u8
  frag_mtu :: nat
  curr_packet :: "raw_builder option"
  fragments_out :: "raw_builder list"

definition FragmentingInserter :: "nat \<Rightarrow> fragmenting_inserter" where
  "FragmentingInserter mtu =
     \<lparr>frag_num_saved_bits = 0, frag_saved_bits = 0, frag_mtu = mtu,
      curr_packet = Some (RawBuilder mtu), fragments_out = []\<rparr>"

definition frag_insert_bits ::
    "u8 \<Rightarrow> nat \<Rightarrow> fragmenting_inserter \<Rightarrow> fragmenting_inserter option" where
  "frag_insert_bits byte num_bits it =
     (case curr_packet it of None \<Rightarrow> None
      | Some p \<Rightarrow>
        let total = num_bits + frag_num_saved_bits it;
            new_value = shifted_value (frag_saved_bits it) byte (frag_num_saved_bits it);
            (it, total, new_value) =
              (if 8 \<le> total
               then let p = snd (AddOctets1 (ucast new_value) p);
                        it = (if frag_mtu it \<le> length (rb_payload p)
                              then it\<lparr>fragments_out := fragments_out it @ [p],
                                      curr_packet := Some (RawBuilder (frag_mtu it))\<rparr>
                              else it\<lparr>curr_packet := Some p\<rparr>)
                    in (it, total - 8, drop_bit 8 new_value)
               else (it, total, new_value));
            mask = drop_bit (8 - total) (0xff :: u8)
        in Some (it\<lparr>frag_num_saved_bits := total, frag_saved_bits := ucast new_value AND mask\<rparr>))"

definition frag_finalize :: "fragmenting_inserter \<Rightarrow> fragmenting_inserter option" where
  "frag_finalize it =
     (case curr_packet it of None \<Rightarrow> None
      | Some p \<Rightarrow> Some ((if length (rb_payload p) \<noteq> 0
                          then it\<lparr>fragments_out := fragments_out it @ [p]\<rparr> else it)
                         \<lparr>curr_packet := None\<rparr>))"

text \<open>RawBuilder::Serialize inserts the payload byte by byte (BitInserter::insert\_byte).\<close>

fun frag_serialize :: "u8 list \<Rightarrow> fragmenting_inserter \<Rightarrow> fragmenting_inserter option" where
  "frag_serialize [] it = Some it"
| "frag_serialize (b # bs) it = do { it \<leftarrow> frag_insert_bits b 8 it; frag_serialize bs it }"

text \<open>
  The three lines every data controller runs: construct the inserter, serialize the SDU into it,
  finalize it.
\<close>

definition segments_of :: "nat \<Rightarrow> u8 list \<Rightarrow> u8 list list option" where
  "segments_of mtu sdu = do {
     it \<leftarrow> frag_serialize sdu (FragmentingInserter mtu);
     it \<leftarrow> frag_finalize it;
     Some (map rb_payload (fragments_out it)) }"

subsection \<open>View and PacketView\<close>

record view =
  data :: "u8 list"
  vbegin :: nat
  vend :: nat

definition View :: "u8 list \<Rightarrow> nat \<Rightarrow> nat \<Rightarrow> view" where
  "View d b e = \<lparr>data = d, vbegin = min b (length d), vend = min e (length d)\<rparr>"

definition view_size :: "view \<Rightarrow> nat" where
  "view_size v = vend v - vbegin v"

definition View_sub :: "view \<Rightarrow> nat \<Rightarrow> nat \<Rightarrow> view" where
  "View_sub v b e =
     \<lparr>data = data v, vbegin = min b (view_size v) + vbegin v, vend = min e (view_size v) + vbegin v\<rparr>"

definition view_at :: "view \<Rightarrow> nat \<Rightarrow> u8 option" where
  "view_at v i = (if i + vbegin v < vend v then Some (data v ! (i + vbegin v)) else None)"

record packet_view =
  fragments :: "view list"
  pv_length :: nat

definition PacketView_fragments :: "view list \<Rightarrow> packet_view" where
  "PacketView_fragments fs = \<lparr>fragments = fs, pv_length = sum_list (map view_size fs)\<rparr>"

definition PacketView :: "u8 list \<Rightarrow> packet_view" where
  "PacketView p = \<lparr>fragments = [View p 0 (length p)], pv_length = length p\<rparr>"

fun at_fragments :: "view list \<Rightarrow> nat \<Rightarrow> u8 option" where
  "at_fragments [] i = None"
| "at_fragments (f # fs) i =
     (if i < view_size f then view_at f i else at_fragments fs (i - view_size f))"

definition pv_at :: "packet_view \<Rightarrow> nat \<Rightarrow> u8 option" where
  "pv_at p i = (if i < pv_length p then at_fragments (fragments p) i else None)"

fun subview_list :: "view list \<Rightarrow> nat \<Rightarrow> nat \<Rightarrow> view list" where
  "subview_list [] b len = []"
| "subview_list (f # fs) b len =
     (if view_size f \<le> b then subview_list fs (b - view_size f) len
      else let v = View_sub f b (b + min len (view_size f - b))
           in v # subview_list fs 0 (len - view_size v))"

definition GetLittleEndianSubview :: "packet_view \<Rightarrow> nat \<Rightarrow> nat \<Rightarrow> packet_view option" where
  "GetLittleEndianSubview p b e =
     (if b \<le> e \<and> e \<le> pv_length p
      then Some (PacketView_fragments (subview_list (fragments p) b (e - b)))
      else None)"

text \<open>
  The insertion point of PacketView::Append: the loop walks the list until the cached length is
  used up.  It is the number of fragments in front of the insertion point's successor; \<open>None\<close>
  when the iterator runs off the list (the unsigned length having wrapped around, or the list being
  empty), which the ASSERT or the dereference turns into an abort.
\<close>

fun insertion_point :: "view list \<Rightarrow> nat \<Rightarrow> nat option" where
  "insertion_point [] r = None"
| "insertion_point (f # fs) r =
     (if r = 0 \<or> r = view_size f then Some 1
      else if r < view_size f then None
      else map_option Suc (insertion_point fs (r - view_size f)))"

definition Append :: "packet_view \<Rightarrow> packet_view \<Rightarrow> packet_view option" where
  "Append p q =
     (case insertion_point (fragments p) (pv_length p) of None \<Rightarrow> None
      | Some n \<Rightarrow> Some \<lparr>fragments = take n (fragments p) @ fragments q @ drop n (fragments p),
                        pv_length = pv_length p + pv_length q\<rparr>)"

definition view_bytes :: "view \<Rightarrow> u8 list" where
  "view_bytes v = take (view_size v) (drop (vbegin v) (data v))"

definition bytes_of :: "packet_view \<Rightarrow> u8 list" where
  "bytes_of p = concat (map view_bytes (fragments p))"

definition view_ok :: "view \<Rightarrow> bool" where
  "view_ok v \<longleftrightarrow> vbegin v \<le> vend v \<and> vend v \<le> length (data v)"

definition pv_ok :: "packet_view \<Rightarrow> bool" where
  "pv_ok p \<longleftrightarrow> list_all view_ok (fragments p) \<and> pv_length p = sum_list (map view_size (fragments p))"

subsection \<open>Fragmentation\<close>

text \<open>The reference definition: consecutive pieces of \<open>n\<close> bytes, the last one shorter.\<close>

function chunks :: "nat \<Rightarrow> 'a list \<Rightarrow> 'a list list" where
  "chunks n xs = (if n = 0 \<or> xs = [] then [] else take n xs # chunks n (drop n xs))"
  by pat_completeness auto
termination
  by (relation "measure (\<lambda>(n, xs). length xs)") auto

declare chunks.simps [simp del]

lemma chunks_Nil [simp]: "chunks n [] = []"
  by (simp add: chunks.simps)

lemma chunks_short: "0 < length xs \<Longrightarrow> length xs \<le> n \<Longrightarrow> chunks n xs = [xs]"
  by (cases n; subst chunks.simps) auto

lemma chunks_full:
  "0 < n \<Longrightarrow> length xs = n \<Longrightarrow> chunks n (xs @ ys) = xs # chunks n ys"
  by (subst chunks.simps) auto

lemma concat_chunks: "0 < n \<Longrightarrow> concat (chunks n xs) = xs"
proof (induction n xs rule: chunks.induct)
  case (1 n xs)
  then show ?case by (cases "xs = []") (auto simp: chunks.simps [of n xs])
qed

lemma chunks_bound: "c \<in> set (chunks n xs) \<Longrightarrow> length c \<le> n \<and> c \<noteq> []"
proof (induction n xs rule: chunks.induct)
  case (1 n xs)
  then show ?case by (cases "n = 0 \<or> xs = []") (auto simp: chunks.simps [of n xs])
qed

lemma chunks_empty_iff: "0 < n \<Longrightarrow> chunks n xs = [] \<longleftrightarrow> xs = []"
  by (subst chunks.simps) auto

lemma and_0xff: "(v :: 'a :: len word) AND 0xff = take_bit 8 v"
  by (simp add: take_bit_eq_mask mask_eq_exp_minus_1)

lemma value_octets_byte [simp]:
  "value_octets (Suc 0) (ucast (x :: u8) :: 64 word) = ([x], 0)"
proof -
  have "ucast (take_bit 8 (ucast x :: 64 word)) = x"
    by (rule bit_word_eqI) (simp add: bit_simps)
  moreover have "drop_bit 8 (ucast x :: 64 word) = 0"
    by (rule bit_word_eqI) (auto simp: bit_simps dest: bit_imp_le_length)
  ultimately show ?thesis by (simp add: and_0xff)
qed

lemma AddOctets1_eq:
  "AddOctets1 x b =
     (if max_bytes b < Suc (length (rb_payload b)) then (False, b)
      else (True, b\<lparr>rb_payload := rb_payload b @ [x]\<rparr>))"
  by (simp add: AddOctets1_def AddOctets_val_def AddOctets_vec_def del: value_octets.simps)

text \<open>The state of a byte-aligned inserter: \<open>done\<close> full packets and the bytes of the open one.\<close>

definition frag_state :: "nat \<Rightarrow> u8 list list \<Rightarrow> u8 list \<Rightarrow> fragmenting_inserter" where
  "frag_state mtu out cur =
     \<lparr>frag_num_saved_bits = 0, frag_saved_bits = 0, frag_mtu = mtu,
      curr_packet = Some \<lparr>max_bytes = mtu, rb_payload = cur\<rparr>,
      fragments_out = map (\<lambda>p. \<lparr>max_bytes = mtu, rb_payload = p\<rparr>) out\<rparr>"

lemma shifted_value_aligned [simp]:
  "(ucast (shifted_value 0 b 0) :: u8) = b" "drop_bit 8 (shifted_value 0 b 0) = 0"
proof -
  show "(ucast (shifted_value 0 b 0) :: u8) = b"
    by (rule bit_word_eqI) (simp add: shifted_value_def bit_simps)
  show "drop_bit 8 (shifted_value 0 b 0) = 0"
    by (rule bit_word_eqI) (auto simp: shifted_value_def bit_simps dest: bit_imp_le_length)
qed

lemma frag_insert_byte:
  assumes "length cur < mtu"
  shows "frag_insert_bits b 8 (frag_state mtu out cur) =
    Some (if Suc (length cur) = mtu then frag_state mtu (out @ [cur @ [b]]) []
          else frag_state mtu out (cur @ [b]))"
  using assms
  by (simp add: frag_insert_bits_def frag_state_def Let_def AddOctets1_eq RawBuilder_def)

lemma frag_serialize_chunks:
  assumes "length cur < mtu"
  shows "do { it \<leftarrow> frag_serialize bs (frag_state mtu out cur); it \<leftarrow> frag_finalize it;
              Some (map rb_payload (fragments_out it)) } =
         Some (out @ chunks mtu (cur @ bs))"
  using assms
proof (induction bs arbitrary: out cur)
  case Nil
  show ?case
  proof (cases "cur = []")
    case True
    then show ?thesis by (simp add: frag_finalize_def frag_state_def comp_def)
  next
    case False
    then have "chunks mtu cur = [cur]" using Nil by (intro chunks_short) auto
    with False show ?thesis by (simp add: frag_finalize_def frag_state_def comp_def)
  qed
next
  case (Cons b bs)
  show ?case
  proof (cases "Suc (length cur) = mtu")
    case True
    then have "chunks mtu (cur @ b # bs) = (cur @ [b]) # chunks mtu bs"
      using chunks_full [of mtu "cur @ [b]" bs] by simp
    with True Cons show ?thesis by (simp add: frag_insert_byte)
  next
    case False
    with Cons.prems Cons.IH [of "cur @ [b]" out] show ?thesis by (simp add: frag_insert_byte)
  qed
qed

lemma segments_of_chunks: "0 < mtu \<Longrightarrow> segments_of mtu sdu = Some (chunks mtu sdu)"
  using frag_serialize_chunks [of "[]" mtu sdu "[]"]
  by (simp add: segments_of_def FragmentingInserter_def RawBuilder_def frag_state_def)

subsection \<open>Packet views against byte lists\<close>

lemma view_bytes_length: "view_ok v \<Longrightarrow> length (view_bytes v) = view_size v"
  by (auto simp: view_ok_def view_bytes_def view_size_def)

lemma view_size_0: "view_size v = 0 \<Longrightarrow> view_bytes v = []"
  by (simp add: view_bytes_def)

lemma View_ok [simp]: "b \<le> e \<Longrightarrow> view_ok (View d b e)"
  by (auto simp: View_def view_ok_def)

lemma View_bytes: "view_bytes (View d 0 (length d)) = d"
  by (simp add: View_def view_bytes_def view_size_def)

lemma PacketView_ok [simp]: "pv_ok (PacketView d)"
  by (simp add: pv_ok_def PacketView_def View_def view_size_def view_ok_def)

lemma bytes_of_PacketView [simp]: "bytes_of (PacketView d) = d"
  by (simp add: bytes_of_def PacketView_def View_bytes)

lemma bytes_of_length: "pv_ok p \<Longrightarrow> length (bytes_of p) = pv_length p"
proof -
  have "list_all view_ok fs \<Longrightarrow> length (concat (map view_bytes fs)) = sum_list (map view_size fs)" for fs
    by (induction fs) (auto simp: view_bytes_length)
  then show "pv_ok p \<Longrightarrow> length (bytes_of p) = pv_length p"
    by (simp add: pv_ok_def bytes_of_def)
qed

lemma View_sub_facts:
  assumes "view_ok v" "b \<le> e" "e \<le> view_size v"
  shows "view_ok (View_sub v b e)" "view_size (View_sub v b e) = e - b"
    "view_bytes (View_sub v b e) = take (e - b) (drop b (view_bytes v))"
proof -
  show "view_ok (View_sub v b e)" and "view_size (View_sub v b e) = e - b"
    using assms by (auto simp: View_sub_def view_ok_def view_size_def)
  then show "view_bytes (View_sub v b e) = take (e - b) (drop b (view_bytes v))"
    using assms by (auto simp: View_sub_def view_bytes_def view_size_def drop_take min_def add.commute)
qed

lemma subview_list_facts:
  assumes "list_all view_ok fs" "b + n \<le> sum_list (map view_size fs)"
  shows "list_all view_ok (subview_list fs b n) \<and>
    sum_list (map view_size (subview_list fs b n)) = n \<and>
    concat (map view_bytes (subview_list fs b n)) = take n (drop b (concat (map view_bytes fs)))"
  using assms
proof (induction fs arbitrary: b n)
  case Nil
  then show ?case by simp
next
  case (Cons f fs)
  then have f: "view_ok f" and fs: "list_all view_ok fs" by auto
  show ?case
  proof (cases "view_size f \<le> b")
    case True
    with Cons.IH [of "b - view_size f" n] Cons.prems f show ?thesis
      by (auto simp: view_bytes_length)
  next
    case False
    define m where "m = min n (view_size f - b)"
    have m: "b + m \<le> view_size f" using False by (auto simp: m_def)
    note sub = View_sub_facts [OF f _ m, of b, simplified]
    have ih: "list_all view_ok (subview_list fs 0 (n - m)) \<and>
        sum_list (map view_size (subview_list fs 0 (n - m))) = n - m \<and>
        concat (map view_bytes (subview_list fs 0 (n - m))) = take (n - m) (concat (map view_bytes fs))"
      using Cons.IH [OF fs, of 0 "n - m"] Cons.prems False by (auto simp: m_def)
    have "take m (drop b (view_bytes f)) @ take (n - m) (concat (map view_bytes fs)) =
        take n (drop b (view_bytes f) @ concat (map view_bytes fs))"
      using False by (auto simp: m_def view_bytes_length [OF f] min_def)
    then show ?thesis
      using False ih sub by (simp add: Let_def m_def [symmetric] view_bytes_length [OF f])
        (auto simp: m_def)
  qed
qed

lemma GetLittleEndianSubview_Some:
  assumes "pv_ok p" "b \<le> e" "e \<le> pv_length p"
  obtains q where "GetLittleEndianSubview p b e = Some q" "pv_ok q"
    "bytes_of q = take (e - b) (drop b (bytes_of p))" "pv_length q = e - b"
proof -
  have "list_all view_ok (fragments p)" "b + (e - b) \<le> sum_list (map view_size (fragments p))"
    using assms by (auto simp: pv_ok_def)
  note sub = subview_list_facts [OF this]
  show ?thesis
    by (rule that [of "PacketView_fragments (subview_list (fragments p) b (e - b))"])
      (use assms sub in \<open>simp_all add: GetLittleEndianSubview_def PacketView_fragments_def
         pv_ok_def bytes_of_def\<close>)
qed

lemma insertion_point_facts:
  assumes "list_all view_ok fs" "fs \<noteq> []"
  obtains n where "insertion_point fs (sum_list (map view_size fs)) = Some n"
    "concat (map view_bytes (take n fs)) = concat (map view_bytes fs)"
    "concat (map view_bytes (drop n fs)) = []"
    "sum_list (map view_size (drop n fs)) = 0"
proof -
  have zero: "sum_list (map view_size gs) = 0 \<Longrightarrow> concat (map view_bytes gs) = []" for gs
    by (induction gs) (auto simp: view_size_0)
  have "\<exists>n. insertion_point fs (sum_list (map view_size fs)) = Some n \<and>
      sum_list (map view_size (drop n fs)) = 0"
    using assms(2)
  proof (induction fs)
    case (Cons f fs)
    show ?case
    proof (cases "sum_list (map view_size fs) = 0")
      case True
      then show ?thesis
        by (intro exI [of _ 1]) (simp del: sum_list_eq_0_iff)
    next
      case False
      then have "fs \<noteq> []" by auto
      with Cons.IH obtain n where "insertion_point fs (sum_list (map view_size fs)) = Some n"
        "sum_list (map view_size (drop n fs)) = 0" by blast
      with False show ?thesis
        by (intro exI [of _ "Suc n"]) (simp del: sum_list_eq_0_iff)
    qed
  qed simp
  then obtain n where n: "insertion_point fs (sum_list (map view_size fs)) = Some n"
    and z: "sum_list (map view_size (drop n fs)) = 0" by blast
  have "concat (map view_bytes fs) =
      concat (map view_bytes (take n fs)) @ concat (map view_bytes (drop n fs))"
    by (metis append_take_drop_id concat_append map_append)
  then show ?thesis using zero [OF z]
    by (intro that [OF n _ zero [OF z] z]) simp
qed

lemma Append_Some:
  assumes "pv_ok p" "pv_ok q" "fragments p \<noteq> []"
  obtains r where "Append p q = Some r" "pv_ok r" "bytes_of r = bytes_of p @ bytes_of q"
    "fragments r \<noteq> []"
proof -
  from assms(1) have ok: "list_all view_ok (fragments p)"
    and len: "pv_length p = sum_list (map view_size (fragments p))" by (simp_all add: pv_ok_def)
  from insertion_point_facts [OF ok assms(3)] obtain n where
    n: "insertion_point (fragments p) (pv_length p) = Some n" and
    bytes: "concat (map view_bytes (take n (fragments p))) = concat (map view_bytes (fragments p))"
      "concat (map view_bytes (drop n (fragments p))) = []" and
    z: "sum_list (map view_size (drop n (fragments p))) = 0" unfolding len by blast
  have split: "sum_list (map view_size (fragments p)) =
      sum_list (map view_size (take n (fragments p))) + sum_list (map view_size (drop n (fragments p)))"
    by (metis append_take_drop_id map_append sum_list_append)
  let ?r = "\<lparr>fragments = take n (fragments p) @ fragments q @ drop n (fragments p),
             pv_length = pv_length p + pv_length q\<rparr>"
  have "list_all view_ok (take n (fragments p))" "list_all view_ok (drop n (fragments p))"
    using ok by (auto simp: list_all_iff dest: in_set_takeD in_set_dropD)
  moreover have "take n (fragments p) @ fragments q @ drop n (fragments p) \<noteq> []"
    using assms(3) by (metis append_Nil2 append_is_Nil_conv append_take_drop_id)
  moreover have "Append p q = Some ?r" by (simp add: Append_def n)
  ultimately show ?thesis
    using assms(2) split z
    by (intro that [of ?r])
      (simp_all add: bytes pv_ok_def bytes_of_def len del: sum_list_eq_0_iff append_is_Nil_conv)
qed

lemma Append_no_fragments: "fragments p = [] \<Longrightarrow> Append p q = None"
  by (simp add: Append_def)

lemma empty_subview_has_no_fragments:
  "pv_ok p \<Longrightarrow> GetLittleEndianSubview p (pv_length p) (pv_length p) =
     Some \<lparr>fragments = [], pv_length = 0\<rparr>"
proof -
  have "sum_list (map view_size fs) \<le> b \<Longrightarrow> subview_list fs b 0 = []" for fs b
    by (induction fs arbitrary: b) auto
  then show "pv_ok p \<Longrightarrow> GetLittleEndianSubview p (pv_length p) (pv_length p) =
     Some \<lparr>fragments = [], pv_length = 0\<rparr>"
    by (simp add: GetLittleEndianSubview_def PacketView_fragments_def pv_ok_def)
qed

lemma pv_at_bytes: "pv_ok p \<Longrightarrow> i < pv_length p \<Longrightarrow> pv_at p i = Some (bytes_of p ! i)"
proof -
  have *: "list_all view_ok fs \<Longrightarrow> i < sum_list (map view_size fs) \<Longrightarrow>
      at_fragments fs i = Some (concat (map view_bytes fs) ! i)" for fs i
  proof (induction fs arbitrary: i)
    case (Cons f fs)
    then show ?case
      by (cases "i < view_size f")
        (auto simp: nth_append view_bytes_length view_at_def view_bytes_def view_size_def view_ok_def
          add.commute)
  qed simp
  assume "pv_ok p" "i < pv_length p"
  with * [of "fragments p" i] show ?thesis by (simp add: pv_at_def pv_ok_def bytes_of_def)
qed

end
