(* ===== verification/L2cap_Basics.thy ===== *)
theory L2cap_Basics
  imports Bt_Prelude
begin

text \<open>
  The small value types of system/gd/l2cap: the channel identifier constants (cid.h), the
  protocol/service multiplexer check (psm.h), the wrap-around signalling identifier
  (signal\_id.h) and the frame check sequence (fcs.cc).
\<close>

subsection \<open>cid.h, mtu.h, psm.h\<close>

definition kInvalidCid :: Cid where "kInvalidCid = 0"
definition kFirstFixedChannel :: Cid where "kFirstFixedChannel = 1"
definition kLastFixedChannel :: Cid where "kLastFixedChannel = 63"
definition kFirstDynamicChannel :: Cid where "kFirstDynamicChannel = kLastFixedChannel + 1"
definition kLastDynamicChannel :: Cid where "kLastDynamicChannel = 0xffff"
definition kClassicSignallingCid :: Cid where "kClassicSignallingCid = 1"
definition kLeSignallingCid :: Cid where "kLeSignallingCid = 5"
definition kMinimumClassicMtu :: Mtu where "kMinimumClassicMtu = 48"
definition kMinimumLeMtu :: Mtu where "kMinimumLeMtu = 23"
definition kDefaultClassicMtu :: Mtu where "kDefaultClassicMtu = 672"

definition IsPsmValid :: "Psm \<Rightarrow> bool" where
  "IsPsmValid psm \<longleftrightarrow> psm AND 0x0101 = 0x0001"

subsection \<open>signal\_id.h\<close>

record SignalId =
  sig_value :: u8

definition SignalId :: "u8 \<Rightarrow> SignalId" where
  "SignalId v = \<lparr>sig_value = v\<rparr>"

definition kInvalidSignalId :: SignalId where "kInvalidSignalId = SignalId 0"
definition kInitialSignalId :: SignalId where "kInitialSignalId = SignalId 1"

definition sig_IsValid :: "SignalId \<Rightarrow> bool" where
  "sig_IsValid s \<longleftrightarrow> sig_value s \<noteq> 0"

definition sig_inc :: "SignalId \<Rightarrow> SignalId" where
  "sig_inc s =
     (let s = s\<lparr>sig_value := sig_value s + 1\<rparr>
      in if sig_value s = 0 then s\<lparr>sig_value := sig_value s + 1\<rparr> else s)"

definition sig_dec :: "SignalId \<Rightarrow> SignalId" where
  "sig_dec s =
     (let s = s\<lparr>sig_value := sig_value s - 1\<rparr>
      in if sig_value s = 0 then s\<lparr>sig_value := 0xff\<rparr> else s)"

text \<open>The postfix operators return the old value and step the object.\<close>

definition sig_post_inc :: "SignalId \<Rightarrow> SignalId \<times> SignalId" where
  "sig_post_inc s = (s, sig_inc s)"

definition sig_post_dec :: "SignalId \<Rightarrow> SignalId \<times> SignalId" where
  "sig_post_dec s = (s, sig_dec s)"

subsection \<open>fcs.cc\<close>

definition crctab :: "u16 list" where
  "crctab =
    [0x0000, 0xc0c1, 0xc181, 0x0140, 0xc301, 0x03c0, 0x0280, 0xc241, 0xc601, 0x06c0, 0x0780, 0xc741,
     0x0500, 0xc5c1, 0xc481, 0x0440, 0xcc01, 0x0cc0, 0x0d80, 0xcd41, 0x0f00, 0xcfc1, 0xce81, 0x0e40,
     0x0a00, 0xcac1, 0xcb81, 0x0b40, 0xc901, 0x09c0, 0x0880, 0xc841, 0xd801, 0x18c0, 0x1980, 0xd941,
     0x1b00, 0xdbc1, 0xda81, 0x1a40, 0x1e00, 0xdec1, 0xdf81, 0x1f40, 0xdd01, 0x1dc0, 0x1c80, 0xdc41,
     0x1400, 0xd4c1, 0xd581, 0x1540, 0xd701, 0x17c0, 0x1680, 0xd641, 0xd201, 0x12c0, 0x1380, 0xd341,
     0x1100, 0xd1c1, 0xd081, 0x1040, 0xf001, 0x30c0, 0x3180, 0xf141, 0x3300, 0xf3c1, 0xf281, 0x3240,
     0x3600, 0xf6c1, 0xf781, 0x3740, 0xf501, 0x35c0, 0x3480, 0xf441, 0x3c00, 0xfcc1, 0xfd81, 0x3d40,
     0xff01, 0x3fc0, 0x3e80, 0xfe41, 0xfa01, 0x3ac0, 0x3b80, 0xfb41, 0x3900, 0xf9c1, 0xf881, 0x3840,
     0x2800, 0xe8c1, 0xe981, 0x2940, 0xeb01, 0x2bc0, 0x2a80, 0xea41, 0xee01, 0x2ec0, 0x2f80, 0xef41,
     0x2d00, 0xedc1, 0xec81, 0x2c40, 0xe401, 0x24c0, 0x2580, 0xe541, 0x2700, 0xe7c1, 0xe681, 0x2640,
     0x2200, 0xe2c1, 0xe381, 0x2340, 0xe101, 0x21c0, 0x2080, 0xe041, 0xa001, 0x60c0, 0x6180, 0xa141,
     0x6300, 0xa3c1, 0xa281, 0x6240, 0x6600, 0xa6c1, 0xa781, 0x6740, 0xa501, 0x65c0, 0x6480, 0xa441,
     0x6c00, 0xacc1, 0xad81, 0x6d40, 0xaf01, 0x6fc0, 0x6e80, 0xae41, 0xaa01, 0x6ac0, 0x6b80, 0xab41,
     0x6900, 0xa9c1, 0xa881, 0x6840, 0x7800, 0xb8c1, 0xb981, 0x7940, 0xbb01, 0x7bc0, 0x7a80, 0xba41,
     0xbe01, 0x7ec0, 0x7f80, 0xbf41, 0x7d00, 0xbdc1, 0xbc81, 0x7c40, 0xb401, 0x74c0, 0x7580, 0xb541,
     0x7700, 0xb7c1, 0xb681, 0x7640, 0x7200, 0xb2c1, 0xb381, 0x7340, 0xb101, 0x71c0, 0x7080, 0xb041,
     0x5000, 0x90c1, 0x9181, 0x5140, 0x9301, 0x53c0, 0x5280, 0x9241, 0x9601, 0x56c0, 0x5780, 0x9741,
     0x5500, 0x95c1, 0x9481, 0x5440, 0x9c01, 0x5cc0, 0x5d80, 0x9d41, 0x5f00, 0x9fc1, 0x9e81, 0x5e40,
     0x5a00, 0x9ac1, 0x9b81, 0x5b40, 0x9901, 0x59c0, 0x5880, 0x9841, 0x8801, 0x48c0, 0x4980, 0x8941,
     0x4b00, 0x8bc1, 0x8a81, 0x4a40, 0x4e00, 0x8ec1, 0x8f81, 0x4f40, 0x8d01, 0x4dc0, 0x4c80, 0x8c41,
     0x4400, 0x84c1, 0x8581, 0x4540, 0x8701, 0x47c0, 0x4680, 0x8641, 0x8201, 0x42c0, 0x4380, 0x8341,
     0x4100, 0x81c1, 0x8081, 0x4040]"

record Fcs =
  crc :: u16

definition Fcs_Initialize :: Fcs where
  "Fcs_Initialize = \<lparr>crc = 0\<rparr>"

definition Fcs_AddByte :: "u8 \<Rightarrow> Fcs \<Rightarrow> Fcs" where
  "Fcs_AddByte byte s =
     s\<lparr>crc := (drop_bit 8 (crc s) AND 0x00ff) XOR
               crctab ! unat ((crc s AND 0x00ff) XOR ucast byte)\<rparr>"

definition Fcs_GetChecksum :: "Fcs \<Rightarrow> u16" where
  "Fcs_GetChecksum s = crc s"

text \<open>The checksum of a byte string, as the generated packet code computes it.\<close>

definition fcs_of :: "u8 list \<Rightarrow> u16" where
  "fcs_of bs = Fcs_GetChecksum (fold Fcs_AddByte bs Fcs_Initialize)"

subsection \<open>Signal identifiers\<close>

lemma u8_neg_1: "(-1 :: u8) = 0xff"
  by simp

lemma sig_inc_value:
  "sig_value (sig_inc s) = (if sig_value s = 0xff then 1 else sig_value s + 1)"
proof -
  have "sig_value s + 1 = 0 \<longleftrightarrow> sig_value s = -1"
    by (simp only: eq_neg_iff_add_eq_0)
  then show ?thesis by (simp add: sig_inc_def u8_neg_1 Let_def)
qed

lemma sig_inc_valid: "sig_IsValid (sig_inc s)"
proof -
  have "sig_value s + 1 = 0 \<longleftrightarrow> sig_value s = -1"
    by (simp only: eq_neg_iff_add_eq_0)
  then show ?thesis by (auto simp: sig_IsValid_def sig_inc_value u8_neg_1)
qed

lemma sig_dec_inc: "sig_IsValid s \<Longrightarrow> sig_dec (sig_inc s) = s"
proof -
  assume "sig_IsValid s"
  have "sig_value s + 1 = 0 \<longleftrightarrow> sig_value s = -1"
    by (simp only: eq_neg_iff_add_eq_0)
  with \<open>sig_IsValid s\<close> show ?thesis
    by (cases s) (auto simp: sig_inc_def sig_dec_def sig_IsValid_def Let_def u8_neg_1)
qed

lemma unat_sig_inc_iterate:
  "sig_IsValid s \<Longrightarrow>
     unat (sig_value ((sig_inc ^^ n) s)) = (unat (sig_value s) - 1 + n) mod 255 + 1"
proof (induction n)
  case 0
  then have "0 < unat (sig_value s)" by (simp add: sig_IsValid_def unat_gt_0)
  moreover have "unat (sig_value s) < 256" by (rule unat_u8_lt)
  ultimately show ?case by simp
next
  case (Suc n)
  let ?v = "sig_value ((sig_inc ^^ n) s)"
  from Suc have ih: "unat ?v = (unat (sig_value s) - 1 + n) mod 255 + 1" by simp
  show ?case
  proof (cases "?v = 0xff")
    case True
    then have "(unat (sig_value s) - 1 + n) mod 255 = 254" using ih by simp
    then show ?thesis using True by (simp add: sig_inc_value mod_Suc)
  next
    case False
    have "unat ?v \<noteq> 255"
    proof
      assume "unat ?v = 255"
      then have "unat ?v = unat (255 :: u8)" by simp
      then have "?v = 255" by (simp only: word_unat_eq_iff)
      with False show False by simp
    qed
    moreover have "unat ?v < 256" by (rule unat_u8_lt)
    ultimately have "unat (?v + 1) = unat ?v + 1"
      by (simp add: unat_word_ariths)
    with False ih \<open>unat ?v \<noteq> 255\<close> show ?thesis
      by (simp add: sig_inc_value mod_Suc)
  qed
qed

lemma add_mod_255_cancel:
  assumes "(u + i) mod 255 = (u + j) mod 255" "i < 255" "j < (255 :: nat)"
  shows "i = j"
proof -
  define q where "q = (u + i) div 255"
  define q' where "q' = (u + j) div 255"
  have "u + i = 255 * q + (u + i) mod 255" "u + j = 255 * q' + (u + i) mod 255"
    unfolding q_def q'_def by (simp, subst assms(1), simp)
  then show ?thesis
    using assms(2,3) by (cases q q' rule: linorder_cases) linarith+
qed

lemma sig_ids_distinct:
  assumes "sig_IsValid s" "i < 255" "j < 255" "(sig_inc ^^ i) s = (sig_inc ^^ j) s"
  shows "i = j"
proof -
  from assms have "(unat (sig_value s) - 1 + i) mod 255 = (unat (sig_value s) - 1 + j) mod 255"
    using unat_sig_inc_iterate [OF assms(1), of i] unat_sig_inc_iterate [OF assms(1), of j] by simp
  then show ?thesis using assms(2,3) by (rule add_mod_255_cancel)
qed

subsection \<open>PSM values\<close>

lemma IsPsmValid_bits: "IsPsmValid psm \<longleftrightarrow> bit psm 0 \<and> \<not> bit psm 8"
proof
  assume v: "IsPsmValid psm"
  then have "bit (psm AND 0x0101) 0" "\<not> bit (psm AND 0x0101) 8" by (simp_all add: IsPsmValid_def)
  then show "bit psm 0 \<and> \<not> bit psm 8" by (simp add: bit_and_iff)
next
  assume b: "bit psm 0 \<and> \<not> bit psm 8"
  show "IsPsmValid psm"
    unfolding IsPsmValid_def
  proof (rule bit_word_eqI)
    fix n :: nat assume "n < LENGTH(16)"
    then have "n \<in> {0, 1, 2, 3, 4, 5, 6, 7, 8, 9, 10, 11, 12, 13, 14, 15}" by (simp, arith)
    then show "bit (psm AND 0x0101) n = bit (0x0001 :: u16) n"
      using b by (elim insertE) (simp_all add: bit_and_iff)
  qed
qed

subsection \<open>The checksum table is CRC-16\<close>

text \<open>One bit of the reflected CRC-16 with generator \<open>x^16 + x^15 + x^2 + 1\<close>, and eight of them.\<close>

definition crc_bit :: "u16 \<Rightarrow> u16" where
  "crc_bit c = (if bit c 0 then drop_bit 1 c XOR 0xA001 else drop_bit 1 c)"

definition crc_byte :: "u16 \<Rightarrow> u16" where
  "crc_byte c = crc_bit (crc_bit (crc_bit (crc_bit (crc_bit (crc_bit (crc_bit (crc_bit c)))))))"

lemma crc_bit_xor: "crc_bit (a XOR b) = crc_bit a XOR crc_bit b"
proof (rule bit_word_eqI)
  fix n assume "n < LENGTH(16)"
  show "bit (crc_bit (a XOR b)) n = bit (crc_bit a XOR crc_bit b) n"
    by (auto simp: crc_bit_def bit_simps)
qed

lemma crc_byte_xor: "crc_byte (a XOR b) = crc_byte a XOR crc_byte b"
  by (simp add: crc_byte_def crc_bit_xor)

text \<open>The table, built by doubling: the entries are linear in the index.\<close>

fun crc_table :: "nat \<Rightarrow> u16 list" where
  "crc_table 0 = [0]"
| "crc_table (Suc k) = crc_table k @ map (\<lambda>c. crc_byte (2 ^ k) XOR c) (crc_table k)"

lemma of_nat_add_exp:
  assumes "j < 2 ^ k" "k < 16"
  shows "(2 ^ k + word_of_nat j :: u16) = 2 ^ k XOR word_of_nat j"
proof -
  have "(2 ^ k :: u16) AND word_of_nat j = 0"
  proof (rule bit_word_eqI)
    fix n
    have "\<not> bit j k" using assms(1) by (metis bit_take_bit_iff less_irrefl take_bit_nat_eq_self)
    then show "bit ((2 ^ k :: u16) AND word_of_nat j) n = bit (0 :: u16) n"
      by (auto simp: bit_and_iff bit_exp_iff bit_of_nat_iff)
  qed
  then show ?thesis by (simp add: disjunctive_add_eq_xor)
qed

lemma crc_table_map: "k \<le> 16 \<Longrightarrow> crc_table k = map (\<lambda>i. crc_byte (word_of_nat i)) [0..<2 ^ k]"
proof (induction k)
  case 0
  show ?case by (simp add: crc_byte_def crc_bit_def)
next
  case (Suc k)
  have "[0..<2 ^ Suc k] = [0..<2 ^ k] @ map (\<lambda>j. 2 ^ k + j) [0..<2 ^ k]"
    using upt_add_eq_append [of 0 "2 ^ k" "2 ^ k"] map_add_upt [of "2 ^ k" "2 ^ k"]
    by (simp add: mult_2 add.commute)
  with Suc show ?case
    by (simp add: of_nat_add_exp crc_byte_xor del: upt_Suc)
qed

lemma crc_byte_powers:
  "crc_byte 1 = 0xc0c1"
  "crc_byte 2 = 0xc181"
  "crc_byte 4 = 0xc301"
  "crc_byte 8 = 0xc601"
  "crc_byte 16 = 0xcc01"
  "crc_byte 32 = 0xd801"
  "crc_byte 64 = 0xf001"
  "crc_byte 128 = 0xa001"
  by (simp_all add: crc_byte_def crc_bit_def)

lemma crctab_table: "crctab = crc_table 8"
proof -
  have t1: "crc_table 1 = [0x0000, 0xc0c1]"
    using crc_table.simps(2) [of 0] by (simp add: crc_byte_powers)
  have t2: "crc_table 2 = [0x0000, 0xc0c1, 0xc181, 0x0140]"
    by (simp add: numeral_2_eq_2 crc_byte_powers)
  have t3: "crc_table 3 = [0x0000, 0xc0c1, 0xc181, 0x0140, 0xc301, 0x03c0, 0x0280, 0xc241]"
    using crc_table.simps(2) [of 2] by (simp add: t2 crc_byte_powers)
  have t4: "crc_table 4 = [0x0000, 0xc0c1, 0xc181, 0x0140, 0xc301, 0x03c0, 0x0280, 0xc241, 0xc601, 0x06c0, 0x0780, 0xc741,
       0x0500, 0xc5c1, 0xc481, 0x0440]"
    using crc_table.simps(2) [of 3] by (simp add: t3 crc_byte_powers)
  have t5: "crc_table 5 = [0x0000, 0xc0c1, 0xc181, 0x0140, 0xc301, 0x03c0, 0x0280, 0xc241, 0xc601, 0x06c0, 0x0780, 0xc741,
       0x0500, 0xc5c1, 0xc481, 0x0440, 0xcc01, 0x0cc0, 0x0d80, 0xcd41, 0x0f00, 0xcfc1, 0xce81, 0x0e40,
       0x0a00, 0xcac1, 0xcb81, 0x0b40, 0xc901, 0x09c0, 0x0880, 0xc841]"
    using crc_table.simps(2) [of 4] by (simp add: t4 crc_byte_powers)
  have t6: "crc_table 6 = [0x0000, 0xc0c1, 0xc181, 0x0140, 0xc301, 0x03c0, 0x0280, 0xc241, 0xc601, 0x06c0, 0x0780, 0xc741,
       0x0500, 0xc5c1, 0xc481, 0x0440, 0xcc01, 0x0cc0, 0x0d80, 0xcd41, 0x0f00, 0xcfc1, 0xce81, 0x0e40,
       0x0a00, 0xcac1, 0xcb81, 0x0b40, 0xc901, 0x09c0, 0x0880, 0xc841, 0xd801, 0x18c0, 0x1980, 0xd941,
       0x1b00, 0xdbc1, 0xda81, 0x1a40, 0x1e00, 0xdec1, 0xdf81, 0x1f40, 0xdd01, 0x1dc0, 0x1c80, 0xdc41,
       0x1400, 0xd4c1, 0xd581, 0x1540, 0xd701, 0x17c0, 0x1680, 0xd641, 0xd201, 0x12c0, 0x1380, 0xd341,
       0x1100, 0xd1c1, 0xd081, 0x1040]"
    using crc_table.simps(2) [of 5] by (simp add: t5 crc_byte_powers)
  have t7: "crc_table 7 = [0x0000, 0xc0c1, 0xc181, 0x0140, 0xc301, 0x03c0, 0x0280, 0xc241, 0xc601, 0x06c0, 0x0780, 0xc741,
       0x0500, 0xc5c1, 0xc481, 0x0440, 0xcc01, 0x0cc0, 0x0d80, 0xcd41, 0x0f00, 0xcfc1, 0xce81, 0x0e40,
       0x0a00, 0xcac1, 0xcb81, 0x0b40, 0xc901, 0x09c0, 0x0880, 0xc841, 0xd801, 0x18c0, 0x1980, 0xd941,
       0x1b00, 0xdbc1, 0xda81, 0x1a40, 0x1e00, 0xdec1, 0xdf81, 0x1f40, 0xdd01, 0x1dc0, 0x1c80, 0xdc41,
       0x1400, 0xd4c1, 0xd581, 0x1540, 0xd701, 0x17c0, 0x1680, 0xd641, 0xd201, 0x12c0, 0x1380, 0xd341,
       0x1100, 0xd1c1, 0xd081, 0x1040, 0xf001, 0x30c0, 0x3180, 0xf141, 0x3300, 0xf3c1, 0xf281, 0x3240,
       0x3600, 0xf6c1, 0xf781, 0x3740, 0xf501, 0x35c0, 0x3480, 0xf441, 0x3c00, 0xfcc1, 0xfd81, 0x3d40,
       0xff01, 0x3fc0, 0x3e80, 0xfe41, 0xfa01, 0x3ac0, 0x3b80, 0xfb41, 0x3900, 0xf9c1, 0xf881, 0x3840,
       0x2800, 0xe8c1, 0xe981, 0x2940, 0xeb01, 0x2bc0, 0x2a80, 0xea41, 0xee01, 0x2ec0, 0x2f80, 0xef41,
       0x2d00, 0xedc1, 0xec81, 0x2c40, 0xe401, 0x24c0, 0x2580, 0xe541, 0x2700, 0xe7c1, 0xe681, 0x2640,
       0x2200, 0xe2c1, 0xe381, 0x2340, 0xe101, 0x21c0, 0x2080, 0xe041]"
    using crc_table.simps(2) [of 6] by (simp add: t6 crc_byte_powers)
  show ?thesis
    using crc_table.simps(2) [of 7] by (simp add: t7 crc_byte_powers crctab_def)
qed

lemma crctab_bitwise: "crctab = map (\<lambda>i. crc_byte (word_of_nat i)) [0..<256]"
  using crc_table_map [of 8] by (simp add: crctab_table)

lemma crctab_high: "list_all (\<lambda>c. drop_bit 8 c \<noteq> 0) (tl crctab)"
  by (simp add: crctab_def)

lemma crc_bit_push:
  assumes "take_bit 8 x = x" "0 < k" "k \<le> 8"
  shows "crc_bit (push_bit k x) = push_bit (k - 1) x"
proof -
  have lt: "bit x i \<Longrightarrow> i < 8" for i using bit_take_bit_iff [of 8 x i] by (simp add: assms(1))
  have "\<not> bit (push_bit k x) 0" using assms(2) by (simp add: bit_push_bit_iff)
  then have "crc_bit (push_bit k x) = drop_bit 1 (push_bit k x)" unfolding crc_bit_def by (rule if_not_P)
  also have "\<dots> = push_bit (k - 1) x"
  proof (rule bit_word_eqI)
    fix m assume m: "m < LENGTH(16)"
    have "bit (drop_bit 1 (push_bit k x)) m \<longleftrightarrow>
        k \<le> Suc m \<and> Suc m < 16 \<and> bit x (Suc m - k)"
      by (simp only: bit_drop_bit_eq comp_def bit_push_bit_iff) (simp only: possible_bit_word add_Suc_right, auto)
    also have "\<dots> \<longleftrightarrow> k - 1 \<le> m \<and> bit x (m - (k - 1))"
    proof (cases "k \<le> Suc m")
      case True
      then have eq: "Suc m - k = m - (k - 1)" and le: "k - 1 \<le> m" using assms(2) by linarith+
      have "bit x (m - (k - 1)) \<Longrightarrow> Suc m < 16" using lt [of "m - (k - 1)"] assms(3) by linarith
      with True le show ?thesis unfolding eq by blast
    next
      case False
      then have "\<not> k - 1 \<le> m" by linarith
      with False show ?thesis by blast
    qed
    also have "\<dots> \<longleftrightarrow> bit (push_bit (k - 1) x) m"
      using m by (simp only: bit_push_bit_iff) auto
    finally show "bit (drop_bit 1 (push_bit k x)) m = bit (push_bit (k - 1) x) m" .
  qed
  finally show ?thesis .
qed

lemma crc_byte_push:
  assumes "take_bit 8 x = x"
  shows "crc_byte (push_bit 8 x) = x"
proof -
  note step = crc_bit_push [OF assms]
  have "crc_bit (push_bit 8 x) = push_bit 7 x" "crc_bit (push_bit 7 x) = push_bit 6 x"
    "crc_bit (push_bit 6 x) = push_bit 5 x" "crc_bit (push_bit 5 x) = push_bit 4 x"
    "crc_bit (push_bit 4 x) = push_bit 3 x" "crc_bit (push_bit 3 x) = push_bit 2 x"
    "crc_bit (push_bit 2 x) = push_bit 1 x" "crc_bit (push_bit 1 x) = x"
    using step [of 8] step [of 7] step [of 6] step [of 5] step [of 4] step [of 3] step [of 2]
      step [of 1] by simp_all
  then show ?thesis by (simp only: crc_byte_def)
qed

lemma split_u16: "(c :: u16) = take_bit 8 c XOR push_bit 8 (drop_bit 8 c)"
  by (rule bit_word_eqI) (auto simp: bit_simps)

lemma and_00ff: "(c :: u16) AND 0x00ff = take_bit 8 c"
  by (simp add: take_bit_eq_mask mask_eq_exp_minus_1)

lemma crctab_nth: "take_bit 8 c = c \<Longrightarrow> crctab ! unat c = crc_byte c"
proof -
  assume "take_bit 8 c = c"
  then have "unat c = take_bit 8 (unat c)"
    using unsigned_take_bit_eq [of 8 c, where ?'a = nat] by (simp only:)
  also have "\<dots> < 256"
    using take_bit_nat_less_exp [of 8 "unat c"] by simp
  finally have "unat c < 256" .
  then show ?thesis by (simp add: crctab_bitwise)
qed

lemma Fcs_AddByte_bitwise: "crc (Fcs_AddByte b s) = crc_byte (crc s XOR ucast b)"
proof -
  have idx: "take_bit 8 ((crc s AND 0x00ff) XOR ucast b) = (crc s AND 0x00ff) XOR ucast b"
    by (rule bit_word_eqI) (auto simp: bit_simps and_00ff dest: bit_imp_le_length)
  have hi: "take_bit 8 (drop_bit 8 (crc s)) = drop_bit 8 (crc s)"
    by (rule bit_word_eqI) (auto simp: bit_simps dest: bit_imp_le_length)
  have "crc s XOR ucast b = ((crc s AND 0x00ff) XOR ucast b) XOR push_bit 8 (drop_bit 8 (crc s))"
    by (rule bit_word_eqI) (auto simp: bit_simps and_00ff)
  then have "crc_byte (crc s XOR ucast b) =
      crc_byte ((crc s AND 0x00ff) XOR ucast b) XOR drop_bit 8 (crc s)"
    by (simp only: crc_byte_xor crc_byte_push [OF hi])
  moreover have "crc (Fcs_AddByte b s) =
      crc_byte ((crc s AND 0x00ff) XOR ucast b) XOR drop_bit 8 (crc s)"
    unfolding Fcs_AddByte_def crctab_nth [OF idx]
    by (simp add: and_00ff [of "drop_bit 8 (crc s)"] hi xor.commute)
  ultimately show ?thesis by simp
qed

lemma xor_eq_zero: "(a :: u16) XOR b = 0 \<longleftrightarrow> a = b"
proof
  assume z: "a XOR b = 0"
  show "a = b"
  proof (rule bit_word_eqI)
    fix n
    have "\<not> bit (a XOR b) n" using z by simp
    then show "bit a n = bit b n" by (simp add: bit_xor_iff)
  qed
qed simp

lemma xor_cancel_right: "(a :: u16) XOR c = b XOR c \<Longrightarrow> a = b"
proof -
  assume "a XOR c = b XOR c"
  then have "(a XOR c) XOR c = (b XOR c) XOR c" by (rule arg_cong)
  then show "a = b" by (simp add: xor.assoc)
qed

lemma ucast_u8_inj: "(ucast (b :: u8) :: u16) = ucast b' \<Longrightarrow> b = b'"
proof (rule bit_word_eqI)
  fix n assume "(ucast b :: u16) = ucast b'" and n: "n < LENGTH(8)"
  then have "bit (ucast b :: u16) n = bit (ucast b' :: u16) n" by simp
  with n show "bit b n = bit b' n" by (simp add: bit_ucast_iff)
qed

lemma crc_byte_split:
  "crc_byte c = crctab ! unat (take_bit 8 c) XOR drop_bit 8 c"
proof -
  have hi: "take_bit 8 (drop_bit 8 c) = drop_bit 8 c"
    by (rule bit_word_eqI) (auto simp: bit_simps dest: bit_imp_le_length)
  have "crc_byte c = crc_byte (take_bit 8 c) XOR crc_byte (push_bit 8 (drop_bit 8 c))"
    by (subst split_u16) (rule crc_byte_xor)
  then show ?thesis by (simp only: crc_byte_push [OF hi]) (simp add: crctab_nth)
qed

lemma crctab_high_nth: "0 < i \<Longrightarrow> i < 256 \<Longrightarrow> drop_bit 8 (crctab ! i) \<noteq> 0"
proof -
  assume i: "0 < i" "i < 256"
  have len: "length crctab = 256" by (simp add: crctab_bitwise)
  have "tl crctab ! (i - 1) = crctab ! i" using i len by (simp add: nth_tl)
  moreover have "tl crctab ! (i - 1) \<in> set (tl crctab)" using i len by (intro nth_mem) simp
  ultimately show ?thesis using crctab_high by (auto simp: list_all_iff)
qed

lemma crc_byte_kernel: "crc_byte c = 0 \<Longrightarrow> c = 0"
proof -
  assume z: "crc_byte c = 0"
  let ?lo = "take_bit 8 c"
  have "unat ?lo < 256"
    using unsigned_take_bit_eq [of 8 c, where ?'a = nat] take_bit_nat_less_exp [of 8 "unat c"]
    by simp
  from z have eq: "crctab ! unat ?lo = drop_bit 8 c" by (simp add: crc_byte_split xor_eq_zero)
  then have "drop_bit 8 (crctab ! unat ?lo) = 0" by (simp add: drop_bit_drop_bit)
  with crctab_high_nth [of "unat ?lo"] \<open>unat ?lo < 256\<close> have lo: "?lo = 0" by (cases "unat ?lo = 0") (auto simp: unat_eq_0)
  have "crctab ! 0 = 0" by (simp add: crctab_def)
  with eq lo have "drop_bit 8 c = 0" by simp
  with lo show "c = 0" by (subst split_u16) simp
qed

lemma crc_byte_inj: "crc_byte a = crc_byte b \<Longrightarrow> a = b"
  using crc_byte_kernel [of "a XOR b"] by (simp add: crc_byte_xor xor_eq_zero)

lemma fold_AddByte_crc: "crc (fold Fcs_AddByte bs s) = fold (\<lambda>b c. crc_byte (c XOR ucast b)) bs (crc s)"
  by (induction bs arbitrary: s) (simp_all add: Fcs_AddByte_bitwise)

lemma fcs_of_fold: "fcs_of bs = fold (\<lambda>b c. crc_byte (c XOR ucast b)) bs 0"
  by (simp add: fcs_of_def Fcs_GetChecksum_def fold_AddByte_crc Fcs_Initialize_def)

lemma fold_crc_inj:
  "fold (\<lambda>b c. crc_byte (c XOR ucast b)) bs a = fold (\<lambda>b c. crc_byte (c XOR ucast b)) bs a' \<Longrightarrow> a = a'"
proof (induction bs arbitrary: a a')
  case (Cons b bs)
  then have "crc_byte (a XOR ucast b) = crc_byte (a' XOR ucast b)" by simp
  from crc_byte_inj [OF this] show ?case by (rule xor_cancel_right)
qed simp

lemma fcs_residue_aux:
  "fold (\<lambda>b c. crc_byte (c XOR ucast b)) [ucast c :: u8, ucast (drop_bit 8 c)] c = (0 :: u16)"
proof -
  let ?lo = "ucast (c :: u16) :: u8" and ?hi = "ucast (drop_bit 8 c) :: u8"
  have h: "take_bit 8 (drop_bit 8 c) = drop_bit 8 c" "(ucast ?hi :: u16) = drop_bit 8 c"
    by (rule bit_word_eqI, auto simp: bit_simps dest: bit_imp_le_length)+
  have "c XOR ucast ?lo = push_bit 8 (drop_bit 8 c)"
    by (rule bit_word_eqI) (auto simp: bit_simps)
  then have "crc_byte (c XOR ucast ?lo) = drop_bit 8 c" by (simp only: crc_byte_push [OF h(1)])
  moreover have "crc_byte (0 :: u16) = 0" by (simp add: crc_byte_def crc_bit_def)
  ultimately show ?thesis by (simp add: h(2))
qed

text \<open>
  A receiver that runs the checksum over a frame followed by its own transmitted checksum
  (low byte first, as the little-endian packet layout puts it) always ends at zero.
\<close>

theorem fcs_residue_zero:
  "fcs_of (bs @ [ucast (fcs_of bs), ucast (drop_bit 8 (fcs_of bs))]) = 0"
  using fcs_residue_aux [of "fcs_of bs"] by (simp add: fcs_of_fold)

text \<open>
  C28. The table-driven Fcs::AddByte is the bit-by-bit CRC-16 of the L2CAP specification
  (generator polynomial 0xA001 in reflected form), for every state and every byte.
\<close>

theorem fcs_table_is_crc16:
  "crc (Fcs_AddByte b s) = (crc_bit ^^ 8) (crc s XOR ucast b)"
  by (simp add: Fcs_AddByte_bitwise crc_byte_def numeral_eq_Suc)

text \<open>
  C29. Corrupting any single byte of a frame changes its checksum, whatever comes before and after.
\<close>

theorem fcs_detects_byte_error:
  assumes "b \<noteq> b'"
  shows "fcs_of (pre @ b # post) \<noteq> fcs_of (pre @ b' # post)"
proof
  assume "fcs_of (pre @ b # post) = fcs_of (pre @ b' # post)"
  then have "crc_byte (fcs_of pre XOR ucast b) = crc_byte (fcs_of pre XOR ucast b')"
    by (auto simp: fcs_of_fold dest: fold_crc_inj)
  then have "(ucast b :: u16) = ucast b'"
    using xor_cancel_right [of "ucast b" "fcs_of pre" "ucast b'"]
    by (metis crc_byte_inj xor.commute)
  with assms show False by (blast dest: ucast_u8_inj)
qed

theorem fcs_detects_byte_error_witness:
  "fcs_of ([1, 2] @ 3 # [4]) \<noteq> fcs_of ([1, 2] @ 7 # [4 :: u8])"
  by (rule fcs_detects_byte_error) simp

text \<open>
  next\_signal\_id\_ never becomes the invalid identifier 0, and 255 consecutive requests carry
  255 different identifiers, so an outstanding request is never confused with one of the 254 after it.
\<close>

theorem signal_ids_fresh:
  assumes "sig_IsValid s"
  shows "sig_IsValid ((sig_inc ^^ n) s) \<and> distinct (map (\<lambda>i. (sig_inc ^^ i) s) [0..<255])"
proof
  show "sig_IsValid ((sig_inc ^^ n) s)"
    using assms by (cases n) (simp_all add: sig_inc_valid)
  show "distinct (map (\<lambda>i. (sig_inc ^^ i) s) [0..<255])"
    using sig_ids_distinct [OF assms] by (auto simp: distinct_map inj_on_def)
qed

theorem signal_ids_fresh_witness:
  "sig_IsValid kInitialSignalId \<and> sig_IsValid ((sig_inc ^^ 300) kInitialSignalId)"
  using signal_ids_fresh [of kInitialSignalId 300]
  by (simp add: sig_IsValid_def kInitialSignalId_def SignalId_def)

end
