(* ===== verification/Data_Controller.thy ===== *)
theory Data_Controller
  imports Packet L2cap_Basics
begin

text \<open>
  What the channel data controllers of system/gd/l2cap/internal share: the calls they make on
  their link and on the scheduler, the buffer in front of the channel's upper queue
  (os::EnqueueBuffer of os/queue.h), and the retransmission option of the configuration.

  Calls on the link (ILink) and the scheduler do not return anything the controllers use and do
  not call back into them, so a controller records them in order in an effect list, which the
  data pipeline drains.
\<close>

datatype ctrl_effect =
    SendDisconnectionRequest Cid Cid
  | SendLeCredit Cid u16
  | OnPacketsReady Cid int

subsection \<open>os::EnqueueBuffer\<close>

record 'a enqueue_buffer =
  eb_buffer :: "'a list"
  enqueue_registered :: bool
  callback_on_empty :: bool

definition EnqueueBuffer :: "'a enqueue_buffer" where
  "EnqueueBuffer = \<lparr>eb_buffer = [], enqueue_registered = False, callback_on_empty = False\<rparr>"

definition eb_Enqueue :: "'a \<Rightarrow> 'a enqueue_buffer \<Rightarrow> 'a enqueue_buffer" where
  "eb_Enqueue t b = b\<lparr>eb_buffer := eb_buffer b @ [t], enqueue_registered := True\<rparr>"

definition eb_Clear :: "'a enqueue_buffer \<Rightarrow> 'a enqueue_buffer" where
  "eb_Clear b =
     (if enqueue_registered b then b\<lparr>enqueue_registered := False, eb_buffer := []\<rparr> else b)"

definition eb_Size :: "'a enqueue_buffer \<Rightarrow> nat" where
  "eb_Size b = length (eb_buffer b)"

definition eb_NotifyOnEmpty :: "'a enqueue_buffer \<Rightarrow> 'a enqueue_buffer option" where
  "eb_NotifyOnEmpty b = do {
     ASSERT (\<not> callback_on_empty b);
     Some (b\<lparr>callback_on_empty := True\<rparr>) }"

text \<open>
  The callback the upper queue runs when it has room.  The third component says whether the
  on-empty callback was run.
\<close>

definition eb_enqueue_callback :: "'a enqueue_buffer \<Rightarrow> ('a \<times> 'a enqueue_buffer \<times> bool) option" where
  "eb_enqueue_callback b =
     (case eb_buffer b of [] \<Rightarrow> None
      | t # rest \<Rightarrow>
        let b = b\<lparr>eb_buffer := rest\<rparr> in
        if rest = [] \<and> enqueue_registered b
        then (let b = b\<lparr>enqueue_registered := False\<rparr> in
              if callback_on_empty b then Some (t, b\<lparr>callback_on_empty := False\<rparr>, True)
              else Some (t, b, False))
        else Some (t, b, False))"

text \<open>The buffer is registered with the queue exactly while it holds something.\<close>

definition eb_ok :: "'a enqueue_buffer \<Rightarrow> bool" where
  "eb_ok b \<longleftrightarrow> (enqueue_registered b \<longleftrightarrow> eb_buffer b \<noteq> [])"

lemma eb_ok_init [simp]: "eb_ok EnqueueBuffer"
  by (simp add: eb_ok_def EnqueueBuffer_def)

lemma eb_ok_Enqueue [simp]: "eb_ok (eb_Enqueue t b)"
  by (simp add: eb_ok_def eb_Enqueue_def)

lemma eb_ok_Clear: "eb_ok b \<Longrightarrow> eb_ok (eb_Clear b) \<and> eb_buffer (eb_Clear b) = []"
  by (auto simp: eb_ok_def eb_Clear_def)

lemma eb_ok_callback:
  "eb_ok b \<Longrightarrow> eb_enqueue_callback b = Some (t, b', r) \<Longrightarrow>
     eb_ok b' \<and> eb_buffer b = t # eb_buffer b'"
  by (auto simp: eb_ok_def eb_enqueue_callback_def Let_def split: list.splits if_splits)

subsection \<open>Configuration options of l2cap\_packets.pdl\<close>

text \<open>The last constructor of each enumeration stands for the values the packet description does not name.\<close>

datatype RetransmissionAndFlowControlModeOption =
  L2CAP_BASIC | RETRANSMISSION | FLOW_CONTROL | ENHANCED_RETRANSMISSION | STREAMING | OTHER_MODE u8

record RetransmissionAndFlowControlConfigurationOption =
  rfc_mode :: RetransmissionAndFlowControlModeOption
  tx_window_size :: u8
  max_transmit :: u8
  retransmission_time_out :: u16
  monitor_time_out :: u16
  maximum_pdu_size :: u16

datatype FcsType = NO_FCS | FCS_DEFAULT | FCS_OTHER u8

end
