(* ===== verification/Ertm.thy ===== *)
theory Ertm
  imports Data_Controller
begin

text \<open>
  The enhanced retransmission mode controller,
  l2cap/internal/enhanced\_retransmission\_mode\_channel\_data\_controller.\{h,cc\}: the record of
  its state, the predicates, actions and events of its two state machines, segmentation,
  reassembly and the PDU entry point.

  Sequence numbers are the uint8\_t of the code; comparisons are done in int after the usual
  promotion.  The frames the generated builders and views of l2cap\_packets.pdl carry are the
  data types \<open>ertm_pdu\<close> (what is built) and \<open>frame_view\<close> (what is seen of a received PDU); the
  members tx\_seq\_, req\_seq\_, send\_rej\_ and buffer\_seq\_srej\_ of the code are never read and are
  left out, as are the empty SREJ actions.  Operations that can abort return an option.
\<close>

datatype Poll = P_NOT_SET | POLL
datatype Final = F_NOT_SET | POLL_RESPONSE
datatype SegmentationAndReassembly = UNSEGMENTED | START | END | CONTINUATION
datatype SupervisoryFunction = RECEIVER_READY | REJECT | RECEIVER_NOT_READY | SELECT_REJECT

datatype ertm_pdu =
    StartFrame bool Cid u8 Final u8 u16 bytes
  | IFrame bool Cid u8 Final u8 SegmentationAndReassembly bytes
  | SFrame bool Cid SupervisoryFunction Poll Final u8

datatype frame_view =
    InvalidFrame
  | IFrameView Final u8 u8 SegmentationAndReassembly u16 packet_view
  | SFrameView SupervisoryFunction Poll Final u8

datatype TxState = XMIT | WAIT_F
datatype RxState = RECV | REJ_SENT | SREJ_SENT

type_synonym stored_frame = "SegmentationAndReassembly \<times> u16 \<times> bytes"

record ertm =
  ertm_cid :: Cid
  ertm_remote_cid :: Cid
  enqueue_buffer :: "packet_view enqueue_buffer"
  pdu_queue :: "ertm_pdu list"
  fcs_enabled :: bool
  local_tx_window :: u16
  local_max_transmit :: u16
  local_retransmit_timeout_ms :: u16
  local_monitor_timeout_ms :: u16
  remote_tx_window :: u16
  remote_mps :: u16
  reassembly_stage :: packet_view
  sar_state :: SegmentationAndReassembly
  remaining_sdu_continuation_packet_size :: u16
  tx_state :: TxState
  rx_state :: RxState
  next_tx_seq :: u8
  expected_ack_seq :: u8
  expected_tx_seq :: u8
  buffer_seq :: u8
  remote_busy :: bool
  local_busy :: bool
  unacked_frames :: int
  unacked_list :: "u8 \<rightharpoonup> stored_frame"
  pending_frames :: "stored_frame list"
  retry_count :: int
  retry_i_frames :: "u8 \<Rightarrow> int"
  rnr_sent :: bool
  rej_actioned :: bool
  srej_actioned :: bool
  srej_save_req_seq :: u16
  frames_sent :: int
  retrans_timer :: alarm
  monitor_timer :: alarm
  ertm_effects :: "ctrl_effect list"

definition kMaxTxWin :: u8 where "kMaxTxWin = 64"

definition kSendSrej :: bool where "kSendSrej = False"

definition ErtmController :: "Cid \<Rightarrow> Cid \<Rightarrow> ertm" where
  "ErtmController cid remote_cid =
     \<lparr>ertm_cid = cid, ertm_remote_cid = remote_cid, enqueue_buffer = EnqueueBuffer,
      pdu_queue = [], fcs_enabled = False, local_tx_window = 10, local_max_transmit = 20,
      local_retransmit_timeout_ms = 2000, local_monitor_timeout_ms = 12000,
      remote_tx_window = 10, remote_mps = 1010, reassembly_stage = PacketView [],
      sar_state = END, remaining_sdu_continuation_packet_size = 0, tx_state = XMIT,
      rx_state = RECV, next_tx_seq = 0, expected_ack_seq = 0, expected_tx_seq = 0,
      buffer_seq = 0, remote_busy = False, local_busy = False, unacked_frames = 0,
      unacked_list = Map.empty, pending_frames = [], retry_count = 0,
      retry_i_frames = (\<lambda>_. 0), rnr_sent = False, rej_actioned = False,
      srej_actioned = False, srej_save_req_seq = 0, frames_sent = 0, retrans_timer = None,
      monitor_timer = None, ertm_effects = []\<rparr>"

subsection \<open>Conditions\<close>

definition rem_window_not_full :: "ertm \<Rightarrow> bool" where
  "rem_window_not_full s \<longleftrightarrow> unacked_frames s < uint (remote_tx_window s)"

definition rem_window_full :: "ertm \<Rightarrow> bool" where
  "rem_window_full s \<longleftrightarrow> unacked_frames s = uint (remote_tx_window s)"

definition retry_i_frames_less_than_max_transmit :: "u8 \<Rightarrow> ertm \<Rightarrow> bool" where
  "retry_i_frames_less_than_max_transmit req_seq s \<longleftrightarrow>
     retry_i_frames s req_seq < uint (local_max_transmit s)"

definition retry_count_less_than_max_transmit :: "ertm \<Rightarrow> bool" where
  "retry_count_less_than_max_transmit s \<longleftrightarrow> retry_count s < uint (local_max_transmit s)"

definition sequence_less_than :: "ertm \<Rightarrow> u8 \<Rightarrow> u8 \<Rightarrow> bool" where
  "sequence_less_than s x y \<longleftrightarrow>
     uint x < uint y \<or> uint kMaxTxWin - (uint x - uint y) < uint (local_tx_window s)"

definition sequence_less_than_or_equal :: "ertm \<Rightarrow> u8 \<Rightarrow> u8 \<Rightarrow> bool" where
  "sequence_less_than_or_equal s x y \<longleftrightarrow>
     uint x \<le> uint y \<or> uint kMaxTxWin - (uint x - uint y) \<le> uint (local_tx_window s)"

definition with_expected_tx_seq :: "u8 \<Rightarrow> ertm \<Rightarrow> bool" where
  "with_expected_tx_seq tx_seq s \<longleftrightarrow> tx_seq = expected_tx_seq s"

definition with_valid_req_seq :: "u8 \<Rightarrow> ertm \<Rightarrow> bool" where
  "with_valid_req_seq req_seq s \<longleftrightarrow>
     sequence_less_than_or_equal s (expected_ack_seq s) req_seq \<and>
     sequence_less_than_or_equal s req_seq (next_tx_seq s)"

definition with_valid_req_seq_retrans :: "u8 \<Rightarrow> ertm \<Rightarrow> bool" where
  "with_valid_req_seq_retrans req_seq s \<longleftrightarrow>
     sequence_less_than_or_equal s (expected_ack_seq s) req_seq \<and>
     sequence_less_than_or_equal s req_seq (next_tx_seq s)"

definition with_valid_f_bit :: "Final \<Rightarrow> ertm \<Rightarrow> bool" where
  "with_valid_f_bit f s \<longleftrightarrow> (f = F_NOT_SET) \<noteq> (tx_state s = WAIT_F)"

definition with_unexpected_tx_seq :: "u8 \<Rightarrow> ertm \<Rightarrow> bool" where
  "with_unexpected_tx_seq tx_seq s \<longleftrightarrow>
     sequence_less_than s (expected_tx_seq s) tx_seq \<and>
     sequence_less_than_or_equal s tx_seq (expected_tx_seq s + ucast (local_tx_window s))"

definition with_duplicate_tx_seq :: "u8 \<Rightarrow> ertm \<Rightarrow> bool" where
  "with_duplicate_tx_seq tx_seq s \<longleftrightarrow>
     sequence_less_than s tx_seq (expected_tx_seq s) \<and>
     sequence_less_than_or_equal s (expected_tx_seq s - ucast (local_tx_window s)) tx_seq"

definition with_invalid_tx_seq :: "u8 \<Rightarrow> ertm \<Rightarrow> bool" where
  "with_invalid_tx_seq tx_seq s \<longleftrightarrow>
     sequence_less_than s tx_seq (expected_tx_seq s - ucast (local_tx_window s)) \<or>
     sequence_less_than s (expected_tx_seq s + ucast (local_tx_window s)) tx_seq"

definition with_invalid_req_seq :: "u8 \<Rightarrow> ertm \<Rightarrow> bool" where
  "with_invalid_req_seq req_seq s \<longleftrightarrow>
     sequence_less_than s req_seq (expected_ack_seq s) \<or>
     sequence_less_than s (next_tx_seq s) req_seq"

definition with_invalid_req_seq_retrans :: "u8 \<Rightarrow> ertm \<Rightarrow> bool" where
  "with_invalid_req_seq_retrans req_seq s \<longleftrightarrow>
     sequence_less_than s req_seq (expected_ack_seq s) \<or>
     sequence_less_than s (next_tx_seq s) req_seq"

definition not_with_expected_tx_seq :: "u8 \<Rightarrow> ertm \<Rightarrow> bool" where
  "not_with_expected_tx_seq tx_seq s \<longleftrightarrow>
     \<not> with_invalid_tx_seq tx_seq s \<and> \<not> with_expected_tx_seq tx_seq s"

definition p_bit_outstanding :: "ertm \<Rightarrow> bool" where
  "p_bit_outstanding s \<longleftrightarrow> tx_state s = WAIT_F"

subsection \<open>Actions\<close>

definition send_pdu :: "ertm_pdu \<Rightarrow> ertm \<Rightarrow> ertm" where
  "send_pdu pdu s = s\<lparr>pdu_queue := pdu_queue s @ [pdu],
                      ertm_effects := ertm_effects s @ [OnPacketsReady (ertm_cid s) 1]\<rparr>"

definition close_channel :: "ertm \<Rightarrow> ertm" where
  "close_channel s =
     s\<lparr>ertm_effects := ertm_effects s @ [SendDisconnectionRequest (ertm_cid s) (ertm_remote_cid s)]\<rparr>"

definition CloseChannel :: "ertm \<Rightarrow> ertm" where
  "CloseChannel s = close_channel s"

definition start_retrans_timer :: "ertm \<Rightarrow> ertm" where
  "start_retrans_timer s =
     s\<lparr>retrans_timer := Alarm_Schedule (unat (local_retransmit_timeout_ms s)) (retrans_timer s)\<rparr>"

definition start_monitor_timer :: "ertm \<Rightarrow> ertm" where
  "start_monitor_timer s =
     s\<lparr>monitor_timer := Alarm_Schedule (unat (local_monitor_timeout_ms s)) (monitor_timer s)\<rparr>"

definition stop_retrans_timer :: "ertm \<Rightarrow> ertm" where
  "stop_retrans_timer s = s\<lparr>retrans_timer := Alarm_Cancel (retrans_timer s)\<rparr>"

definition stop_monitor_timer :: "ertm \<Rightarrow> ertm" where
  "stop_monitor_timer s = s\<lparr>monitor_timer := Alarm_Cancel (monitor_timer s)\<rparr>"

definition send_i_frame :: "SegmentationAndReassembly \<Rightarrow> bytes \<Rightarrow> u8 \<Rightarrow> u8 \<Rightarrow> u16 \<Rightarrow> Final \<Rightarrow> ertm \<Rightarrow> ertm" where
  "send_i_frame sar segment req_seq tx_seq sdu_size f s =
     send_pdu
       (if sar = START
        then StartFrame (fcs_enabled s) (ertm_remote_cid s) tx_seq f req_seq sdu_size segment
        else IFrame (fcs_enabled s) (ertm_remote_cid s) tx_seq f req_seq sar segment) s"

text \<open>std::map::emplace keeps an element that is already there.\<close>

definition map_emplace :: "'k \<Rightarrow> 'v \<Rightarrow> ('k \<rightharpoonup> 'v) \<Rightarrow> ('k \<rightharpoonup> 'v)" where
  "map_emplace k v m = (if m k = None then m(k \<mapsto> v) else m)"

definition send_data :: "SegmentationAndReassembly \<Rightarrow> u16 \<Rightarrow> bytes \<Rightarrow> Final \<Rightarrow> ertm \<Rightarrow> ertm" where
  "send_data sar sdu_size segment f s =
    (let s = s\<lparr>unacked_list :=
                 map_emplace (next_tx_seq s) (sar, sdu_size, segment) (unacked_list s)\<rparr>;
         shared = snd (snd (the (unacked_list s (next_tx_seq s))));
         s = send_i_frame sar shared (buffer_seq s) (next_tx_seq s) sdu_size f s;
         s = s\<lparr>unacked_frames := unacked_frames s + 1, frames_sent := frames_sent s + 1,
               retry_i_frames := (retry_i_frames s)(next_tx_seq s := 1)\<rparr>;
         s = s\<lparr>next_tx_seq := (next_tx_seq s + 1) mod kMaxTxWin\<rparr>
     in start_retrans_timer s)"

definition pend_data :: "SegmentationAndReassembly \<Rightarrow> u16 \<Rightarrow> bytes \<Rightarrow> ertm \<Rightarrow> ertm" where
  "pend_data sar sdu_size segment s = s\<lparr>pending_frames := pending_frames s @ [(sar, sdu_size, segment)]\<rparr>"

text \<open>The loop of process\_req\_seq runs over the integers from expected\_ack\_seq\_ to req\_seq.\<close>

definition acked_range :: "u8 \<Rightarrow> u8 \<Rightarrow> u8 list" where
  "acked_range a r = map of_nat [unat a..<unat r]"

definition process_req_seq :: "u8 \<Rightarrow> ertm \<Rightarrow> ertm" where
  "process_req_seq req_seq s =
    (let s = fold (\<lambda>i s. s\<lparr>unacked_list := (unacked_list s)(i := None),
                           retry_i_frames := (retry_i_frames s)(i := 0)\<rparr>)
                  (acked_range (expected_ack_seq s) req_seq) s;
         s = s\<lparr>unacked_frames := unacked_frames s -
                 ((uint req_seq - uint (expected_ack_seq s)) + uint kMaxTxWin) mod uint kMaxTxWin\<rparr>;
         s = s\<lparr>expected_ack_seq := req_seq\<rparr>
     in if unacked_frames s = 0 then stop_retrans_timer s else s)"

definition send_s_frame :: "SupervisoryFunction \<Rightarrow> u8 \<Rightarrow> Poll \<Rightarrow> Final \<Rightarrow> ertm \<Rightarrow> ertm" where
  "send_s_frame fn req_seq p f s = send_pdu (SFrame (fcs_enabled s) (ertm_remote_cid s) fn p f req_seq) s"

definition send_rr_p :: "Poll \<Rightarrow> ertm \<Rightarrow> ertm" where
  "send_rr_p p s = send_s_frame RECEIVER_READY (expected_tx_seq s) p F_NOT_SET s"

definition send_rr_f :: "Final \<Rightarrow> ertm \<Rightarrow> ertm" where
  "send_rr_f f s = send_s_frame RECEIVER_READY (expected_tx_seq s) P_NOT_SET f s"

definition send_rnr_f :: "Final \<Rightarrow> ertm \<Rightarrow> ertm" where
  "send_rnr_f f s =
     (send_s_frame RECEIVER_NOT_READY (expected_tx_seq s) P_NOT_SET f s)\<lparr>rnr_sent := True\<rparr>"

definition send_rej :: "Poll \<Rightarrow> Final \<Rightarrow> ertm \<Rightarrow> ertm" where
  "send_rej p f s = send_s_frame REJECT (expected_tx_seq s) p f s"

definition send_rr_or_rnr :: "Poll \<Rightarrow> Final \<Rightarrow> ertm \<Rightarrow> ertm" where
  "send_rr_or_rnr p f s =
     (if local_busy s then send_s_frame RECEIVER_NOT_READY (buffer_seq s) p f s
      else send_s_frame RECEIVER_READY (buffer_seq s) p f s)"

fun send_pending_loop :: "Final \<Rightarrow> stored_frame list \<Rightarrow> ertm \<Rightarrow> ertm" where
  "send_pending_loop f [] s = s"
| "send_pending_loop f ((sar, sdu_size, segment) # rest) s =
     (if rem_window_not_full s
      then send_pending_loop F_NOT_SET rest
             ((send_data sar sdu_size segment f s)\<lparr>pending_frames := rest\<rparr>)
      else s)"

definition send_pending_i_frames :: "Final \<Rightarrow> ertm \<Rightarrow> ertm" where
  "send_pending_i_frames f s =
     (if p_bit_outstanding s then s else send_pending_loop f (pending_frames s) s)"

definition send_i_or_rr_or_rnr :: "Final \<Rightarrow> ertm \<Rightarrow> ertm" where
  "send_i_or_rr_or_rnr f s =
    (let s = (if local_busy s then send_rnr_f POLL_RESPONSE s else s);
         s = (if remote_busy s \<and> unacked_frames s > 0 then start_retrans_timer s else s);
         s = s\<lparr>remote_busy := False\<rparr>;
         s = send_pending_i_frames f s
     in if \<not> local_busy s then send_rr_f POLL_RESPONSE s else s)"

definition send_ack :: "Final \<Rightarrow> ertm \<Rightarrow> ertm" where
  "send_ack f s =
     (if local_busy s then send_rnr_f f s
      else if \<not> remote_busy s \<and> pending_frames s \<noteq> [] \<and> rem_window_not_full s
      then send_pending_i_frames f s
      else send_rr_f f s)"

definition retransmit_one :: "u8 \<Rightarrow> stored_frame \<Rightarrow> Final \<Rightarrow> ertm \<Rightarrow> ertm" where
  "retransmit_one i frame f s =
    (let s = send_i_frame (fst frame) (snd (snd frame)) (buffer_seq s) i (fst (snd frame)) f s
     in s\<lparr>retry_i_frames := (retry_i_frames s)(i := retry_i_frames s i + 1),
          frames_sent := frames_sent s + 1\<rparr>)"

text \<open>
  The retransmission loop; it yields the state and, when it ran to its end, the index it
  stopped at (CloseChannel and return otherwise).
\<close>

partial_function (option) retransmit_loop :: "u8 \<Rightarrow> Final \<Rightarrow> ertm \<Rightarrow> (u8 option \<times> ertm) option" where
  "retransmit_loop i f s =
     (case unacked_list s i of None \<Rightarrow> Some (Some i, s)
      | Some frame \<Rightarrow>
        if retry_i_frames s i = uint (local_max_transmit s) then Some (None, CloseChannel s)
        else retransmit_loop (i + 1) F_NOT_SET (retransmit_one i frame f s))"

definition retransmit_i_frames :: "u8 \<Rightarrow> Poll \<Rightarrow> ertm \<Rightarrow> ertm option" where
  "retransmit_i_frames req_seq p s = do {
     (i, s) \<leftarrow> retransmit_loop req_seq (if p = P_NOT_SET then F_NOT_SET else POLL_RESPONSE) s;
     (case i of None \<Rightarrow> Some s
      | Some i \<Rightarrow> Some (if i \<noteq> req_seq then start_retrans_timer s else s)) }"

definition retransmit_requested_i_frame :: "u8 \<Rightarrow> Poll \<Rightarrow> ertm \<Rightarrow> ertm" where
  "retransmit_requested_i_frame req_seq p s =
     (case unacked_list s req_seq of None \<Rightarrow> s
      | Some frame \<Rightarrow>
        let f = (if p = POLL then POLL_RESPONSE else F_NOT_SET);
            s = send_i_frame (fst frame) (snd (snd frame)) (buffer_seq s) req_seq
                  (fst (snd frame)) f s;
            s = s\<lparr>retry_i_frames := (retry_i_frames s)(req_seq := retry_i_frames s req_seq + 1)\<rparr>
        in start_retrans_timer s)"

subsection \<open>Events\<close>

definition data_request :: "SegmentationAndReassembly \<Rightarrow> bytes \<Rightarrow> u16 \<Rightarrow> ertm \<Rightarrow> ertm" where
  "data_request sar pdu sdu_size s =
     (if tx_state s = XMIT \<and> \<not> remote_busy s \<and> rem_window_not_full s
      then send_data sar sdu_size pdu F_NOT_SET s
      else if tx_state s = XMIT \<and> (remote_busy s \<or> rem_window_full s)
      then pend_data sar sdu_size pdu s
      else if tx_state s = WAIT_F then pend_data sar sdu_size pdu s
      else s)"

definition local_busy_detected :: "ertm \<Rightarrow> ertm" where
  "local_busy_detected s = s\<lparr>local_busy := True\<rparr>"

definition local_busy_clear :: "ertm \<Rightarrow> ertm" where
  "local_busy_clear s =
     (if tx_state s = XMIT \<and> rnr_sent s
      then (let s = s\<lparr>local_busy := False, rnr_sent := False\<rparr>;
                s = send_rr_p POLL s;
                s = s\<lparr>retry_count := 1\<rparr>
            in start_monitor_timer (stop_retrans_timer s))
      else if tx_state s = XMIT then s\<lparr>local_busy := False, rnr_sent := False\<rparr>
      else s)"

definition recv_req_seq_and_f_bit :: "u8 \<Rightarrow> Final \<Rightarrow> ertm \<Rightarrow> ertm" where
  "recv_req_seq_and_f_bit req_seq f s =
     (if tx_state s = XMIT then process_req_seq req_seq s
      else if f = POLL_RESPONSE
      then (let s = stop_monitor_timer (process_req_seq req_seq s);
                s = (if unacked_frames s > 0 then start_retrans_timer s else s)
            in s\<lparr>tx_state := XMIT\<rparr>)
      else process_req_seq req_seq s)"

definition recv_f_bit :: "Final \<Rightarrow> ertm \<Rightarrow> ertm" where
  "recv_f_bit f s =
     (if tx_state s = WAIT_F \<and> f = POLL_RESPONSE
      then (let s = stop_monitor_timer s;
                s = (if unacked_frames s > 0 then start_retrans_timer s else s)
            in s\<lparr>tx_state := XMIT\<rparr>)
      else s)"

definition pass_to_tx :: "u8 \<Rightarrow> Final \<Rightarrow> ertm \<Rightarrow> ertm" where
  "pass_to_tx req_seq f s = recv_req_seq_and_f_bit req_seq f s"

definition pass_to_tx_f_bit :: "Final \<Rightarrow> ertm \<Rightarrow> ertm" where
  "pass_to_tx_f_bit f s = recv_f_bit f s"

definition retrans_timer_expires :: "ertm \<Rightarrow> ertm" where
  "retrans_timer_expires s =
     (if tx_state s = XMIT
      then (let s = send_rr_or_rnr POLL F_NOT_SET s;
                s = start_monitor_timer (s\<lparr>retry_count := 1\<rparr>)
            in s\<lparr>tx_state := WAIT_F\<rparr>)
      else s)"

definition monitor_timer_expires :: "ertm \<Rightarrow> ertm" where
  "monitor_timer_expires s =
     (if tx_state s = WAIT_F \<and> retry_count_less_than_max_transmit s
      then start_monitor_timer (send_rr_or_rnr POLL F_NOT_SET (s\<lparr>retry_count := retry_count s + 1\<rparr>))
      else if tx_state s = WAIT_F then CloseChannel s
      else s)"

definition kEnqueueBufferBusyThreshold :: nat where "kEnqueueBufferBusyThreshold = 3"

text \<open>The delivery of an SDU to the upper queue, shared by the UNSEGMENTED and END cases.\<close>

definition deliver_sdu :: "packet_view \<Rightarrow> ertm \<Rightarrow> ertm option" where
  "deliver_sdu sdu s =
    (let s = s\<lparr>enqueue_buffer := eb_Enqueue sdu (enqueue_buffer s)\<rparr> in
     if eb_Size (enqueue_buffer s) = kEnqueueBufferBusyThreshold
     then do {
       b \<leftarrow> eb_NotifyOnEmpty (enqueue_buffer (local_busy_detected s));
       Some ((local_busy_detected s)\<lparr>enqueue_buffer := b\<rparr>) }
     else Some s)"

fun stage_for_reassembly :: "SegmentationAndReassembly \<Rightarrow> u16 \<Rightarrow> packet_view \<Rightarrow> ertm \<Rightarrow> ertm option" where
  "stage_for_reassembly UNSEGMENTED sdu_size payload s =
     (if sar_state s \<noteq> END then Some (close_channel s) else deliver_sdu payload s)"
| "stage_for_reassembly START sdu_size payload s =
     (if sar_state s \<noteq> END then Some (close_channel s)
      else Some (s\<lparr>sar_state := START, reassembly_stage := payload,
                   remaining_sdu_continuation_packet_size :=
                     sdu_size - size_u16 (pv_length payload)\<rparr>))"
| "stage_for_reassembly CONTINUATION sdu_size payload s =
     (if sar_state s = END then Some (close_channel s)
      else do {
        stage \<leftarrow> Append (reassembly_stage s) payload;
        Some (s\<lparr>reassembly_stage := stage,
                remaining_sdu_continuation_packet_size :=
                  remaining_sdu_continuation_packet_size s - size_u16 (pv_length payload)\<rparr>) })"
| "stage_for_reassembly END sdu_size payload s =
     (if sar_state s = END then Some (close_channel s)
      else let s = s\<lparr>sar_state := END,
                     remaining_sdu_continuation_packet_size :=
                       remaining_sdu_continuation_packet_size s - size_u16 (pv_length payload)\<rparr>
      in if remaining_sdu_continuation_packet_size s \<noteq> 0
      then Some (close_channel (s\<lparr>reassembly_stage := PacketView [],
                                  remaining_sdu_continuation_packet_size := 0\<rparr>))
      else do {
        stage \<leftarrow> Append (reassembly_stage s) payload;
        deliver_sdu stage (s\<lparr>reassembly_stage := stage\<rparr>) })"

definition increment_expected_tx_seq :: "ertm \<Rightarrow> ertm" where
  "increment_expected_tx_seq s = s\<lparr>expected_tx_seq := (expected_tx_seq s + 1) mod kMaxTxWin\<rparr>"

definition data_indication :: "SegmentationAndReassembly \<Rightarrow> u16 \<Rightarrow> packet_view \<Rightarrow> ertm \<Rightarrow> ertm option" where
  "data_indication sar sdu_size segment s = do {
     s \<leftarrow> stage_for_reassembly sar sdu_size segment s;
     Some (s\<lparr>buffer_seq := (buffer_seq s + 1) mod kMaxTxWin\<rparr>) }"

definition recv_i_frame :: "Final \<Rightarrow> u8 \<Rightarrow> u8 \<Rightarrow> SegmentationAndReassembly \<Rightarrow> u16 \<Rightarrow> packet_view \<Rightarrow> ertm \<Rightarrow> ertm option" where
  "recv_i_frame f tx_seq req_seq sar sdu_size payload s =
    (case rx_state s of
      RECV \<Rightarrow>
        if f = F_NOT_SET \<and> with_expected_tx_seq tx_seq s \<and> with_valid_req_seq req_seq s \<and>
           with_valid_f_bit f s \<and> \<not> local_busy s
        then do {
          s \<leftarrow> data_indication sar sdu_size payload (pass_to_tx req_seq f (increment_expected_tx_seq s));
          Some (send_ack F_NOT_SET s) }
        else if f = POLL_RESPONSE \<and> with_expected_tx_seq tx_seq s \<and> with_valid_req_seq req_seq s \<and>
           with_valid_f_bit f s \<and> \<not> local_busy s
        then do {
          s \<leftarrow> data_indication sar sdu_size payload (pass_to_tx req_seq f (increment_expected_tx_seq s));
          s \<leftarrow> (if \<not> rej_actioned s
               then map_option (send_pending_i_frames F_NOT_SET) (retransmit_i_frames req_seq P_NOT_SET s)
               else Some (s\<lparr>rej_actioned := False\<rparr>));
          Some (send_ack F_NOT_SET s) }
        else if with_duplicate_tx_seq tx_seq s \<and> with_valid_req_seq req_seq s \<and> with_valid_f_bit f s \<and>
           \<not> local_busy s
        then Some (pass_to_tx req_seq f s)
        else if with_unexpected_tx_seq tx_seq s \<and> with_valid_req_seq req_seq s \<and> with_valid_f_bit f s \<and>
           \<not> local_busy s
        then (if kSendSrej then Some s
              else Some ((send_rej P_NOT_SET F_NOT_SET (pass_to_tx req_seq f s))\<lparr>rx_state := REJ_SENT\<rparr>))
        else if with_expected_tx_seq tx_seq s \<and> with_valid_req_seq req_seq s \<and> with_valid_f_bit f s \<and>
           local_busy s
        then Some (pass_to_tx req_seq f s)
        else if with_valid_req_seq req_seq s \<and> not_with_expected_tx_seq tx_seq s \<and>
           with_valid_f_bit f s \<and> local_busy s
        then Some (pass_to_tx req_seq f s)
        else if (with_invalid_tx_seq tx_seq s \<and> uint (local_tx_window s) > uint kMaxTxWin div 2) \<or>
           with_invalid_req_seq req_seq s
        then Some (CloseChannel s)
        else Some s
    | REJ_SENT \<Rightarrow>
        if f = F_NOT_SET \<and> with_expected_tx_seq tx_seq s \<and> with_valid_req_seq req_seq s \<and>
           with_valid_f_bit f s
        then do {
          s \<leftarrow> data_indication sar sdu_size payload (pass_to_tx req_seq f (increment_expected_tx_seq s));
          Some ((send_ack F_NOT_SET s)\<lparr>rx_state := RECV\<rparr>) }
        else if f = POLL_RESPONSE \<and> with_expected_tx_seq tx_seq s \<and> with_valid_req_seq req_seq s \<and>
           with_valid_f_bit f s
        then do {
          s \<leftarrow> data_indication sar sdu_size payload (pass_to_tx req_seq f (increment_expected_tx_seq s));
          s \<leftarrow> (if \<not> rej_actioned s
               then map_option (send_pending_i_frames F_NOT_SET) (retransmit_i_frames req_seq P_NOT_SET s)
               else Some (s\<lparr>rej_actioned := False\<rparr>));
          Some ((send_ack F_NOT_SET s)\<lparr>rx_state := RECV\<rparr>) }
        else if with_unexpected_tx_seq tx_seq s \<and> with_valid_req_seq req_seq s \<and> with_valid_f_bit f s
        then Some (pass_to_tx req_seq f s)
        else Some s
    | SREJ_SENT \<Rightarrow> Some s)"

definition recv_rr :: "u8 \<Rightarrow> Poll \<Rightarrow> Final \<Rightarrow> ertm \<Rightarrow> ertm option" where
  "recv_rr req_seq p f s =
    (case rx_state s of
      RECV \<Rightarrow>
        if p = P_NOT_SET \<and> f = F_NOT_SET \<and> with_valid_req_seq req_seq s \<and> with_valid_f_bit f s
        then (let s = pass_to_tx req_seq f s;
                  s = (if remote_busy s \<and> unacked_frames s > 0 then start_retrans_timer s else s)
              in Some (send_pending_i_frames F_NOT_SET (s\<lparr>remote_busy := False\<rparr>)))
        else if f = POLL_RESPONSE \<and> with_valid_req_seq req_seq s \<and> with_valid_f_bit f s
        then do {
          s \<leftarrow> (let s = pass_to_tx req_seq f (s\<lparr>remote_busy := False\<rparr>) in
               if \<not> rej_actioned s then retransmit_i_frames req_seq p s
               else Some (s\<lparr>rej_actioned := False\<rparr>));
          Some (send_pending_i_frames F_NOT_SET s) }
        else if p = POLL \<and> with_valid_req_seq req_seq s \<and> with_valid_f_bit f s
        then Some (send_i_or_rr_or_rnr POLL_RESPONSE (pass_to_tx req_seq f s))
        else if with_invalid_req_seq req_seq s then Some (CloseChannel s)
        else Some s
    | REJ_SENT \<Rightarrow>
        if f = POLL_RESPONSE \<and> with_valid_req_seq req_seq s \<and> with_valid_f_bit f s
        then do {
          s \<leftarrow> (let s = pass_to_tx req_seq f (s\<lparr>remote_busy := False\<rparr>) in
               if \<not> rej_actioned s then retransmit_i_frames req_seq p s
               else Some (s\<lparr>rej_actioned := False\<rparr>));
          Some (send_pending_i_frames F_NOT_SET s) }
        else if p = P_NOT_SET \<and> f = F_NOT_SET \<and> with_valid_req_seq req_seq s \<and> with_valid_f_bit f s
        then (let s = pass_to_tx req_seq f s;
                  s = (if remote_busy s \<and> unacked_frames s > 0 then start_retrans_timer s else s)
              in Some (send_ack F_NOT_SET (s\<lparr>remote_busy := False\<rparr>)))
        else if p = POLL \<and> with_valid_req_seq req_seq s \<and> with_valid_f_bit f s
        then (let s = pass_to_tx req_seq f s;
                  s = (if remote_busy s \<and> unacked_frames s > 0 then start_retrans_timer s else s)
              in Some (send_rr_f POLL_RESPONSE (s\<lparr>remote_busy := False\<rparr>)))
        else if with_invalid_req_seq req_seq s then Some (CloseChannel s)
        else Some s
    | SREJ_SENT \<Rightarrow> Some s)"

text \<open>
  The RECV and REJ\_SENT branches of recv\_rej are the same code, as are those of recv\_srej.
\<close>

definition recv_rej :: "u8 \<Rightarrow> Poll \<Rightarrow> Final \<Rightarrow> ertm \<Rightarrow> ertm option" where
  "recv_rej req_seq p f s =
    (if rx_state s = RECV \<or> rx_state s = REJ_SENT then
        if f = F_NOT_SET \<and> with_valid_req_seq_retrans req_seq s \<and>
           retry_i_frames_less_than_max_transmit req_seq s \<and> with_valid_f_bit f s
        then do {
          s \<leftarrow> retransmit_i_frames req_seq p (pass_to_tx req_seq f (s\<lparr>remote_busy := False\<rparr>));
          let s = send_pending_i_frames F_NOT_SET s;
          Some (if p_bit_outstanding s then s\<lparr>rej_actioned := True\<rparr> else s) }
        else if f = POLL_RESPONSE \<and> with_valid_req_seq_retrans req_seq s \<and>
           retry_i_frames_less_than_max_transmit req_seq s \<and> with_valid_f_bit f s
        then do {
          s \<leftarrow> (let s = pass_to_tx req_seq f (s\<lparr>remote_busy := False\<rparr>) in
               if \<not> rej_actioned s then retransmit_i_frames req_seq p s
               else Some (s\<lparr>rej_actioned := False\<rparr>));
          Some (send_pending_i_frames F_NOT_SET s) }
        else if with_valid_req_seq_retrans req_seq s \<and> \<not> retry_i_frames_less_than_max_transmit req_seq s
        then Some (CloseChannel s)
        else if with_invalid_req_seq_retrans req_seq s then Some (CloseChannel s)
        else Some s
     else Some s)"

definition recv_rnr :: "u8 \<Rightarrow> Poll \<Rightarrow> Final \<Rightarrow> ertm \<Rightarrow> ertm" where
  "recv_rnr req_seq p f s =
    (case rx_state s of
      RECV \<Rightarrow>
        if p = P_NOT_SET \<and> with_valid_req_seq req_seq s \<and> with_valid_f_bit f s
        then stop_retrans_timer (pass_to_tx req_seq f (s\<lparr>remote_busy := True\<rparr>))
        else if p = POLL \<and> with_valid_req_seq req_seq s \<and> with_valid_f_bit f s
        then send_rr_or_rnr P_NOT_SET POLL_RESPONSE
               (stop_retrans_timer (pass_to_tx req_seq f (s\<lparr>remote_busy := True\<rparr>)))
        else if with_invalid_req_seq_retrans req_seq s then CloseChannel s
        else s
    | REJ_SENT \<Rightarrow>
        if p = P_NOT_SET \<and> with_valid_req_seq req_seq s \<and> with_valid_f_bit f s
        then send_rr_f POLL_RESPONSE (pass_to_tx req_seq f (s\<lparr>remote_busy := True\<rparr>))
        else if p = POLL \<and> with_valid_req_seq req_seq s \<and> with_valid_f_bit f s
        then send_rr_f F_NOT_SET (pass_to_tx req_seq f (s\<lparr>remote_busy := True\<rparr>))
        else if with_invalid_req_seq_retrans req_seq s then CloseChannel s
        else s
    | SREJ_SENT \<Rightarrow> s)"

definition recv_srej :: "u8 \<Rightarrow> Poll \<Rightarrow> Final \<Rightarrow> ertm \<Rightarrow> ertm" where
  "recv_srej req_seq p f s =
    (if rx_state s = RECV \<or> rx_state s = REJ_SENT then
        if p = P_NOT_SET \<and> f = F_NOT_SET \<and> with_valid_req_seq_retrans req_seq s \<and>
           retry_i_frames_less_than_max_transmit req_seq s \<and> with_valid_f_bit f s
        then (let s = retransmit_requested_i_frame req_seq p (pass_to_tx_f_bit f (s\<lparr>remote_busy := False\<rparr>))
              in if p_bit_outstanding s
                 then s\<lparr>srej_actioned := True, srej_save_req_seq := ucast req_seq\<rparr> else s)
        else if f = POLL_RESPONSE \<and> with_valid_req_seq_retrans req_seq s \<and>
           retry_i_frames_less_than_max_transmit req_seq s \<and> with_valid_f_bit f s
        then (let s = pass_to_tx_f_bit f (s\<lparr>remote_busy := False\<rparr>)
              in if srej_actioned s \<and> srej_save_req_seq s = ucast req_seq
                 then s\<lparr>srej_actioned := False\<rparr>
                 else retransmit_requested_i_frame req_seq p s)
        else if p = POLL \<and> with_valid_req_seq_retrans req_seq s \<and>
           retry_i_frames_less_than_max_transmit req_seq s \<and> with_valid_f_bit f s
        then (let s = pass_to_tx req_seq f (s\<lparr>remote_busy := False\<rparr>);
                  s = send_pending_i_frames F_NOT_SET (retransmit_requested_i_frame req_seq p s)
              in if p_bit_outstanding s
                 then s\<lparr>srej_actioned := True, srej_save_req_seq := ucast req_seq\<rparr> else s)
        else if with_valid_req_seq_retrans req_seq s \<and> \<not> retry_i_frames_less_than_max_transmit req_seq s
        then CloseChannel s
        else if with_invalid_req_seq_retrans req_seq s then CloseChannel s
        else s
     else s)"

subsection \<open>The controller's interface\<close>

text \<open>size\_each\_packet is an int passed as a size\_t.\<close>

definition size_each_packet :: "ertm \<Rightarrow> nat" where
  "size_each_packet s =
     nat ((uint (remote_mps s) - 4 - 2 - 2 - (if fcs_enabled s then 2 else 0)) mod 2 ^ 64)"

definition request_segments :: "u16 \<Rightarrow> bytes list \<Rightarrow> ertm \<Rightarrow> ertm option" where
  "request_segments sdu_size segments s =
     (case segments of
        [] \<Rightarrow> None
      | [segment] \<Rightarrow> Some (data_request UNSEGMENTED segment 0 s)
      | first # rest \<Rightarrow>
        let s = data_request START first sdu_size s;
            s = fold (\<lambda>segment. data_request CONTINUATION segment 0) (butlast rest) s
        in Some (data_request END (last rest) 0 s))"

definition ertm_OnSdu :: "bytes \<Rightarrow> ertm \<Rightarrow> ertm option" where
  "ertm_OnSdu sdu s = do {
     segments \<leftarrow> segments_of (size_each_packet s) sdu;
     request_segments (size_u16 (length sdu)) segments s }"

text \<open>
  The two parse functions stand for the generated frame views without and with a frame check
  sequence: every failed IsValid() is \<open>InvalidFrame\<close>.
\<close>

definition on_frame :: "frame_view \<Rightarrow> ertm \<Rightarrow> ertm option" where
  "on_frame v s =
    (case v of InvalidFrame \<Rightarrow> Some s
     | IFrameView f tx_seq req_seq sar sdu_length payload \<Rightarrow>
         if sar = START then recv_i_frame f tx_seq req_seq sar sdu_length payload s
         else recv_i_frame f tx_seq req_seq sar 0 payload s
     | SFrameView fn p f req_seq \<Rightarrow>
         (case fn of
            RECEIVER_READY \<Rightarrow> recv_rr req_seq p f s
          | RECEIVER_NOT_READY \<Rightarrow> Some (recv_rnr req_seq p f s)
          | REJECT \<Rightarrow> recv_rej req_seq p f s
          | SELECT_REJECT \<Rightarrow> Some (recv_srej req_seq p f s)))"

definition on_pdu_no_fcs :: "(packet_view \<Rightarrow> frame_view) \<Rightarrow> packet_view \<Rightarrow> ertm \<Rightarrow> ertm option" where
  "on_pdu_no_fcs parse pdu s = on_frame (parse pdu) s"

definition on_pdu_fcs :: "(packet_view \<Rightarrow> frame_view) \<Rightarrow> packet_view \<Rightarrow> ertm \<Rightarrow> ertm option" where
  "on_pdu_fcs parse_fcs pdu s = on_frame (parse_fcs pdu) s"

definition ertm_OnPdu :: "(packet_view \<Rightarrow> frame_view) \<Rightarrow> (packet_view \<Rightarrow> frame_view) \<Rightarrow>
    packet_view \<Rightarrow> ertm \<Rightarrow> ertm option" where
  "ertm_OnPdu parse parse_fcs pdu s =
     (if fcs_enabled s then on_pdu_fcs parse_fcs pdu s else on_pdu_no_fcs parse pdu s)"

definition ertm_GetNextPacket :: "ertm \<Rightarrow> (ertm_pdu \<times> ertm) option" where
  "ertm_GetNextPacket s =
     (case pdu_queue s of [] \<Rightarrow> None | pdu # rest \<Rightarrow> Some (pdu, s\<lparr>pdu_queue := rest\<rparr>))"

definition ertm_EnableFcs :: "bool \<Rightarrow> ertm \<Rightarrow> ertm" where
  "ertm_EnableFcs enabled s = s\<lparr>fcs_enabled := enabled\<rparr>"

definition ertm_SetRetransmissionAndFlowControlOptions ::
    "RetransmissionAndFlowControlConfigurationOption \<Rightarrow> ertm \<Rightarrow> ertm" where
  "ertm_SetRetransmissionAndFlowControlOptions opt s =
     s\<lparr>remote_tx_window := ucast (tx_window_size opt),
       local_max_transmit := ucast (max_transmit opt),
       local_retransmit_timeout_ms := retransmission_time_out opt,
       local_monitor_timeout_ms := monitor_time_out opt,
       remote_mps := maximum_pdu_size opt\<rparr>"

text \<open>The upper queue takes one SDU; emptying the buffer may run local\_busy\_clear.\<close>

definition ertm_upper_dequeue :: "ertm \<Rightarrow> (packet_view \<times> ertm) option" where
  "ertm_upper_dequeue s = do {
     (sdu, b, cleared) \<leftarrow> eb_enqueue_callback (enqueue_buffer s);
     let s = s\<lparr>enqueue_buffer := b\<rparr>;
     Some (sdu, if cleared then local_busy_clear s else s) }"

text \<open>An armed alarm fires once and then runs its closure.\<close>

definition retrans_timer_fires :: "ertm \<Rightarrow> ertm" where
  "retrans_timer_fires s = retrans_timer_expires (s\<lparr>retrans_timer := None\<rparr>)"

definition monitor_timer_fires :: "ertm \<Rightarrow> ertm" where
  "monitor_timer_fires s = monitor_timer_expires (s\<lparr>monitor_timer := None\<rparr>)"

end
