(* ===== verification/Ertm_Invariant.thy ===== *)
theory Ertm_Invariant
  imports Ertm
begin

text \<open>
  The invariant of the enhanced retransmission mode controller.  The relation \<open>tx_frame\<close> says what
  the transmitter's actions leave alone, and that they keep the transmitter's part of the
  invariant; it is reflexive and transitive, so an event's proof is the composition of its actions.
\<close>

definition is_ready :: "ctrl_effect \<Rightarrow> bool" where
  "is_ready e = (case e of OnPacketsReady _ _ \<Rightarrow> True | _ \<Rightarrow> False)"

text \<open>Packets announced to the scheduler and not yet in the PDU queue: constant.\<close>

definition announced :: "ctrl_effect list \<Rightarrow> int" where
  "announced es = sum_list (map (\<lambda>e. case e of OnPacketsReady _ n \<Rightarrow> n | _ \<Rightarrow> 0) es)"

definition ertm_balance :: "ertm \<Rightarrow> int" where
  "ertm_balance s = announced (ertm_effects s) - int (length (pdu_queue s))"

text \<open>A controller announces packets of its own channel only.\<close>

primrec ready_by :: "Cid \<Rightarrow> ctrl_effect \<Rightarrow> bool" where
  "ready_by cid (SendDisconnectionRequest c r) = True"
| "ready_by cid (SendLeCredit c k) = True"
| "ready_by cid (OnPacketsReady c n) \<longleftrightarrow> c = cid \<and> 0 \<le> n"

definition ertm_tx_inv :: "ertm \<Rightarrow> bool" where
  "ertm_tx_inv s \<longleftrightarrow>
     local_tx_window s = 10 \<and> next_tx_seq s < 64 \<and> expected_ack_seq s < 64 \<and>
     (\<forall>k. unacked_list s k \<noteq> None \<longrightarrow> k < 64) \<and>
     (unacked_frames s - (uint (next_tx_seq s) - uint (expected_ack_seq s))) mod 64 = 0 \<and>
     unacked_frames s \<le> uint (remote_tx_window s) \<and>
     list_all (ready_by (ertm_cid s)) (ertm_effects s)"

definition ertm_rx_inv :: "ertm \<Rightarrow> bool" where
  "ertm_rx_inv s \<longleftrightarrow> expected_tx_seq s < 64 \<and> buffer_seq s = expected_tx_seq s \<and>
     rx_state s \<noteq> SREJ_SENT \<and> eb_ok (enqueue_buffer s)"

definition ertm_inv :: "ertm \<Rightarrow> bool" where
  "ertm_inv s \<longleftrightarrow> ertm_tx_inv s \<and> ertm_rx_inv s"

text \<open>The part of the state that belongs to the receiver and to the configuration.\<close>

definition rx_part where
  "rx_part s = (expected_tx_seq s, buffer_seq s, rx_state s, local_busy s, enqueue_buffer s,
     sar_state s, reassembly_stage s, remaining_sdu_continuation_packet_size s)"

definition config_part where
  "config_part s = (ertm_cid s, ertm_remote_cid s, fcs_enabled s, local_tx_window s,
     local_max_transmit s, local_retransmit_timeout_ms s, local_monitor_timeout_ms s,
     remote_tx_window s, remote_mps s)"

definition tx_frame :: "ertm \<Rightarrow> ertm \<Rightarrow> bool" where
  "tx_frame s s' \<longleftrightarrow>
     (ertm_tx_inv s \<longrightarrow> ertm_tx_inv s') \<and> ertm_balance s' = ertm_balance s \<and>
     rx_part s' = rx_part s \<and> config_part s' = config_part s \<and>
     (\<exists>new. pdu_queue s' = pdu_queue s @ new)"

lemma tx_frame_refl [simp, intro]: "tx_frame s s"
  by (simp add: tx_frame_def)

lemma tx_frame_trans [trans]: "tx_frame s s' \<Longrightarrow> tx_frame s' s'' \<Longrightarrow> tx_frame s s''"
  by (auto simp: tx_frame_def)

lemma tx_frame_then: "tx_frame s s' \<Longrightarrow> tx_frame s' (f s') \<Longrightarrow> tx_frame s (f s')"
  by (rule tx_frame_trans)

lemmas tx_frame_defs = tx_frame_def ertm_tx_inv_def ertm_balance_def rx_part_def config_part_def

lemma announced_append [simp]: "announced (xs @ ys) = announced xs + announced ys"
  by (simp add: announced_def)

lemma announced_simps [simp]:
  "announced [] = 0" "announced [OnPacketsReady c n] = n"
  "announced [SendDisconnectionRequest c r] = 0" "announced [SendLeCredit c k] = 0"
  by (simp_all add: announced_def)

text \<open>Actions as steps: applied as conditional rewrite rules they compose along a nested term.\<close>

lemma tx_step: "tx_frame s' s'' \<Longrightarrow> tx_frame s s' \<Longrightarrow> tx_frame s s''"
  by (rule tx_frame_trans)

lemma tx_frame_flags:
  "tx_frame s (s\<lparr>remote_busy := a\<rparr>)" "tx_frame s (s\<lparr>rej_actioned := a\<rparr>)"
  "tx_frame s (s\<lparr>srej_actioned := a\<rparr>)" "tx_frame s (s\<lparr>srej_save_req_seq := r\<rparr>)"
  "tx_frame s (s\<lparr>retry_count := n\<rparr>)" "tx_frame s (s\<lparr>tx_state := t\<rparr>)" "tx_frame s (s\<lparr>rnr_sent := a\<rparr>)"
  "tx_frame s (s\<lparr>retrans_timer := z\<rparr>)" "tx_frame s (s\<lparr>monitor_timer := z\<rparr>)"
  "tx_frame s (s\<lparr>frames_sent := i\<rparr>)" "tx_frame s (s\<lparr>retry_i_frames := r'\<rparr>)"
  "tx_frame s (s\<lparr>pending_frames := ps\<rparr>)"
  by (simp_all add: tx_frame_defs)

lemmas [simp] = tx_frame_flags [THEN tx_step]

lemma tx_frame_send_pdu: "tx_frame s (send_pdu pdu s)"
  by (simp add: tx_frame_defs send_pdu_def)

lemma tx_frame_close: "tx_frame s (close_channel s)" "tx_frame s (CloseChannel s)"
  by (simp_all add: tx_frame_defs close_channel_def CloseChannel_def)

lemmas [simp] = tx_frame_send_pdu [THEN tx_step] tx_frame_close [THEN tx_step]

lemma tx_frame_timers:
  "tx_frame s (start_retrans_timer s)" "tx_frame s (start_monitor_timer s)"
  "tx_frame s (stop_retrans_timer s)" "tx_frame s (stop_monitor_timer s)"
  by (simp_all add: start_retrans_timer_def start_monitor_timer_def stop_retrans_timer_def
      stop_monitor_timer_def)

lemmas [simp] = tx_frame_timers [THEN tx_step]

lemma tx_frame_sends:
  "tx_frame s (send_i_frame sar seg r t n f s)" "tx_frame s (send_s_frame fn r p f s)"
  by (simp_all add: send_i_frame_def send_s_frame_def)

lemmas [simp] = tx_frame_sends [THEN tx_step]

lemma tx_frame_replies:
  "tx_frame s (send_rr_p p s)" "tx_frame s (send_rr_f f s)" "tx_frame s (send_rej p f s)"
  "tx_frame s (send_rr_or_rnr p f s)" "tx_frame s (send_rnr_f f s)"
  by (simp_all add: send_rr_p_def send_rr_f_def send_rej_def send_rr_or_rnr_def send_rnr_f_def)

lemmas [simp] = tx_frame_replies [THEN tx_step]

lemma mod_kMaxTxWin_less [simp]: "(x :: u8) mod kMaxTxWin < 64"
  by (simp add: kMaxTxWin_def word_mod_less_divisor)

lemma uint_less_64: "x < 64 \<longleftrightarrow> uint x < 64" for x :: u8
  by (simp add: word_less_def)

lemma uint_seq_inc: "x < 64 \<Longrightarrow> uint ((x + 1) mod kMaxTxWin) = (uint x + 1) mod 64" for x :: u8
proof -
  assume "x < 64"
  then have "uint x < 64" by (simp add: uint_less_64)
  then have "uint (x + 1) = uint x + 1" by (simp add: uint_word_ariths)
  then show ?thesis by (simp add: kMaxTxWin_def uint_mod)
qed

lemma window_inc: "(u + 1 - ((n + 1) mod 64 - a)) mod 64 = (u - (n - a)) mod (64 :: int)"
proof -
  have "u + 1 - ((n + 1) mod 64 - a) = u + 1 + a - (n + 1) mod 64" by simp
  also have "\<dots> mod 64 = (u + 1 + a - (n + 1)) mod 64" by (simp only: mod_diff_right_eq)
  also have "u + 1 + a - (n + 1) = u - (n - a)" by simp
  finally show ?thesis .
qed

lemma window_ack: "(u - ((r - a) + 64) mod 64 - (n - r)) mod 64 = (u - (n - a)) mod (64 :: int)"
proof -
  have "u - ((r - a) + 64) mod 64 - (n - r) = u - n + r - ((r - a) + 64) mod 64" by simp
  also have "\<dots> mod 64 = (u - n + r - ((r - a) + 64)) mod 64" by (simp only: mod_diff_right_eq)
  also have "u - n + r - ((r - a) + 64) = (u - (n - a)) + 64 * (- 1)" by simp
  also have "\<dots> mod 64 = (u - (n - a)) mod 64" by (rule mod_mult_self2)
  finally show ?thesis .
qed

lemma tx_inv_send_data:
  "ertm_tx_inv s \<Longrightarrow> rem_window_not_full s \<Longrightarrow> ertm_tx_inv (send_data sar n seg f s)"
  by (auto simp: ertm_tx_inv_def send_data_def Let_def send_i_frame_def send_pdu_def
      start_retrans_timer_def uint_seq_inc rem_window_not_full_def map_emplace_def window_inc)

lemma tx_frame_send_data: "rem_window_not_full s \<Longrightarrow> tx_frame s (send_data sar n seg f s)"
  using tx_inv_send_data
  by (simp add: tx_frame_def ertm_balance_def rx_part_def config_part_def send_data_def Let_def
        send_i_frame_def send_pdu_def start_retrans_timer_def)

lemma tx_frame_pending_loop: "tx_frame s (send_pending_loop f ps s)"
proof (induction f ps s rule: send_pending_loop.induct)
  case (2 f sar n seg rest s)
  then show ?case
    using tx_frame_trans [OF tx_frame_trans [OF tx_frame_send_data tx_frame_flags(12)]]
    by (cases "rem_window_not_full s") auto
qed simp

lemma tx_frame_pending: "tx_frame s (send_pending_i_frames f s)"
  by (simp add: send_pending_i_frames_def tx_frame_pending_loop)

lemmas [simp] = tx_frame_pending [THEN tx_step]

lemma tx_frame_acks: "tx_frame s (send_i_or_rr_or_rnr f s)" "tx_frame s (send_ack f s)"
  by (simp_all add: send_i_or_rr_or_rnr_def send_ack_def Let_def)

lemmas [simp] = tx_frame_acks [THEN tx_step]

text \<open>The loop of process\_req\_seq.\<close>

definition ack_one :: "u8 \<Rightarrow> ertm \<Rightarrow> ertm" where
  "ack_one i s = s\<lparr>unacked_list := (unacked_list s)(i := None),
                   retry_i_frames := (retry_i_frames s)(i := 0)\<rparr>"

lemma fold_ack_one:
  "fold ack_one is s = s\<lparr>unacked_list := (\<lambda>k. if k \<in> set is then None else unacked_list s k),
                         retry_i_frames := (\<lambda>k. if k \<in> set is then 0 else retry_i_frames s k)\<rparr>"
  by (induction "is" arbitrary: s) (auto simp: ack_one_def fun_eq_iff intro!: ertm.equality)

lemma process_req_seq_eq:
  "process_req_seq r s =
    (let acked = set (acked_range (expected_ack_seq s) r);
         n = unacked_frames s - ((uint r - uint (expected_ack_seq s)) + 64) mod 64
     in s\<lparr>unacked_list := (\<lambda>k. if k \<in> acked then None else unacked_list s k),
          retry_i_frames := (\<lambda>k. if k \<in> acked then 0 else retry_i_frames s k),
          unacked_frames := n, expected_ack_seq := r,
          retrans_timer := (if n = 0 then None else retrans_timer s)\<rparr>)"
  unfolding process_req_seq_def
  using fold_ack_one [of "acked_range (expected_ack_seq s) r" s, unfolded ack_one_def]
  by (simp add: Let_def kMaxTxWin_def stop_retrans_timer_def)

lemma window_ack': "(u - (r - a) mod 64 - (n - r)) mod 64 = (u - (n - a)) mod (64 :: int)"
  using window_ack [of u r a n] by simp

lemma tx_frame_process: "r < 64 \<Longrightarrow> tx_frame s (process_req_seq r s)"
proof -
  assume "r < 64"
  have "((uint r - uint (expected_ack_seq s)) + 64) mod 64 \<ge> 0" by simp
  with \<open>r < 64\<close> show ?thesis
    by (auto simp: tx_frame_defs process_req_seq_eq Let_def window_ack' dest: dvd_imp_mod_0)
qed

lemmas tx_process [simp] = tx_frame_process [THEN tx_step]

lemma tx_frame_pass: "r < 64 \<Longrightarrow> tx_frame s (pass_to_tx r f s)" "tx_frame s (pass_to_tx_f_bit f s)"
  by (simp_all add: pass_to_tx_def pass_to_tx_f_bit_def recv_req_seq_and_f_bit_def recv_f_bit_def Let_def)

lemmas [simp] = tx_frame_pass(1) [THEN tx_step] tx_frame_pass(2) [THEN tx_step]

lemma tx_frame_timer_events:
  "tx_frame s (retrans_timer_expires s)" "tx_frame s (monitor_timer_expires s)"
  by (simp_all add: retrans_timer_expires_def monitor_timer_expires_def Let_def)

lemmas [simp] = tx_frame_timer_events [THEN tx_step]

lemma tx_frame_data_request: "tx_frame s (data_request sar pdu n s)"
  by (simp add: data_request_def tx_frame_send_data pend_data_def)

lemmas [simp] = tx_frame_data_request [THEN tx_step]

lemma tx_frame_retransmit_requested: "tx_frame s (retransmit_requested_i_frame r p s)"
  by (auto simp: retransmit_requested_i_frame_def Let_def split: option.split)

lemmas [simp] = tx_frame_retransmit_requested [THEN tx_step]

lemma tx_frame_retransmit_one: "tx_frame s (retransmit_one i frame f s)"
  by (simp add: retransmit_one_def Let_def)

lemma tx_frame_retransmit_loop:
  assumes "retransmit_loop i f s = Some r" shows "tx_frame s (snd r)"
proof (rule retransmit_loop.raw_induct [of "\<lambda>i f s r. tx_frame s (snd r)", OF _ assms])
  fix loop :: "u8 \<Rightarrow> Final \<Rightarrow> ertm \<Rightarrow> (u8 option \<times> ertm) option" and i f s r
  assume IH: "\<And>i f s r. loop i f s = Some r \<Longrightarrow> tx_frame s (snd r)"
  assume "(case unacked_list s i of None \<Rightarrow> Some (Some i, s)
      | Some frame \<Rightarrow>
        if retry_i_frames s i = uint (local_max_transmit s) then Some (None, CloseChannel s)
        else loop (i + 1) F_NOT_SET (retransmit_one i frame f s)) = Some r"
  then show "tx_frame s (snd r)"
    by (auto split: option.split_asm if_split_asm
        intro: tx_frame_trans [OF tx_frame_retransmit_one IH])
qed

lemma tx_frame_retransmit: "retransmit_i_frames r p s = Some s' \<Longrightarrow> tx_frame s s'"
  by (auto simp: retransmit_i_frames_def bind_eq_Some_conv split: option.split_asm
      dest!: tx_frame_retransmit_loop)

text \<open>Received supervisory frames keep everything the transmitter's actions keep.\<close>

lemma tx_frame_if [simp]: "tx_frame s x \<Longrightarrow> tx_frame s y \<Longrightarrow> tx_frame s (if b then x else y)"
  by simp

abbreviation tx_frame_option :: "ertm \<Rightarrow> ertm option \<Rightarrow> bool" where
  "tx_frame_option s \<equiv> pred_option (tx_frame s)"

lemma tx_option_if [simp]:
  "tx_frame_option s x \<Longrightarrow> tx_frame_option s y \<Longrightarrow> tx_frame_option s (if b then x else y)"
  by simp

lemma tx_option_bind [simp]:
  "tx_frame_option s x \<Longrightarrow> (\<And>s'. tx_frame s s' \<Longrightarrow> tx_frame_option s (g s')) \<Longrightarrow>
   tx_frame_option s (Option.bind x g)"
  by (cases x) auto

lemma tx_option_map [simp]:
  "tx_frame_option s x \<Longrightarrow> (\<And>s'. tx_frame s s' \<Longrightarrow> tx_frame s (g s')) \<Longrightarrow>
   tx_frame_option s (map_option g x)"
  by (cases x) auto

lemma tx_option_retransmit [simp]: "tx_frame s0 s \<Longrightarrow> tx_frame_option s0 (retransmit_i_frames r p s)"
  using tx_frame_retransmit tx_frame_trans by (cases "retransmit_i_frames r p s") auto

lemma tx_frame_recv_rr: "r < 64 \<Longrightarrow> tx_frame_option s (recv_rr r p f s)"
  by (cases "rx_state s") (simp_all add: recv_rr_def Let_def del: split_paired_all if_split)

lemma tx_frame_recv_rej: "r < 64 \<Longrightarrow> tx_frame_option s (recv_rej r p f s)"
  by (simp add: recv_rej_def Let_def del: if_split)

lemma tx_frame_recv_rnr: "r < 64 \<Longrightarrow> tx_frame s (recv_rnr r p f s)"
  by (cases "rx_state s") (simp_all add: recv_rnr_def Let_def del: if_split)

lemma tx_frame_recv_srej: "r < 64 \<Longrightarrow> tx_frame s (recv_srej r p f s)"
  by (simp add: recv_srej_def Let_def del: if_split)

text \<open>Termination of the retransmission loop: some key is free, and the index reaches it.\<close>

lemma retransmit_loop_unacked:
  "unacked_list (retransmit_one i frame f s) = unacked_list s"
  by (simp add: retransmit_one_def send_i_frame_def send_pdu_def Let_def)

lemma retransmit_loop_total:
  "unacked_list s (i + of_nat n) = None \<Longrightarrow> \<exists>r. retransmit_loop i f s = Some r"
proof (induction n arbitrary: i f s)
  case (Suc n)
  then have "unacked_list s (i + 1 + of_nat n) = None" by (simp add: add_ac)
  then have "\<exists>r. retransmit_loop (i + 1) F_NOT_SET (retransmit_one i frame f s) = Some r" for frame
    by (intro Suc.IH) (simp add: retransmit_loop_unacked)
  then show ?case
    by (subst retransmit_loop.simps) (simp split: option.split)
qed (subst retransmit_loop.simps, simp)

lemma retransmit_total:
  assumes "ertm_tx_inv s" shows "\<exists>s'. retransmit_i_frames r p s = Some s'"
proof -
  have "unacked_list s 64 \<noteq> None \<longrightarrow> (64 :: u8) < 64"
    using assms unfolding ertm_tx_inv_def by blast
  then have "unacked_list s 64 = None" by (cases "unacked_list s 64") simp_all
  then have "unacked_list s (r + of_nat (unat (64 - r))) = None" by simp
  from retransmit_loop_total [OF this, of "if p = P_NOT_SET then F_NOT_SET else POLL_RESPONSE"]
  obtain i s' where "retransmit_loop r (if p = P_NOT_SET then F_NOT_SET else POLL_RESPONSE) s = Some (i, s')"
    by auto
  then show ?thesis
    by (cases i) (simp_all add: retransmit_i_frames_def)
qed


subsection \<open>The receiver\<close>

text \<open>Reassembly touches the reassembly buffer, the queue of delivered SDUs and the busy flag.\<close>

definition tx_part where
  "tx_part s = (next_tx_seq s, expected_ack_seq s, unacked_list s, unacked_frames s,
     pending_frames s, tx_state s, rx_state s, remote_busy s, rej_actioned s, retry_i_frames s,
     retry_count s, pdu_queue s, expected_tx_seq s, buffer_seq s, retrans_timer s, monitor_timer s,
     config_part s, announced (ertm_effects s), list_all (ready_by (ertm_cid s)) (ertm_effects s))"

definition rx_frame :: "ertm \<Rightarrow> ertm \<Rightarrow> bool" where
  "rx_frame s s' \<longleftrightarrow> tx_part s' = tx_part s \<and>
     (eb_ok (enqueue_buffer s) \<longrightarrow> eb_ok (enqueue_buffer s')) \<and>
     (\<exists>new. eb_buffer (enqueue_buffer s') = eb_buffer (enqueue_buffer s) @ new)"

lemmas rx_frame_defs = rx_frame_def tx_part_def config_part_def

lemma rx_frame_close: "rx_frame s (close_channel s)"
  by (simp add: rx_frame_defs close_channel_def)

lemma rx_frame_deliver: "deliver_sdu sdu s = Some s' \<Longrightarrow> rx_frame s s'"
  by (auto simp: deliver_sdu_def Let_def eb_NotifyOnEmpty_def local_busy_detected_def rx_frame_defs
      eb_Enqueue_def eb_ok_def split: if_split_asm)

lemma rx_frame_trans: "rx_frame s s' \<Longrightarrow> rx_frame s' s'' \<Longrightarrow> rx_frame s s''"
  by (auto simp: rx_frame_def)

lemma rx_frame_updates:
  "rx_frame s (s\<lparr>sar_state := x, reassembly_stage := b, remaining_sdu_continuation_packet_size := a\<rparr>)"
  "rx_frame s (s\<lparr>sar_state := x, remaining_sdu_continuation_packet_size := a, reassembly_stage := b\<rparr>)"
  "rx_frame s (s\<lparr>reassembly_stage := b, remaining_sdu_continuation_packet_size := a\<rparr>)"
  by (simp_all add: rx_frame_defs)

lemma rx_frame_stage: "stage_for_reassembly sar n p s = Some s' \<Longrightarrow> rx_frame s s'"
proof (induction sar n p s rule: stage_for_reassembly.induct)
  case (4 n p s)
  then show ?case
    by (auto simp: Let_def bind_eq_Some_conv rx_frame_close split: if_split_asm
        intro: rx_frame_trans [OF rx_frame_updates(1) rx_frame_close]
          rx_frame_trans [OF rx_frame_updates(2) rx_frame_deliver])
qed (auto simp: rx_frame_close bind_eq_Some_conv rx_frame_updates dest: rx_frame_deliver
      split: if_split_asm)

lemma rx_frame_tx_inv: "rx_frame s s' \<Longrightarrow> ertm_tx_inv s' \<longleftrightarrow> ertm_tx_inv s"
  by (auto simp: rx_frame_defs ertm_tx_inv_def)

lemma rx_frame_balance: "rx_frame s s' \<Longrightarrow> ertm_balance s' = ertm_balance s"
  by (simp add: rx_frame_defs ertm_balance_def)


lemma data_indication_frame:
  assumes "data_indication sar n p s = Some s'"
  obtains t where "stage_for_reassembly sar n p s = Some t" "rx_frame s t"
    "s' = t\<lparr>buffer_seq := (buffer_seq t + 1) mod kMaxTxWin\<rparr>"
  using assms rx_frame_stage by (auto simp: data_indication_def bind_eq_Some_conv)

text \<open>
  One accepted I-frame: the expected sequence number moves, the acknowledgement is passed to the
  transmitter, the payload is staged, and the two counters agree again.
\<close>

lemma accept_inv:
  assumes inv: "ertm_inv s" and r: "r < 64"
    and d: "data_indication sar n p (pass_to_tx r f (increment_expected_tx_seq s)) = Some s'"
  shows "ertm_inv s' \<and> ertm_balance s' = ertm_balance s \<and> config_part s' = config_part s"
proof -
  let ?s1 = "increment_expected_tx_seq s"
  let ?s2 = "pass_to_tx r f ?s1"
  have 1: "tx_frame ?s1 ?s2" using r by simp
  have 2: "ertm_tx_inv ?s1" "ertm_balance ?s1 = ertm_balance s" "config_part ?s1 = config_part s"
    "buffer_seq ?s1 = buffer_seq s" "expected_tx_seq ?s1 = (expected_tx_seq s + 1) mod kMaxTxWin"
    "rx_state ?s1 = rx_state s" "eb_ok (enqueue_buffer ?s1)"
    using inv by (auto simp: ertm_inv_def increment_expected_tx_seq_def ertm_tx_inv_def
        ertm_rx_inv_def ertm_balance_def config_part_def)
  from d obtain t where t: "rx_frame ?s2 t" "s' = t\<lparr>buffer_seq := (buffer_seq t + 1) mod kMaxTxWin\<rparr>"
    by (rule data_indication_frame)
  have "ertm_tx_inv ?s2" using 1 2 by (simp add: tx_frame_def)
  then have "ertm_tx_inv t" using t rx_frame_tx_inv by blast
  then have "ertm_tx_inv s'" by (simp add: t(2) ertm_tx_inv_def)
  moreover have "ertm_rx_inv s'"
    using 1 2 t inv by (auto simp: tx_frame_def rx_part_def rx_frame_defs ertm_rx_inv_def ertm_inv_def)
  moreover have "ertm_balance s' = ertm_balance s" "config_part s' = config_part s"
    using 1 2 t by (auto simp: tx_frame_def rx_frame_defs ertm_balance_def)
  ultimately show ?thesis by (simp add: ertm_inv_def)
qed

definition keeps_inv :: "ertm \<Rightarrow> ertm \<Rightarrow> bool" where
  "keeps_inv s s' \<longleftrightarrow>
     (ertm_inv s \<longrightarrow> ertm_inv s' \<and> ertm_balance s' = ertm_balance s \<and> config_part s' = config_part s)"

lemma tx_frame_keeps_inv: "tx_frame s s' \<Longrightarrow> keeps_inv s s'"
  by (auto simp: keeps_inv_def tx_frame_def ertm_inv_def rx_part_def ertm_rx_inv_def)

lemma keeps_inv_trans: "keeps_inv s s' \<Longrightarrow> keeps_inv s' s'' \<Longrightarrow> keeps_inv s s''"
  by (auto simp: keeps_inv_def)

lemma rx_state_update:
  "ertm_tx_inv (s\<lparr>rx_state := t\<rparr>) \<longleftrightarrow> ertm_tx_inv s" "ertm_balance (s\<lparr>rx_state := t\<rparr>) = ertm_balance s"
  "config_part (s\<lparr>rx_state := t\<rparr>) = config_part s"
  "t \<noteq> SREJ_SENT \<Longrightarrow> ertm_rx_inv s \<Longrightarrow> ertm_rx_inv (s\<lparr>rx_state := t\<rparr>)"
  by (simp_all add: ertm_tx_inv_def ertm_rx_inv_def ertm_balance_def config_part_def)

lemma keeps_inv_rx_state: "t \<noteq> SREJ_SENT \<Longrightarrow> keeps_inv s s' \<Longrightarrow> keeps_inv s (s'\<lparr>rx_state := t\<rparr>)"
  by (simp add: keeps_inv_def ertm_inv_def rx_state_update)

lemma keeps_inv_accept:
  "r < 64 \<Longrightarrow> data_indication sar n p (pass_to_tx r f (increment_expected_tx_seq s)) = Some s' \<Longrightarrow>
   keeps_inv s s'"
  using accept_inv by (auto simp: keeps_inv_def)

lemma keeps_inv_tx: "tx_frame s' s'' \<Longrightarrow> keeps_inv s s' \<Longrightarrow> keeps_inv s s''"
  using keeps_inv_trans tx_frame_keeps_inv by blast

lemma keeps_inv_refl [simp]: "keeps_inv s s"
  by (simp add: keeps_inv_def)

abbreviation keeps_inv_option :: "ertm \<Rightarrow> ertm option \<Rightarrow> bool" where
  "keeps_inv_option s \<equiv> pred_option (keeps_inv s)"

lemma keeps_option_bind:
  "keeps_inv_option s x \<Longrightarrow> (\<And>s'. keeps_inv s s' \<Longrightarrow> keeps_inv_option s (g s')) \<Longrightarrow>
   keeps_inv_option s (Option.bind x g)"
  by (cases x) auto

lemma keeps_option_map:
  "keeps_inv_option s x \<Longrightarrow> (\<And>s'. keeps_inv s s' \<Longrightarrow> keeps_inv s (g s')) \<Longrightarrow>
   keeps_inv_option s (map_option g x)"
  by (cases x) auto

lemma keeps_option_if:
  "keeps_inv_option s x \<Longrightarrow> keeps_inv_option s y \<Longrightarrow> keeps_inv_option s (if b then x else y)"
  by simp

lemma keeps_option_accept:
  "r < 64 \<Longrightarrow>
   keeps_inv_option s (data_indication sar n p (pass_to_tx r f (increment_expected_tx_seq s)))"
  using keeps_inv_accept
  by (cases "data_indication sar n p (pass_to_tx r f (increment_expected_tx_seq s))") auto

lemma keeps_option_retransmit:
  "keeps_inv s s' \<Longrightarrow> keeps_inv_option s (retransmit_i_frames r p s')"
  using keeps_inv_tx [OF tx_frame_retransmit] by (cases "retransmit_i_frames r p s'") auto

lemmas [l2cap_inv] = tx_frame_acks(2) [THEN keeps_inv_tx] tx_frame_flags(2) [THEN keeps_inv_tx]
  tx_frame_pending [THEN keeps_inv_tx] tx_frame_close(2) [THEN keeps_inv_tx]
  tx_frame_pass(1) [THEN keeps_inv_tx] tx_frame_replies(3) [THEN keeps_inv_tx]

lemmas [l2cap_inv] = keeps_option_bind keeps_option_map keeps_option_if keeps_option_accept
  keeps_option_retransmit keeps_inv_rx_state

lemma recv_i_frame_keeps_inv: "r < 64 \<Longrightarrow> keeps_inv_option s (recv_i_frame f t r sar n p s)"
  by (cases "rx_state s")
    (simp_all add: recv_i_frame_def kSendSrej_def l2cap_inv del: if_split)


subsection \<open>Events and reachable states\<close>

text \<open>The sequence number fields of a frame have six bits, its payload is a part of the packet.\<close>

fun wf_view :: "frame_view \<Rightarrow> bool" where
  "wf_view InvalidFrame = True"
| "wf_view (IFrameView f tx_seq req_seq sar n p) \<longleftrightarrow> tx_seq < 64 \<and> req_seq < 64 \<and> pv_ok p"
| "wf_view (SFrameView fn p f req_seq) \<longleftrightarrow> req_seq < 64"

lemma tx_option_keeps: "tx_frame_option s x \<Longrightarrow> keeps_inv_option s x"
  using tx_frame_keeps_inv by (cases x) auto

lemma on_frame_keeps_inv: "wf_view v \<Longrightarrow> keeps_inv_option s (on_frame v s)"
proof (cases v)
  case (SFrameView fn p f r)
  assume "wf_view v"
  then show ?thesis
    using SFrameView tx_option_keeps [OF tx_frame_recv_rr] tx_option_keeps [OF tx_frame_recv_rej]
      tx_frame_keeps_inv [OF tx_frame_recv_rnr] tx_frame_keeps_inv [OF tx_frame_recv_srej]
    by (cases fn) (auto simp: on_frame_def)
qed (auto simp: on_frame_def recv_i_frame_keeps_inv)

lemma fold_tx_frame: "(\<And>x s. tx_frame s (g x s)) \<Longrightarrow> tx_frame s (fold g xs s)"
  by (induction xs arbitrary: s) (auto intro: tx_frame_trans)

lemma request_segments_frame: "tx_frame_option s (request_segments n segs s)"
  by (auto simp: request_segments_def Let_def fold_tx_frame [THEN tx_step] fold_tx_frame
      split: list.split)

lemma OnSdu_frame: "tx_frame_option s (ertm_OnSdu sdu s)"
  using request_segments_frame by (cases "segments_of (size_each_packet s) sdu") (auto simp: ertm_OnSdu_def)

lemma tx_frame_local_busy_clear_parts:
  "tx_frame (s\<lparr>local_busy := False\<rparr>) (local_busy_clear s) \<or> local_busy_clear s = s"
  by (simp add: local_busy_clear_def Let_def)

lemma local_busy_inv: "keeps_inv s (s\<lparr>local_busy := b\<rparr>)"
  by (simp add: keeps_inv_def ertm_inv_def ertm_tx_inv_def ertm_rx_inv_def ertm_balance_def
      config_part_def)

lemma local_busy_clear_keeps: "keeps_inv s (local_busy_clear s)"
  using tx_frame_local_busy_clear_parts [of s] keeps_inv_tx [OF _ local_busy_inv] by fastforce

lemma upper_dequeue_keeps: "ertm_upper_dequeue s = Some (sdu, s') \<Longrightarrow> keeps_inv s s'"
proof -
  assume "ertm_upper_dequeue s = Some (sdu, s')"
  then obtain b c where b: "eb_enqueue_callback (enqueue_buffer s) = Some (sdu, b, c)"
    and s': "s' = (if c then local_busy_clear (s\<lparr>enqueue_buffer := b\<rparr>) else s\<lparr>enqueue_buffer := b\<rparr>)"
    by (auto simp: ertm_upper_dequeue_def Let_def bind_eq_Some_conv)
  have "keeps_inv s (s\<lparr>enqueue_buffer := b\<rparr>)"
    using eb_ok_callback [OF _ b]
    by (auto simp: keeps_inv_def ertm_inv_def ertm_tx_inv_def ertm_rx_inv_def ertm_balance_def
        config_part_def)
  then show ?thesis
    using s' local_busy_clear_keeps keeps_inv_trans by (metis (full_types))
qed

text \<open>
  The controller configured with the negotiated options, and every sequence of events from
  there: SDUs from above, PDUs from below, alarms that are armed, SDUs taken by the upper queue,
  PDUs taken by the scheduler (counted by the first argument).
\<close>

definition ertm_configured :: "Cid \<Rightarrow> Cid \<Rightarrow> bool \<Rightarrow> RetransmissionAndFlowControlConfigurationOption \<Rightarrow> ertm" where
  "ertm_configured cid rcid fcs opt =
     ertm_EnableFcs fcs (ertm_SetRetransmissionAndFlowControlOptions opt (ErtmController cid rcid))"

inductive ertm_reach :: "ertm \<Rightarrow> nat \<Rightarrow> ertm \<Rightarrow> bool" for s0 where
  reach_init: "ertm_reach s0 0 s0"
| reach_sdu: "ertm_reach s0 n s \<Longrightarrow> ertm_OnSdu sdu s = Some s' \<Longrightarrow> ertm_reach s0 n s'"
| reach_pdu: "ertm_reach s0 n s \<Longrightarrow> wf_view v \<Longrightarrow> on_frame v s = Some s' \<Longrightarrow> ertm_reach s0 n s'"
| reach_retrans: "ertm_reach s0 n s \<Longrightarrow> retrans_timer s \<noteq> None \<Longrightarrow> ertm_reach s0 n (retrans_timer_fires s)"
| reach_monitor: "ertm_reach s0 n s \<Longrightarrow> monitor_timer s \<noteq> None \<Longrightarrow> ertm_reach s0 n (monitor_timer_fires s)"
| reach_upper: "ertm_reach s0 n s \<Longrightarrow> ertm_upper_dequeue s = Some (sdu, s') \<Longrightarrow> ertm_reach s0 n s'"
| reach_get: "ertm_reach s0 n s \<Longrightarrow> ertm_GetNextPacket s = Some (pdu, s') \<Longrightarrow> ertm_reach s0 (Suc n) s'"

lemma ertm_init_inv:
  "ertm_inv (ertm_configured cid rcid fcs opt)" "ertm_balance (ertm_configured cid rcid fcs opt) = 0"
  by (simp_all add: ertm_configured_def ertm_EnableFcs_def ertm_SetRetransmissionAndFlowControlOptions_def
      ErtmController_def ertm_inv_def ertm_tx_inv_def ertm_rx_inv_def ertm_balance_def)

lemma timer_fires_frame: "tx_frame s (retrans_timer_fires s)" "tx_frame s (monitor_timer_fires s)"
  by (simp_all add: retrans_timer_fires_def monitor_timer_fires_def)

lemma get_next_inv:
  "ertm_GetNextPacket s = Some (pdu, s') \<Longrightarrow> ertm_inv s \<Longrightarrow>
   ertm_inv s' \<and> ertm_balance s' = ertm_balance s + 1 \<and> config_part s' = config_part s"
  by (auto simp: ertm_GetNextPacket_def ertm_inv_def ertm_tx_inv_def ertm_rx_inv_def ertm_balance_def
      config_part_def split: list.split_asm)

lemma ertm_reach_inv:
  assumes "ertm_reach s0 n s" "ertm_inv s0"
  shows "ertm_inv s \<and> ertm_balance s = ertm_balance s0 + int n \<and> config_part s = config_part s0"
  using assms
proof induction
  case (reach_sdu n s sdu s')
  then show ?case using tx_option_keeps [OF OnSdu_frame [of s sdu]] by (simp add: keeps_inv_def)
next
  case (reach_pdu n s v s')
  then show ?case using on_frame_keeps_inv [of v s] by (simp add: keeps_inv_def)
next
  case (reach_upper n s sdu s')
  then show ?case using upper_dequeue_keeps by (simp add: keeps_inv_def)
next
  case (reach_get n s pdu s')
  then show ?case using get_next_inv by simp
qed (use timer_fires_frame [THEN tx_frame_keeps_inv] in \<open>simp_all add: keeps_inv_def\<close>)

end
