(* ===== verification/Ertm_Props.thy ===== *)
theory Ertm_Props
  imports Ertm_Invariant "HOL-Library.Sublist"
begin

text \<open>
  What the enhanced retransmission mode controller promises: the order in which a receiver takes
  frames, segmentation against reassembly, the sender's numbering, acknowledgements, polling,
  and the cases in which the promise breaks.
\<close>

subsection \<open>Sequence number arithmetic\<close>

definition seq_add :: "u8 \<Rightarrow> nat \<Rightarrow> u8" where
  "seq_add e i = word_of_nat ((unat e + i) mod 64)"

lemma unat_seq_add: "unat (seq_add e i) = (unat e + i) mod 64"
  by (simp add: seq_add_def unsigned_of_nat take_bit_eq_mod)

lemma unat_less_64: "x < 64 \<longleftrightarrow> unat x < 64" for x :: u8
  by (simp add: word_less_nat_alt)

lemma seq_add_less [simp]: "seq_add e i < 64"
  by (simp add: unat_less_64 unat_seq_add)

lemma seq_add_0: "e < 64 \<Longrightarrow> seq_add e 0 = e"
  by (simp add: seq_add_def unat_less_64)

lemma seq_inc_unat: "e < 64 \<Longrightarrow> unat ((e + 1) mod kMaxTxWin) = (unat e + 1) mod 64"
  for e :: u8
  by (simp add: kMaxTxWin_def unat_mod unat_less_64 unat_plus_simple [THEN iffD1] no_olen_add_nat)

lemma seq_inc: "e < 64 \<Longrightarrow> (e + 1) mod kMaxTxWin = seq_add e 1" for e :: u8
  by (simp add: word_unat_eq_iff seq_inc_unat unat_seq_add)

lemma seq_add_add: "seq_add (seq_add e i) j = seq_add e (i + j)"
  by (simp add: seq_add_def unat_seq_add [unfolded seq_add_def] mod_add_left_eq add.assoc)

lemma seq_add_inj: "e < 64 \<Longrightarrow> seq_add e i = seq_add e j \<Longrightarrow> i < 64 \<Longrightarrow> j < 64 \<Longrightarrow> i = j"
proof -
  assume "seq_add e i = seq_add e j" "i < 64" "j < 64"
  then have "(unat e + i) mod 64 = (unat e + j) mod 64" by (metis unat_seq_add)
  then have "i mod 64 = j mod 64" by (simp add: nat_mod_eq_iff)
  with \<open>i < 64\<close> \<open>j < 64\<close> show "i = j" by simp
qed


subsection \<open>The receiver takes frames in sequence\<close>

text \<open>The delivered SDUs and the SDU under reassembly.\<close>

definition rx_data where
  "rx_data s = (enqueue_buffer s, sar_state s, reassembly_stage s,
                remaining_sdu_continuation_packet_size s)"

lemma tx_frame_rx_data: "tx_frame s s' \<Longrightarrow> rx_data s' = rx_data s \<and> expected_tx_seq s' = expected_tx_seq s"
  by (simp add: tx_frame_def rx_part_def rx_data_def)

lemma deliver_rx_data:
  "rx_data s = rx_data t \<Longrightarrow> map_option rx_data (deliver_sdu p s) = map_option rx_data (deliver_sdu p t)"
  by (auto simp: deliver_sdu_def Let_def rx_data_def local_busy_detected_def eb_NotifyOnEmpty_def
      ASSERT_bind)

lemma close_rx_data [simp]: "rx_data (close_channel s) = rx_data s"
  by (simp add: rx_data_def close_channel_def)

lemma rx_data_update [simp]:
  "rx_data (s\<lparr>buffer_seq := b\<rparr>) = rx_data s" "rx_data (s\<lparr>rx_state := t\<rparr>) = rx_data s"
  "rx_data (s\<lparr>expected_tx_seq := b\<rparr>) = rx_data s"
  by (simp_all add: rx_data_def)

lemma stage_rx_data:
  assumes "rx_data s = rx_data t"
  shows "map_option rx_data (stage_for_reassembly sar n p s) = map_option rx_data (stage_for_reassembly sar n p t)"
proof (cases sar)
  case END
  have eq: "sar_state s = sar_state t" "reassembly_stage s = reassembly_stage t"
    "remaining_sdu_continuation_packet_size s = remaining_sdu_continuation_packet_size t"
    "enqueue_buffer s = enqueue_buffer t"
    using assms by (simp_all add: rx_data_def)
  have "map_option rx_data (deliver_sdu x (s\<lparr>sar_state := END, remaining_sdu_continuation_packet_size := a,
             reassembly_stage := x\<rparr>)) =
        map_option rx_data (deliver_sdu x (t\<lparr>sar_state := END, remaining_sdu_continuation_packet_size := a,
             reassembly_stage := x\<rparr>))" for x a
    by (rule deliver_rx_data) (simp add: rx_data_def eq)
  then show ?thesis
    using eq by (cases "Append (reassembly_stage t) p") (auto simp: END Let_def rx_data_def close_channel_def)
next
  case UNSEGMENTED
  then show ?thesis using assms deliver_rx_data [OF assms] by (simp add: rx_data_def close_channel_def)
next
  case CONTINUATION
  then show ?thesis
    using assms by (cases "Append (reassembly_stage t) p") (simp_all add: rx_data_def close_channel_def)
qed (use assms in \<open>auto simp: rx_data_def close_channel_def\<close>)

lemma accept_rx_data:
  assumes d: "data_indication sar n p (pass_to_tx r f (increment_expected_tx_seq s)) = Some s'"
    and r: "r < 64"
  shows "map_option rx_data (stage_for_reassembly sar n p s) = Some (rx_data s') \<and>
         expected_tx_seq s' = (expected_tx_seq s + 1) mod kMaxTxWin"
proof -
  let ?s1 = "increment_expected_tx_seq s" and ?s2 = "pass_to_tx r f (increment_expected_tx_seq s)"
  have "tx_frame ?s1 ?s2" using r by simp
  then have 1: "rx_data ?s2 = rx_data s" "expected_tx_seq ?s2 = (expected_tx_seq s + 1) mod kMaxTxWin"
    using tx_frame_rx_data by (auto simp: increment_expected_tx_seq_def)
  from d obtain t where t: "stage_for_reassembly sar n p ?s2 = Some t" "rx_frame ?s2 t"
    "s' = t\<lparr>buffer_seq := (buffer_seq t + 1) mod kMaxTxWin\<rparr>" by (rule data_indication_frame)
  then show ?thesis
    using stage_rx_data [OF 1(1) [symmetric], of sar n p] 1(2)
    by (auto simp: rx_frame_def tx_part_def)
qed

text \<open>A received frame either leaves the receiver's data alone or is the expected I-frame.\<close>

definition takes_frame :: "ertm \<Rightarrow> u8 \<Rightarrow> SegmentationAndReassembly \<Rightarrow> u16 \<Rightarrow> packet_view \<Rightarrow> ertm \<Rightarrow> bool" where
  "takes_frame s t sar n p s' \<longleftrightarrow> t = expected_tx_seq s \<and>
     expected_tx_seq s' = (expected_tx_seq s + 1) mod kMaxTxWin \<and>
     map_option rx_data (stage_for_reassembly sar n p s) = Some (rx_data s')"

definition ignores_frame :: "ertm \<Rightarrow> ertm \<Rightarrow> bool" where
  "ignores_frame s s' \<longleftrightarrow> expected_tx_seq s' = expected_tx_seq s \<and> rx_data s' = rx_data s"

lemma tx_frame_ignores: "tx_frame s s' \<Longrightarrow> ignores_frame s s'"
  by (simp add: ignores_frame_def tx_frame_rx_data)

lemma ignores_rx_state: "ignores_frame s s' \<Longrightarrow> ignores_frame s (s'\<lparr>rx_state := t\<rparr>)"
  by (simp add: ignores_frame_def)

lemma takes_frame_tx: "tx_frame s' s'' \<Longrightarrow> takes_frame s t sar n p s' \<Longrightarrow> takes_frame s t sar n p s''"
  by (simp add: takes_frame_def tx_frame_rx_data)

lemma takes_rx_state: "takes_frame s t sar n p s' \<Longrightarrow> takes_frame s t sar n p (s'\<lparr>rx_state := x\<rparr>)"
  by (simp add: takes_frame_def)

abbreviation in_sequence :: "ertm \<Rightarrow> u8 \<Rightarrow> SegmentationAndReassembly \<Rightarrow> u16 \<Rightarrow> packet_view \<Rightarrow> ertm option \<Rightarrow> bool" where
  "in_sequence s t sar n p \<equiv> pred_option (\<lambda>s'. ignores_frame s s' \<or> takes_frame s t sar n p s')"

lemma in_sequence_accept:
  assumes "r < 64" "with_expected_tx_seq t s"
    and "\<And>s'. takes_frame s t sar n p s' \<Longrightarrow> pred_option (takes_frame s t sar n p) (g s')"
  shows "in_sequence s t sar n p
     (Option.bind (data_indication sar n p (pass_to_tx r f (increment_expected_tx_seq s))) g)"
proof (cases "data_indication sar n p (pass_to_tx r f (increment_expected_tx_seq s))")
  case (Some s')
  then have "takes_frame s t sar n p s'"
    using accept_rx_data [OF Some assms(1)] assms(2) by (simp add: takes_frame_def with_expected_tx_seq_def)
  from assms(3) [OF this] Some show ?thesis by (cases "g s'") auto
qed simp

lemma takes_option_after:
  assumes "takes_frame s t sar n p s'"
  shows "pred_option (takes_frame s t sar n p)
     (Option.bind (if \<not> rej_actioned s'
               then map_option (send_pending_i_frames F_NOT_SET) (retransmit_i_frames r P_NOT_SET s')
               else Some (s'\<lparr>rej_actioned := False\<rparr>)) (\<lambda>s. Some (send_ack F_NOT_SET s)))"
    "pred_option (takes_frame s t sar n p)
     (Option.bind (if \<not> rej_actioned s'
               then map_option (send_pending_i_frames F_NOT_SET) (retransmit_i_frames r P_NOT_SET s')
               else Some (s'\<lparr>rej_actioned := False\<rparr>))
        (\<lambda>s. Some ((send_ack F_NOT_SET s)\<lparr>rx_state := RECV\<rparr>)))"
  using takes_frame_tx [OF _ assms] tx_frame_retransmit [of r P_NOT_SET s']
  by (cases "retransmit_i_frames r P_NOT_SET s'"; auto intro!: takes_rx_state)+

lemma recv_i_frame_in_sequence:
  assumes "r < 64" shows "in_sequence s t sar n p (recv_i_frame f t r sar n p s)"
proof -
  have tx: "tx_frame s s' \<Longrightarrow> ignores_frame s s' \<or> takes_frame s t sar n p s'" for s'
    using tx_frame_ignores by blast
  have rej: "ignores_frame s ((send_rej P_NOT_SET F_NOT_SET (pass_to_tx r f s))\<lparr>rx_state := REJ_SENT\<rparr>)"
    using assms by (intro ignores_rx_state tx_frame_ignores) simp
  have ack: "takes_frame s t sar n p s' \<Longrightarrow> pred_option (takes_frame s t sar n p) (Some (send_ack F_NOT_SET s'))"
    "takes_frame s t sar n p s' \<Longrightarrow>
       pred_option (takes_frame s t sar n p) (Some ((send_ack F_NOT_SET s')\<lparr>rx_state := RECV\<rparr>))" for s'
    using takes_frame_tx [OF tx_frame_acks(2)] takes_rx_state by auto
  note accept = in_sequence_accept [OF assms, of t s]
  show ?thesis
    unfolding recv_i_frame_def
    using assms accept [OF _ ack(1)] accept [OF _ ack(2)] accept [OF _ takes_option_after(1)]
      accept [OF _ takes_option_after(2)] rej
    by (cases "rx_state s") (simp_all add: tx kSendSrej_def)
qed


text \<open>The I-frames of a list of received frames, and their delivery to reassembly.\<close>

type_synonym i_frame = "u8 \<times> SegmentationAndReassembly \<times> u16 \<times> packet_view"

fun i_frame_of :: "frame_view \<Rightarrow> i_frame list" where
  "i_frame_of (IFrameView f t r sar n p) = [(t, sar, if sar = START then n else 0, p)]"
| "i_frame_of v = []"

definition stage_frame :: "i_frame \<Rightarrow> ertm \<Rightarrow> ertm option" where
  "stage_frame x = stage_for_reassembly (fst (snd x)) (fst (snd (snd x))) (snd (snd (snd x)))"

lemma foldM_stage_rx_data:
  "rx_data s = rx_data t \<Longrightarrow>
   map_option rx_data (foldM stage_frame acc s) = map_option rx_data (foldM stage_frame acc t)"
proof (induction acc arbitrary: s t)
  case (Cons x acc)
  have eq: "map_option rx_data (stage_frame x s) = map_option rx_data (stage_frame x t)"
    using stage_rx_data [OF Cons.prems] by (simp add: stage_frame_def)
  show ?case
  proof (cases "stage_frame x s")
    case None
    with eq show ?thesis by simp
  next
    case (Some s1)
    with eq obtain t1 where "stage_frame x t = Some t1" "rx_data s1 = rx_data t1"
      by (cases "stage_frame x t") simp_all
    with Some Cons.IH [of s1 t1] show ?thesis by simp
  qed
qed simp

lemma on_frame_sequence:
  assumes "wf_view v" "on_frame v s = Some s'"
  shows "ignores_frame s s' \<or>
    (\<exists>t sar n p. i_frame_of v = [(t, sar, n, p)] \<and> takes_frame s t sar n p s')"
proof (cases v)
  case (IFrameView f t r sar n p)
  then show ?thesis
    using assms recv_i_frame_in_sequence [of r s t sar "if sar = START then n else 0" p f]
    by (auto simp: on_frame_def split: if_split_asm)
next
  case (SFrameView fn p f r)
  then have "tx_frame_option s (on_frame v s)"
    using assms(1) tx_frame_recv_rr [of r s p f] tx_frame_recv_rej [of r s p f]
      tx_frame_recv_rnr [of r s p f] tx_frame_recv_srej [of r s p f]
    by (cases fn) (simp_all add: on_frame_def)
  then show ?thesis using assms tx_frame_ignores by simp
qed (use assms in \<open>auto simp: on_frame_def ignores_frame_def\<close>)

lemma frames_in_sequence:
  assumes "foldM on_frame vs s = Some s'" "list_all wf_view vs" "expected_tx_seq s < 64"
  shows "\<exists>acc. subseq acc (concat (map i_frame_of vs)) \<and>
      map fst acc = map (seq_add (expected_tx_seq s)) [0..<length acc] \<and>
      map_option rx_data (foldM stage_frame acc s) = Some (rx_data s') \<and>
      expected_tx_seq s' = seq_add (expected_tx_seq s) (length acc)"
  using assms
proof (induction vs arbitrary: s)
  case Nil
  then show ?case by (intro exI [of _ "[]"]) (simp add: seq_add_0)
next
  case (Cons v vs)
  from Cons.prems obtain s1 where s1: "on_frame v s = Some s1" "foldM on_frame vs s1 = Some s'"
    by (auto simp: bind_eq_Some_conv)
  have "ignores_frame s s1 \<or> (\<exists>t sar n p. i_frame_of v = [(t, sar, n, p)] \<and> takes_frame s t sar n p s1)"
    using on_frame_sequence s1 Cons.prems by simp
  then show ?case
  proof
    assume i: "ignores_frame s s1"
    with Cons.IH [OF s1(2)] Cons.prems obtain acc where
      acc: "subseq acc (concat (map i_frame_of vs))"
        "map fst acc = map (seq_add (expected_tx_seq s)) [0..<length acc]"
        "map_option rx_data (foldM stage_frame acc s1) = Some (rx_data s')"
        "expected_tx_seq s' = seq_add (expected_tx_seq s) (length acc)"
      by (auto simp: ignores_frame_def)
    moreover have "map_option rx_data (foldM stage_frame acc s) = Some (rx_data s')"
      using foldM_stage_rx_data [of s s1 acc] i acc(3) by (simp add: ignores_frame_def)
    ultimately show ?thesis
      by (intro exI [of _ acc]) (simp add: list_emb_append2)
  next
    assume "\<exists>t sar n p. i_frame_of v = [(t, sar, n, p)] \<and> takes_frame s t sar n p s1"
    then obtain t sar n p where v: "i_frame_of v = [(t, sar, n, p)]" and tk: "takes_frame s t sar n p s1"
      by blast
    have t: "t = expected_tx_seq s" using tk by (simp add: takes_frame_def)
    have e1: "expected_tx_seq s1 = seq_add (expected_tx_seq s) 1"
      using tk Cons.prems(3) by (simp add: takes_frame_def seq_inc)
    obtain s2 where s2: "stage_for_reassembly sar n p s = Some s2" "rx_data s2 = rx_data s1"
      using tk by (auto simp: takes_frame_def)
    from Cons.IH [OF s1(2)] Cons.prems e1 obtain acc where
      acc: "subseq acc (concat (map i_frame_of vs))"
        "map fst acc = map (seq_add (expected_tx_seq s1)) [0..<length acc]"
        "map_option rx_data (foldM stage_frame acc s1) = Some (rx_data s')"
        "expected_tx_seq s' = seq_add (expected_tx_seq s1) (length acc)"
      by auto
    have "map fst ((t, sar, n, p) # acc) =
        map (seq_add (expected_tx_seq s)) [0..<length ((t, sar, n, p) # acc)]"
      using acc(2) t Cons.prems(3)
      by (simp add: e1 seq_add_add seq_add_0 upt_conv_Cons map_Suc_upt [symmetric]
          del: upt_Suc)
    moreover have "map_option rx_data (foldM stage_frame ((t, sar, n, p) # acc) s) = Some (rx_data s')"
      using s2 acc(3) foldM_stage_rx_data [OF s2(2), of acc] by (simp add: stage_frame_def)
    ultimately show ?thesis
      using acc by (intro exI [of _ "(t, sar, n, p) # acc"]) (simp add: v e1 seq_add_add)
  qed
qed


subsection \<open>Segmentation against reassembly\<close>

fun tagged :: "u16 \<Rightarrow> bytes list \<Rightarrow> stored_frame list" where
  "tagged n [] = []"
| "tagged n [x] = [(UNSEGMENTED, 0, x)]"
| "tagged n (x # y # ys) =
     (START, n, x) # map (\<lambda>z. (CONTINUATION, 0, z)) (butlast (y # ys)) @ [(END, 0, last (y # ys))]"

text \<open>The stored frame a received I-frame carries.\<close>

definition frame_content :: "i_frame \<Rightarrow> stored_frame" where
  "frame_content x = (fst (snd x), fst (snd (snd x)), bytes_of (snd (snd (snd x))))"

definition frame_ok :: "i_frame \<Rightarrow> bool" where
  "frame_ok x \<longleftrightarrow> pv_ok (snd (snd (snd x)))"

definition stage_ok :: "ertm \<Rightarrow> bytes \<Rightarrow> u16 \<Rightarrow> bool" where
  "stage_ok s bs left \<longleftrightarrow> sar_state s = START \<and> pv_ok (reassembly_stage s) \<and>
     fragments (reassembly_stage s) \<noteq> [] \<and> bytes_of (reassembly_stage s) = bs \<and>
     remaining_sdu_continuation_packet_size s = left"

lemma nonempty_fragments: "bytes_of p \<noteq> [] \<Longrightarrow> fragments p \<noteq> []"
  by (auto simp: bytes_of_def)

lemma stage_continuations:
  assumes "map frame_content xs = map (\<lambda>z. (CONTINUATION, 0, z)) zs" "list_all frame_ok xs"
    "stage_ok s bs left"
  shows "\<exists>s'. foldM stage_frame xs s = Some s' \<and>
     stage_ok s' (bs @ concat zs) (left - size_u16 (length (concat zs))) \<and>
     enqueue_buffer s' = enqueue_buffer s"
  using assms
proof (induction xs arbitrary: s zs bs left)
  case Nil
  then show ?case by simp
next
  case (Cons x xs)
  from Cons.prems(1) obtain z zs' where zs: "zs = z # zs'" by (cases zs) auto
  obtain t sar n p where x: "x = (t, sar, n, p)" by (cases x)
  have p: "sar = CONTINUATION" "bytes_of p = z" "pv_ok p"
    using Cons.prems by (simp_all add: zs x frame_content_def frame_ok_def)
  obtain stage where stage: "Append (reassembly_stage s) p = Some stage" "pv_ok stage"
    "bytes_of stage = bs @ z" "fragments stage \<noteq> []"
    using Cons.prems(3) p by (auto simp: stage_ok_def elim: Append_Some)
  let ?s1 = "s\<lparr>reassembly_stage := stage, remaining_sdu_continuation_packet_size :=
                remaining_sdu_continuation_packet_size s - size_u16 (pv_length p)\<rparr>"
  have step: "stage_frame x s = Some ?s1"
    using Cons.prems(3) stage p by (simp add: stage_frame_def x stage_ok_def)
  have "stage_ok ?s1 (bs @ z) (left - size_u16 (length z))"
    using Cons.prems(3) stage p bytes_of_length [OF p(3)] by (simp add: stage_ok_def)
  from Cons.IH [OF _ _ this, of zs'] Cons.prems show ?case
    by (simp add: step zs diff_diff_eq)
qed

definition delivers :: "ertm \<Rightarrow> bytes \<Rightarrow> ertm \<Rightarrow> bool" where
  "delivers s sdu s' \<longleftrightarrow> sar_state s' = END \<and>
     (\<exists>v. eb_buffer (enqueue_buffer s') = eb_buffer (enqueue_buffer s) @ [v] \<and> bytes_of v = sdu)"

definition can_deliver :: "ertm \<Rightarrow> bool" where
  "can_deliver s \<longleftrightarrow> \<not> (callback_on_empty (enqueue_buffer s) \<and> length (eb_buffer (enqueue_buffer s)) = 2)"

lemma deliver_sdu_Some:
  "can_deliver s \<Longrightarrow> sar_state s = END \<Longrightarrow> \<exists>s'. deliver_sdu v s = Some s' \<and> delivers s (bytes_of v) s'"
  by (auto simp: can_deliver_def deliver_sdu_def Let_def eb_Size_def kEnqueueBufferBusyThreshold_def
      eb_Enqueue_def eb_NotifyOnEmpty_def local_busy_detected_def delivers_def)

lemma stage_end:
  assumes st: "stage_ok s bs (size_u16 (length (bytes_of p)))" and p: "pv_ok p" and cd: "can_deliver s"
  shows "\<exists>s'. stage_for_reassembly END n p s = Some s' \<and> delivers s (bs @ bytes_of p) s'"
proof -
  obtain stage where stage: "Append (reassembly_stage s) p = Some stage" "bytes_of stage = bs @ bytes_of p"
    using st p by (auto simp: stage_ok_def elim: Append_Some)
  let ?s1 = "s\<lparr>sar_state := END, remaining_sdu_continuation_packet_size := 0, reassembly_stage := stage\<rparr>"
  have "can_deliver ?s1" using cd by (simp add: can_deliver_def)
  then obtain s' where "deliver_sdu stage ?s1 = Some s'" "delivers ?s1 (bytes_of stage) s'"
    using deliver_sdu_Some [of ?s1 stage] by auto
  then show ?thesis
    using st stage bytes_of_length [OF p] by (simp add: stage_ok_def delivers_def)
qed

lemma reassembly_of_segments:
  assumes segs: "\<forall>x\<in>set segs. x \<noteq> []" "segs \<noteq> []"
    and xs: "map frame_content xs = tagged (size_u16 (length (concat segs))) segs" "list_all frame_ok xs"
    and s: "sar_state s = END" "can_deliver s"
  shows "\<exists>s'. foldM stage_frame xs s = Some s' \<and> delivers s (concat segs) s'"
proof (cases "tl segs")
  case Nil
  with segs obtain x where seg: "segs = [x]" by (cases segs) auto
  with xs obtain t n p where x: "xs = [(t, UNSEGMENTED, n, p)]" "bytes_of p = x"
    by (auto simp: frame_content_def)
  then show ?thesis
    using deliver_sdu_Some [OF s(2,1), of p] s by (auto simp: seg stage_frame_def)
next
  case (Cons y ys)
  with segs obtain x where seg: "segs = x # y # ys" by (cases segs) auto
  let ?mid = "butlast (y # ys)" and ?last = "last (y # ys)"
  have cat: "concat segs = x @ concat ?mid @ ?last"
    unfolding seg by (metis append_butlast_last_id concat.simps(2) concat_append concat.simps(1) append_Nil2 list.discI)
  let ?n = "size_u16 (length (concat segs))"
  from xs(1) obtain a ms e where xs': "xs = a # ms @ [e]"
    and a: "frame_content a = (START, ?n, x)"
    and ms: "map frame_content ms = map (\<lambda>z. (CONTINUATION, 0, z)) ?mid"
    and e: "frame_content e = (END, 0, ?last)"
    unfolding seg tagged.simps by (auto simp: map_eq_Cons_conv map_eq_append_conv)
  obtain t n p where pa: "a = (t, START, ?n, p)" "bytes_of p = x" "pv_ok p"
    using a xs(2) by (cases a) (auto simp: frame_content_def xs' frame_ok_def)
  obtain t' q where qe: "e = (t', END, 0, q)" "bytes_of q = ?last" "pv_ok q"
    using e xs(2) by (cases e) (auto simp: frame_content_def xs' frame_ok_def)
  let ?s1 = "s\<lparr>sar_state := START, reassembly_stage := p,
                remaining_sdu_continuation_packet_size := ?n - size_u16 (pv_length p)\<rparr>"
  have s1: "stage_frame a s = Some ?s1" using s pa by (simp add: stage_frame_def)
  have "x \<noteq> []" using segs seg by simp
  then have "stage_ok ?s1 x (?n - size_u16 (length x))"
    using pa bytes_of_length [OF pa(3)] nonempty_fragments [of p] by (simp add: stage_ok_def)
  from stage_continuations [OF ms _ this] xs(2) obtain s2 where
    s2: "foldM stage_frame ms ?s1 = Some s2" "enqueue_buffer s2 = enqueue_buffer s"
      "stage_ok s2 (x @ concat ?mid) (?n - size_u16 (length x) - size_u16 (length (concat ?mid)))"
    by (auto simp: xs')
  have "?n - size_u16 (length x) - size_u16 (length (concat ?mid)) = size_u16 (length ?last)"
    by (simp add: cat)
  then have "\<exists>s'. stage_for_reassembly END 0 q s2 = Some s' \<and> delivers s2 ((x @ concat ?mid) @ ?last) s'"
    using stage_end [of s2 "x @ concat ?mid" q 0] s2 s(2) qe by (simp add: can_deliver_def)
  then show ?thesis
    using s1 s2 qe cat by (auto simp: xs' stage_frame_def delivers_def)
qed


subsection \<open>The sender numbers its frames\<close>

definition i_pdu :: "ertm \<Rightarrow> u8 \<Rightarrow> stored_frame \<Rightarrow> ertm_pdu" where
  "i_pdu s tx_seq x =
     (if fst x = START
      then StartFrame (fcs_enabled s) (ertm_remote_cid s) tx_seq F_NOT_SET (buffer_seq s) (fst (snd x)) (snd (snd x))
      else IFrame (fcs_enabled s) (ertm_remote_cid s) tx_seq F_NOT_SET (buffer_seq s) (fst x) (snd (snd x)))"

definition request :: "stored_frame \<Rightarrow> ertm \<Rightarrow> ertm" where
  "request x = data_request (fst x) (snd (snd x)) (fst (snd x))"

text \<open>How many frames the remote window still admits.\<close>

definition room :: "ertm \<Rightarrow> nat" where
  "room s = (if tx_state s = XMIT \<and> \<not> remote_busy s
             then nat (uint (remote_tx_window s) - unacked_frames s) else 0)"

lemma request_send:
  assumes "0 < room s" "unacked_list s (next_tx_seq s) = None"
  shows "request x s =
    s\<lparr>unacked_list := (unacked_list s)(next_tx_seq s \<mapsto> x), unacked_frames := unacked_frames s + 1,
      frames_sent := frames_sent s + 1, retry_i_frames := (retry_i_frames s)(next_tx_seq s := 1),
      next_tx_seq := (next_tx_seq s + 1) mod kMaxTxWin,
      retrans_timer := Some (unat (local_retransmit_timeout_ms s)),
      pdu_queue := pdu_queue s @ [i_pdu s (next_tx_seq s) x],
      ertm_effects := ertm_effects s @ [OnPacketsReady (ertm_cid s) 1]\<rparr>"
proof -
  have "tx_state s = XMIT" "\<not> remote_busy s" "rem_window_not_full s"
    using assms(1) by (auto simp: room_def rem_window_not_full_def split: if_split_asm)
  then have "request x s = send_data (fst x) (fst (snd x)) (snd (snd x)) F_NOT_SET s"
    by (simp add: request_def data_request_def)
  then show ?thesis
    by (simp add: send_data_def Let_def map_emplace_def assms(2) send_i_frame_def send_pdu_def
        i_pdu_def start_retrans_timer_def)
qed

lemma request_pend:
  assumes "room s = 0" "unacked_frames s \<le> uint (remote_tx_window s)"
  shows "request x s = s\<lparr>pending_frames := pending_frames s @ [x]\<rparr>"
  using assms
  by (cases x; cases "tx_state s") (auto simp: request_def data_request_def room_def rem_window_not_full_def rem_window_full_def
      pend_data_def split: if_split_asm)

definition requested :: "ertm \<Rightarrow> stored_frame list \<Rightarrow> nat \<Rightarrow> ertm \<Rightarrow> bool" where
  "requested s xs k s' \<longleftrightarrow>
     pdu_queue s' = pdu_queue s @ map (\<lambda>i. i_pdu s (seq_add (next_tx_seq s) i) (xs ! i)) [0..<k] \<and>
     pending_frames s' = pending_frames s @ drop k xs \<and>
     next_tx_seq s' = seq_add (next_tx_seq s) k \<and> unacked_frames s' = unacked_frames s + int k \<and>
     config_part s' = config_part s \<and> buffer_seq s' = buffer_seq s"

lemma room_pending [simp]: "room (s\<lparr>pending_frames := ps\<rparr>) = room s"
  by (simp add: room_def)

lemma fold_request_pend:
  "room s = 0 \<Longrightarrow> unacked_frames s \<le> uint (remote_tx_window s) \<Longrightarrow>
   fold request xs s = s\<lparr>pending_frames := pending_frames s @ xs\<rparr>"
  by (induction xs arbitrary: s) (simp_all add: request_pend)

lemma fold_request:
  assumes "unacked_frames s \<le> uint (remote_tx_window s)" "next_tx_seq s < 64"
    "k = min (room s) (length xs)" "k \<le> 64"
    "\<forall>i<k. unacked_list s (seq_add (next_tx_seq s) i) = None"
  shows "requested s xs k (fold request xs s)"
  using assms
proof (induction xs arbitrary: s k)
  case Nil
  then show ?case by (simp add: requested_def seq_add_0)
next
  case (Cons x xs)
  show ?case
  proof (cases "room s = 0")
    case True
    then show ?thesis
      using Cons.prems fold_request_pend [of s "x # xs"] by (simp add: requested_def seq_add_0 config_part_def)
  next
    case False
    then have "k \<noteq> 0" using Cons.prems(3) by simp
    then obtain k' where k: "k = Suc k'" using not0_implies_Suc by blast
    have free: "unacked_list s (next_tx_seq s) = None"
      using Cons.prems(2,5) k by (auto simp: seq_add_0 dest: spec [of _ 0])
    define s1 where "s1 = request x s"
    note s1 = request_send [OF _ free, of x, folded s1_def]
    have next1: "next_tx_seq s1 = seq_add (next_tx_seq s) 1"
      using s1 False Cons.prems(2) by (simp add: seq_inc)
    have room1: "k' = min (room s1) (length xs)"
      using s1 False Cons.prems(3) k by (auto simp: room_def split: if_split_asm)
    have win1: "unacked_frames s1 \<le> uint (remote_tx_window s1)"
      using s1 False by (auto simp: room_def split: if_split_asm)
    have free1: "\<forall>i<k'. unacked_list s1 (seq_add (next_tx_seq s1) i) = None"
    proof (intro allI impI)
      fix i assume i: "i < k'"
      have "seq_add (next_tx_seq s) (Suc i) \<noteq> seq_add (next_tx_seq s) 0"
        using seq_add_inj [OF Cons.prems(2), of "Suc i" 0] i k Cons.prems(4) by auto
      then show "unacked_list s1 (seq_add (next_tx_seq s1) i) = None"
        using s1 False Cons.prems(2,5) i k next1 by (simp add: seq_add_add seq_add_0)
    qed
    have "requested s1 xs k' (fold request xs s1)"
      using Cons.IH [OF win1 _ room1 _ free1] next1 k Cons.prems(4) by simp
    moreover have "i_pdu s1 = i_pdu s" "config_part s1 = config_part s" "buffer_seq s1 = buffer_seq s"
      "pdu_queue s1 = pdu_queue s @ [i_pdu s (next_tx_seq s) x]" "pending_frames s1 = pending_frames s"
      "unacked_frames s1 = unacked_frames s + 1"
      using s1 False by (simp_all add: fun_eq_iff i_pdu_def config_part_def)
    ultimately show ?thesis
      using next1 Cons.prems(2)
      by (simp add: requested_def k s1_def [symmetric] seq_add_add seq_add_0 upt_conv_Cons
          map_Suc_upt [symmetric] del: upt_Suc)
  qed
qed

lemma request_segments_tagged:
  "segs \<noteq> [] \<Longrightarrow> request_segments n segs s = Some (fold request (tagged n segs) s)"
  by (cases "(n, segs)" rule: tagged.cases)
    (auto simp: request_segments_def Let_def request_def fold_map comp_def)

end
