(* ===== verification/Ertm_Busy.thy ===== *)
theory Ertm_Busy
  imports Ertm_Props
begin

text \<open>The busy condition of the receiver, and the one way a received frame can abort.\<close>

definition ertm_busy_inv :: "ertm \<Rightarrow> bool" where
  "ertm_busy_inv s \<longleftrightarrow> (callback_on_empty (enqueue_buffer s) \<longrightarrow> local_busy s) \<and>
     (local_busy s \<longrightarrow> rx_state s = RECV) \<and> pv_ok (reassembly_stage s)"

lemma tx_frame_busy: "tx_frame s s' \<Longrightarrow> ertm_busy_inv s' \<longleftrightarrow> ertm_busy_inv s"
  by (simp add: tx_frame_def rx_part_def ertm_busy_inv_def)

text \<open>Delivery either leaves the flags alone or sets both.\<close>

definition rx_flags :: "ertm \<Rightarrow> ertm \<Rightarrow> bool" where
  "rx_flags s s' \<longleftrightarrow> (pv_ok (reassembly_stage s) \<longrightarrow> pv_ok (reassembly_stage s')) \<and>
     (local_busy s' = local_busy s \<and> callback_on_empty (enqueue_buffer s') = callback_on_empty (enqueue_buffer s) \<or>
      local_busy s' \<and> callback_on_empty (enqueue_buffer s'))"

lemma deliver_flags: "deliver_sdu v s = Some s' \<Longrightarrow> rx_flags s s'"
  by (auto simp: deliver_sdu_def Let_def eb_NotifyOnEmpty_def local_busy_detected_def eb_Enqueue_def
      rx_flags_def split: if_split_asm)

lemma Append_ok: "pv_ok p \<Longrightarrow> pv_ok q \<Longrightarrow> Append p q = Some r \<Longrightarrow> pv_ok r"
  by (cases "fragments p = []") (auto simp: Append_no_fragments elim: Append_Some)

lemma Append_None: "pv_ok p \<Longrightarrow> pv_ok q \<Longrightarrow> Append p q = None \<longleftrightarrow> fragments p = []"
  by (cases "fragments p = []") (auto simp: Append_no_fragments elim: Append_Some)

lemma stage_flags:
  assumes "pv_ok p" "stage_for_reassembly sar n p s = Some s'" shows "rx_flags s s'"
proof (cases sar)
  case END
  then show ?thesis
    using assms Append_ok [OF _ assms(1), of "reassembly_stage s"]
    by (auto simp: Let_def bind_eq_Some_conv rx_flags_def close_channel_def
        dest!: deliver_flags split: if_split_asm)
next
  case UNSEGMENTED
  then show ?thesis using assms by (auto simp: rx_flags_def close_channel_def dest!: deliver_flags split: if_split_asm)
next
  case START
  then show ?thesis using assms by (auto simp: rx_flags_def close_channel_def split: if_split_asm)
next
  case CONTINUATION
  then show ?thesis
    using assms Append_ok [OF _ assms(1), of "reassembly_stage s"]
    by (auto simp: bind_eq_Some_conv rx_flags_def close_channel_def split: if_split_asm)
qed

lemma accept_flags:
  assumes "data_indication sar n p (pass_to_tx r f (increment_expected_tx_seq s)) = Some s'" "pv_ok p" "r < 64"
  shows "rx_flags s s' \<and> rx_state s' = rx_state s"
proof -
  have "tx_frame (increment_expected_tx_seq s) (pass_to_tx r f (increment_expected_tx_seq s))"
    using assms(3) by simp
  then have 1: "rx_part (pass_to_tx r f (increment_expected_tx_seq s)) = rx_part (increment_expected_tx_seq s)"
    by (simp add: tx_frame_def)
  from assms(1) obtain t where t: "stage_for_reassembly sar n p (pass_to_tx r f (increment_expected_tx_seq s)) = Some t"
    "rx_frame (pass_to_tx r f (increment_expected_tx_seq s)) t"
    "s' = t\<lparr>buffer_seq := (buffer_seq t + 1) mod kMaxTxWin\<rparr>"
    by (rule data_indication_frame)
  then show ?thesis
    using stage_flags [OF assms(2) t(1)] 1
    by (auto simp: rx_flags_def rx_part_def increment_expected_tx_seq_def rx_frame_def tx_part_def)
qed

abbreviation busy_option :: "ertm option \<Rightarrow> bool" where
  "busy_option \<equiv> pred_option ertm_busy_inv"

lemma busy_accept:
  assumes "ertm_busy_inv s" "pv_ok p" "r < 64" "\<not> local_busy s"
    and "\<And>s'. pv_ok (reassembly_stage s') \<Longrightarrow> callback_on_empty (enqueue_buffer s') \<longrightarrow> local_busy s' \<Longrightarrow>
            rx_state s' = rx_state s \<Longrightarrow> busy_option (g s')"
  shows "busy_option (Option.bind (data_indication sar n p (pass_to_tx r f (increment_expected_tx_seq s))) g)"
proof (cases "data_indication sar n p (pass_to_tx r f (increment_expected_tx_seq s))")
  case (Some s')
  then show ?thesis
    using accept_flags [OF Some assms(2,3)] assms by (auto simp: ertm_busy_inv_def rx_flags_def)
qed simp

lemma busy_tx:
  "tx_frame s s' \<Longrightarrow> pv_ok (reassembly_stage s) \<Longrightarrow> callback_on_empty (enqueue_buffer s) \<longrightarrow> local_busy s \<Longrightarrow>
   rx_state s = RECV \<Longrightarrow> ertm_busy_inv s'"
  "tx_frame s s' \<Longrightarrow> pv_ok (reassembly_stage s) \<Longrightarrow> callback_on_empty (enqueue_buffer s) \<longrightarrow> local_busy s \<Longrightarrow>
   ertm_busy_inv (s'\<lparr>rx_state := RECV\<rparr>)"
  by (auto simp: tx_frame_def rx_part_def ertm_busy_inv_def)

lemma busy_after_accept:
  assumes "pv_ok (reassembly_stage s)" "callback_on_empty (enqueue_buffer s) \<longrightarrow> local_busy s"
  shows "rx_state s = RECV \<Longrightarrow> busy_option
      (Option.bind (if \<not> rej_actioned s
               then map_option (send_pending_i_frames F_NOT_SET) (retransmit_i_frames r P_NOT_SET s)
               else Some (s\<lparr>rej_actioned := False\<rparr>)) (\<lambda>s. Some (send_ack F_NOT_SET s)))"
    "busy_option
      (Option.bind (if \<not> rej_actioned s
               then map_option (send_pending_i_frames F_NOT_SET) (retransmit_i_frames r P_NOT_SET s)
               else Some (s\<lparr>rej_actioned := False\<rparr>)) (\<lambda>s. Some ((send_ack F_NOT_SET s)\<lparr>rx_state := RECV\<rparr>)))"
  using busy_tx [OF _ assms] tx_frame_retransmit [of r P_NOT_SET s]
  by (cases "retransmit_i_frames r P_NOT_SET s"; simp)+

lemma recv_i_frame_busy:
  assumes "ertm_busy_inv s" "pv_ok p" "r < 64"
  shows "busy_option (recv_i_frame f t r sar n p s)"
proof -
  have tx: "tx_frame s s' \<Longrightarrow> ertm_busy_inv s'" for s'
    using tx_frame_busy assms(1) by blast
  have rej: "\<not> local_busy s \<Longrightarrow> ertm_busy_inv ((send_rej P_NOT_SET F_NOT_SET (pass_to_tx r f s))\<lparr>rx_state := REJ_SENT\<rparr>)"
  proof -
    assume "\<not> local_busy s"
    moreover have "tx_frame s (send_rej P_NOT_SET F_NOT_SET (pass_to_tx r f s))" using assms(3) by simp
    ultimately show ?thesis using assms(1) by (auto simp: tx_frame_def rx_part_def ertm_busy_inv_def)
  qed
  note accept = busy_accept [OF assms]
  show ?thesis
  proof (cases "rx_state s")
    case RECV
    then show ?thesis
      using assms accept [OF _ busy_after_accept(1)] accept [of "\<lambda>s. Some (send_ack F_NOT_SET s)"] rej
        busy_tx(1) [OF tx_frame_acks(2)]
      by (simp add: recv_i_frame_def tx kSendSrej_def)
  next
    case REJ_SENT
    then have "\<not> local_busy s" using assms(1) by (auto simp: ertm_busy_inv_def)
    with REJ_SENT show ?thesis
      using assms accept [OF _ busy_after_accept(2)]
        accept [of "\<lambda>s. Some ((send_ack F_NOT_SET s)\<lparr>rx_state := RECV\<rparr>)"] busy_tx(2) [OF tx_frame_acks(2)]
      by (simp add: recv_i_frame_def tx)
  qed (simp add: recv_i_frame_def assms)
qed


lemma on_frame_busy: "ertm_busy_inv s \<Longrightarrow> wf_view v \<Longrightarrow> busy_option (on_frame v s)"
proof (cases v)
  case (SFrameView fn p f r)
  assume "ertm_busy_inv s" "wf_view v"
  then have "tx_frame_option s (on_frame v s)"
    using SFrameView tx_frame_recv_rr [of r s p f] tx_frame_recv_rej [of r s p f]
      tx_frame_recv_rnr [of r s p f] tx_frame_recv_srej [of r s p f]
    by (cases fn) (simp_all add: on_frame_def)
  then show ?thesis
    using tx_frame_busy \<open>ertm_busy_inv s\<close> by (cases "on_frame v s") auto
qed (auto simp: on_frame_def recv_i_frame_busy)

lemma local_busy_clear_busy:
  "ertm_busy_inv s \<Longrightarrow> \<not> callback_on_empty (enqueue_buffer s) \<Longrightarrow> ertm_busy_inv (local_busy_clear s)"
proof -
  assume "ertm_busy_inv s" "\<not> callback_on_empty (enqueue_buffer s)"
  then have "ertm_busy_inv (s\<lparr>local_busy := False\<rparr>)" by (simp add: ertm_busy_inv_def)
  then show ?thesis
    using tx_frame_local_busy_clear_parts [of s] tx_frame_busy \<open>ertm_busy_inv s\<close> by metis
qed

lemma callback_flags:
  "eb_enqueue_callback b = Some (t, b', c) \<Longrightarrow>
   (callback_on_empty b' \<longrightarrow> callback_on_empty b) \<and> (c \<longrightarrow> \<not> callback_on_empty b')"
  by (auto simp: eb_enqueue_callback_def Let_def split: list.split_asm if_split_asm)

lemma upper_dequeue_busy:
  assumes "ertm_upper_dequeue s = Some (sdu, s')" "ertm_busy_inv s" shows "ertm_busy_inv s'"
proof -
  from assms(1) obtain b c where b: "eb_enqueue_callback (enqueue_buffer s) = Some (sdu, b, c)"
    and s': "s' = (if c then local_busy_clear (s\<lparr>enqueue_buffer := b\<rparr>) else s\<lparr>enqueue_buffer := b\<rparr>)"
    by (auto simp: ertm_upper_dequeue_def Let_def bind_eq_Some_conv)
  have "ertm_busy_inv (s\<lparr>enqueue_buffer := b\<rparr>)"
    using callback_flags [OF b] assms(2) by (auto simp: ertm_busy_inv_def)
  then show ?thesis
    using s' callback_flags [OF b] local_busy_clear_busy [of "s\<lparr>enqueue_buffer := b\<rparr>"] by simp
qed

lemma reach_busy: "ertm_reach s0 n s \<Longrightarrow> ertm_busy_inv s0 \<Longrightarrow> ertm_busy_inv s"
proof (induction rule: ertm_reach.induct)
  case (reach_sdu n s sdu s')
  then show ?case using OnSdu_frame [of s sdu] tx_frame_busy by auto
next
  case (reach_pdu n s v s')
  then show ?case using on_frame_busy [of s v] by simp
next
  case (reach_upper n s sdu s')
  then show ?case using upper_dequeue_busy by blast
next
  case (reach_get n s pdu s')
  then show ?case by (auto simp: ertm_GetNextPacket_def ertm_busy_inv_def split: list.split_asm)
qed (use timer_fires_frame tx_frame_busy in blast)+

lemma init_busy: "ertm_busy_inv (ertm_configured cid rcid fcs opt)"
  by (simp add: ertm_configured_def ertm_EnableFcs_def ertm_SetRetransmissionAndFlowControlOptions_def
      ErtmController_def ertm_busy_inv_def EnqueueBuffer_def)

subsection \<open>Aborts\<close>

lemma recv_total:
  assumes "ertm_tx_inv s" "r < 64"
  shows "recv_rr r p f s \<noteq> None" "recv_rej r p f s \<noteq> None"
proof -
  have "tx_frame s (pass_to_tx r f s)" "tx_frame s (pass_to_tx r f (s\<lparr>remote_busy := False\<rparr>))"
    using assms(2) by simp_all
  then have "ertm_tx_inv (pass_to_tx r f s)" "ertm_tx_inv (pass_to_tx r f (s\<lparr>remote_busy := False\<rparr>))"
    using assms(1) by (simp_all add: tx_frame_def)
  note re = this(2) [THEN retransmit_total, of r p]
  show "recv_rr r p f s \<noteq> None"
    using re by (cases "rx_state s") (auto simp: recv_rr_def Let_def)
  show "recv_rej r p f s \<noteq> None"
    using re by (auto simp: recv_rej_def Let_def)
qed

lemma deliver_None: "\<not> callback_on_empty (enqueue_buffer s) \<Longrightarrow> deliver_sdu v s \<noteq> None"
  by (simp add: deliver_sdu_def Let_def eb_NotifyOnEmpty_def local_busy_detected_def eb_Enqueue_def)

lemma stage_None:
  assumes "stage_for_reassembly sar n p s = None" "pv_ok p" "pv_ok (reassembly_stage s)"
    "\<not> callback_on_empty (enqueue_buffer s)"
  shows "sar \<in> {CONTINUATION, END} \<and> sar_state s \<noteq> END \<and> fragments (reassembly_stage s) = []"
proof (cases sar)
  case END
  have d: "deliver_sdu y (s\<lparr>sar_state := END, remaining_sdu_continuation_packet_size := a,
          reassembly_stage := y\<rparr>) \<noteq> None" for y a
    using assms(4) by (intro deliver_None) simp
  show ?thesis
    using END assms Append_None [OF assms(3,2)]
    by (auto simp: d Let_def bind_eq_None_conv split: if_split_asm)
next
  case UNSEGMENTED
  then show ?thesis using assms deliver_None [of s p] by (auto split: if_split_asm)
next
  case START
  then show ?thesis using assms by (auto split: if_split_asm)
next
  case CONTINUATION
  then show ?thesis using assms Append_None [OF assms(3,2)] by (auto simp: bind_eq_None_conv split: if_split_asm)
qed

lemma accept_None:
  assumes "data_indication sar n p (pass_to_tx r f (increment_expected_tx_seq s)) = None"
    "pv_ok p" "r < 64" "ertm_busy_inv s" "\<not> local_busy s"
  shows "sar \<in> {CONTINUATION, END} \<and> sar_state s \<noteq> END \<and> fragments (reassembly_stage s) = []"
proof -
  have "tx_frame (increment_expected_tx_seq s) (pass_to_tx r f (increment_expected_tx_seq s))"
    using assms(3) by simp
  then have 1: "rx_part (pass_to_tx r f (increment_expected_tx_seq s)) = rx_part (increment_expected_tx_seq s)"
    by (simp add: tx_frame_def)
  have "stage_for_reassembly sar n p (pass_to_tx r f (increment_expected_tx_seq s)) = None"
    using assms(1) by (cases "stage_for_reassembly sar n p (pass_to_tx r f (increment_expected_tx_seq s))")
      (simp_all add: data_indication_def)
  from stage_None [OF this assms(2)] show ?thesis
    using 1 assms(4,5) by (auto simp: rx_part_def increment_expected_tx_seq_def ertm_busy_inv_def)
qed

lemma accept_then_None:
  assumes "Option.bind (data_indication sar n p (pass_to_tx r f (increment_expected_tx_seq s))) g = None"
    "ertm_inv s" "pv_ok p" "r < 64" "ertm_busy_inv s" "\<not> local_busy s"
    "\<And>s'. ertm_tx_inv s' \<Longrightarrow> g s' \<noteq> None"
  shows "sar \<in> {CONTINUATION, END} \<and> sar_state s \<noteq> END \<and> fragments (reassembly_stage s) = []"
proof (cases "data_indication sar n p (pass_to_tx r f (increment_expected_tx_seq s))")
  case None
  with accept_None assms show ?thesis by blast
next
  case (Some s')
  then have "ertm_tx_inv s'" using accept_inv [OF assms(2,4) Some] by (simp add: ertm_inv_def)
  with assms(1,7) Some show ?thesis by simp
qed

lemma recv_i_frame_None:
  assumes "recv_i_frame f t r sar n p s = None" "ertm_inv s" "pv_ok p" "r < 64" "ertm_busy_inv s"
  shows "sar \<in> {CONTINUATION, END} \<and> sar_state s \<noteq> END \<and> fragments (reassembly_stage s) = []"
proof -
  note nn = accept_then_None [OF _ assms(2-5)]
  show ?thesis
  proof (cases "rx_state s")
    case RECV
    with assms(1) show ?thesis
      by (auto simp: recv_i_frame_def kSendSrej_def split: if_split_asm dest!: nn)
        (drule retransmit_total [of _ r P_NOT_SET], auto)+
  next
    case REJ_SENT
    then have "\<not> local_busy s" using assms(5) by (auto simp: ertm_busy_inv_def)
    with REJ_SENT assms(1) show ?thesis
      by (auto simp: recv_i_frame_def split: if_split_asm dest!: nn)
        (drule retransmit_total [of _ r P_NOT_SET], auto)+
  qed (use assms(1) in \<open>simp add: recv_i_frame_def\<close>)
qed


lemma on_frame_None:
  assumes "on_frame v s = None" "wf_view v" "ertm_inv s" "ertm_busy_inv s"
  shows "\<exists>f t r sar n p. v = IFrameView f t r sar n p \<and> sar \<in> {CONTINUATION, END} \<and>
    sar_state s \<noteq> END \<and> fragments (reassembly_stage s) = []"
proof (cases v)
  case (IFrameView f t r sar n p)
  then show ?thesis
    using assms recv_i_frame_None [of f t r sar "if sar = START then n else 0" p s]
    by (auto simp: on_frame_def split: if_split_asm)
next
  case (SFrameView fn p f r)
  have "ertm_tx_inv s" using assms(3) by (simp add: ertm_inv_def)
  with SFrameView assms(1,2) recv_total [of s r p f] show ?thesis
    by (cases fn) (auto simp: on_frame_def)
qed (use assms in \<open>simp add: on_frame_def\<close>)

end
