(* ===== verification/Ertm_Claims.thy ===== *)
theory Ertm_Claims
  imports Ertm_Busy
begin

text \<open>
  The properties of the enhanced retransmission mode controller, each with a concrete instance.
\<close>

subsection \<open>Library facts of the claims\<close>

lemma uint_seq_add: "uint (seq_add e i) = (uint e + int i) mod 64"
  using unat_seq_add [of e i] by (metis of_nat_add of_nat_mod of_nat_numeral uint_nat)

lemma mod_64_once: "0 \<le> x \<Longrightarrow> x < 128 \<Longrightarrow> x mod 64 = (if x < 64 then x else x - 64)" for x :: int
  using mod_pos_geq [of 64 x] mod_pos_pos_trivial [of x 64] mod_pos_pos_trivial [of "x - 64" 64]
  by (cases "x < 64") simp_all

lemma honest_ack_int:
  fixes a d k :: int
  assumes "0 \<le> a" "a < 64" "0 \<le> k" "k \<le> d" "d \<le> 10"
  shows "a \<le> (a + k) mod 64 \<or> 64 - (a - (a + k) mod 64) \<le> 10"
    "(a + k) mod 64 \<le> (a + d) mod 64 \<or> 64 - ((a + k) mod 64 - (a + d) mod 64) \<le> 10"
  using assms by (simp_all add: mod_64_once)

lemma honest_ack:
  assumes "local_tx_window s = 10" "expected_ack_seq s < 64" "next_tx_seq s = seq_add (expected_ack_seq s) d"
    "k \<le> d" "d \<le> 10" "r = seq_add (expected_ack_seq s) k"
  shows "with_valid_req_seq r s"
proof -
  have "0 \<le> uint (expected_ack_seq s)" "uint (expected_ack_seq s) < 64" "0 \<le> int k" "int k \<le> int d" "int d \<le> 10"
    using assms by (simp_all add: uint_less_64)
  note int = honest_ack_int [OF this]
  show ?thesis
    unfolding with_valid_req_seq_def sequence_less_than_or_equal_def assms(1,3,6) uint_seq_add
    using int by (simp add: kMaxTxWin_def)
qed

lemma process_req_seq_count:
  assumes "expected_ack_seq s < 64" "k < 64"
  shows "unacked_frames (process_req_seq (seq_add (expected_ack_seq s) k) s) = unacked_frames s - int k"
proof -
  have "uint (seq_add (expected_ack_seq s) k) = (uint (expected_ack_seq s) + int k) mod 64"
    using unat_seq_add [of "expected_ack_seq s" k] by (metis of_nat_add of_nat_mod of_nat_numeral uint_nat)
  then show ?thesis
    using assms(2) by (simp add: process_req_seq_eq Let_def mod_diff_left_eq)
qed

text \<open>In WAIT\_F with the final bit clear nothing is passed on.\<close>

lemma wait_f_i_frame:
  "tx_state s = WAIT_F \<Longrightarrow> recv_i_frame F_NOT_SET t r sar n p s \<in> {Some s, Some (CloseChannel s)}"
  by (cases "rx_state s") (simp_all add: recv_i_frame_def with_valid_f_bit_def)

text \<open>Polling.\<close>

definition poll_pdu :: "ertm \<Rightarrow> ertm_pdu" where
  "poll_pdu s = SFrame (fcs_enabled s) (ertm_remote_cid s)
     (if local_busy s then RECEIVER_NOT_READY else RECEIVER_READY) POLL F_NOT_SET (buffer_seq s)"

lemma monitor_fires_poll:
  "tx_state s = WAIT_F \<Longrightarrow> retry_count s < uint (local_max_transmit s) \<Longrightarrow>
   monitor_timer_fires s = s\<lparr>monitor_timer := Some (unat (local_monitor_timeout_ms s)),
     retry_count := retry_count s + 1, pdu_queue := pdu_queue s @ [poll_pdu s],
     ertm_effects := ertm_effects s @ [OnPacketsReady (ertm_cid s) 1]\<rparr>"
  by (simp add: monitor_timer_fires_def monitor_timer_expires_def retry_count_less_than_max_transmit_def
      send_rr_or_rnr_def send_s_frame_def send_pdu_def start_monitor_timer_def poll_pdu_def)

lemma monitor_fires_iter:
  assumes "tx_state s = WAIT_F" "retry_count s + int k \<le> uint (local_max_transmit s)"
  shows "\<exists>m. (monitor_timer_fires ^^ k) s = s\<lparr>monitor_timer := m, retry_count := retry_count s + int k,
     pdu_queue := pdu_queue s @ replicate k (poll_pdu s),
     ertm_effects := ertm_effects s @ replicate k (OnPacketsReady (ertm_cid s) 1)\<rparr>"
  using assms(2)
proof (induction k)
  case 0
  then show ?case by (intro exI [of _ "monitor_timer s"]) simp
next
  case (Suc k)
  then obtain m where m: "(monitor_timer_fires ^^ k) s = s\<lparr>monitor_timer := m, retry_count := retry_count s + int k,
     pdu_queue := pdu_queue s @ replicate k (poll_pdu s),
     ertm_effects := ertm_effects s @ replicate k (OnPacketsReady (ertm_cid s) 1)\<rparr>" by auto
  show ?case
    using Suc.prems assms(1)
    by (intro exI [of _ "Some (unat (local_monitor_timeout_ms s))"])
      (simp add: m monitor_fires_poll poll_pdu_def replicate_append_same ac_simps)
qed

text \<open>A controller that stays busy for ever.\<close>

definition ertm_stuck :: "ertm \<Rightarrow> bool" where
  "ertm_stuck s \<longleftrightarrow> rx_state s = RECV \<and> local_busy s \<and> eb_buffer (enqueue_buffer s) = [] \<and>
     \<not> callback_on_empty (enqueue_buffer s)"

lemma tx_frame_stuck: "tx_frame s s' \<Longrightarrow> ertm_stuck s \<Longrightarrow> ertm_stuck s'"
  by (simp add: tx_frame_def rx_part_def ertm_stuck_def)

lemma stuck_i_frame: "ertm_stuck s \<Longrightarrow> r < 64 \<Longrightarrow> tx_frame_option s (recv_i_frame f t r sar n p s)"
  by (simp add: ertm_stuck_def recv_i_frame_def)

lemma stuck_on_frame: "ertm_stuck s \<Longrightarrow> wf_view v \<Longrightarrow> tx_frame_option s (on_frame v s)"
proof (cases v)
  case (SFrameView fn p f r)
  assume "wf_view v"
  then show ?thesis
    using SFrameView tx_frame_recv_rr [of r s p f] tx_frame_recv_rej [of r s p f]
      tx_frame_recv_rnr [of r s p f] tx_frame_recv_srej [of r s p f]
    by (cases fn) (simp_all add: on_frame_def)
qed (auto simp: on_frame_def stuck_i_frame)

lemma stuck_forever: "ertm_reach s n s' \<Longrightarrow> ertm_stuck s \<Longrightarrow> ertm_stuck s'"
proof (induction rule: ertm_reach.induct)
  case (reach_sdu n s1 sdu s')
  then show ?case using OnSdu_frame [of s1 sdu] tx_frame_stuck by simp
next
  case (reach_pdu n s1 v s')
  then show ?case using stuck_on_frame [of s1 v] tx_frame_stuck by simp
next
  case (reach_upper n s1 sdu s')
  then show ?case by (simp add: ertm_upper_dequeue_def eb_enqueue_callback_def ertm_stuck_def)
next
  case (reach_get n s1 pdu s')
  then show ?case by (auto simp: ertm_GetNextPacket_def ertm_stuck_def split: list.split_asm)
qed (use timer_fires_frame tx_frame_stuck in blast)+


subsection \<open>Invariant and interface\<close>

text \<open>
  C3: in every state a configured controller can reach, all sequence numbers are below 64, the
  receiver's two counters agree, the number of unacknowledged frames is congruent to the distance
  between the next and the expected acknowledged sequence number and never exceeds the remote
  window, stored frames have keys below 64, and the upper queue is registered exactly while
  an SDU waits in it.
\<close>

theorem ertm_reachable_invariant:
  assumes "ertm_reach (ertm_configured cid rcid fcs opt) n s"
  shows "next_tx_seq s < 64 \<and> expected_ack_seq s < 64 \<and> expected_tx_seq s < 64 \<and>
    buffer_seq s = expected_tx_seq s \<and>
    (unacked_frames s - (uint (next_tx_seq s) - uint (expected_ack_seq s))) mod 64 = 0 \<and>
    unacked_frames s \<le> uint (tx_window_size opt) \<and> dom (unacked_list s) \<subseteq> {k. k < 64} \<and>
    (enqueue_registered (enqueue_buffer s) \<longleftrightarrow> eb_buffer (enqueue_buffer s) \<noteq> [])"
proof -
  have "ertm_inv s" "config_part s = config_part (ertm_configured cid rcid fcs opt)"
    using ertm_reach_inv [OF assms ertm_init_inv(1)] by simp_all
  moreover from this have "uint (remote_tx_window s) = uint (tx_window_size opt)"
    by (simp add: config_part_def ertm_configured_def ertm_EnableFcs_def
        ertm_SetRetransmissionAndFlowControlOptions_def uint_up_ucast is_up)
  ultimately show ?thesis
    by (auto simp: ertm_inv_def ertm_tx_inv_def ertm_rx_inv_def eb_ok_def)
qed

definition sample_options :: RetransmissionAndFlowControlConfigurationOption where
  "sample_options = \<lparr>rfc_mode = ENHANCED_RETRANSMISSION, tx_window_size = 1, max_transmit = 3,
     retransmission_time_out = 2000, monitor_time_out = 12000, maximum_pdu_size = 12\<rparr>"

abbreviation sample_ertm :: ertm where
  "sample_ertm \<equiv> ertm_configured 64 65 False sample_options"

lemma sample_configured:
  "sample_ertm = (ErtmController 64 65)\<lparr>remote_tx_window := 1, local_max_transmit := 3, remote_mps := 12\<rparr>"
  by (simp add: ertm_configured_def ertm_EnableFcs_def ertm_SetRetransmissionAndFlowControlOptions_def
      sample_options_def ErtmController_def)

lemma OnSdu_one_segment:
  assumes "0 < length sdu" "length sdu \<le> size_each_packet s"
  shows "ertm_OnSdu sdu s = Some (data_request UNSEGMENTED sdu 0 s)"
proof -
  have "0 < size_each_packet s" using assms by linarith
  from segments_of_chunks [OF this] have "segments_of (size_each_packet s) sdu = Some [sdu]"
    using assms by (simp add: chunks_short)
  then show ?thesis by (simp add: ertm_OnSdu_def request_segments_def)
qed

definition sample_sent :: ertm where
  "sample_sent = data_request UNSEGMENTED [7] 0 sample_ertm"

lemma sample_sent_state:
  "ertm_OnSdu [7] sample_ertm = Some sample_sent" "next_tx_seq sample_sent = 1"
  "unacked_frames sample_sent = 1"
  "ertm_effects sample_sent = [OnPacketsReady 64 1]" "pdu_queue sample_sent = [IFrame False 65 0 F_NOT_SET 0 UNSEGMENTED [7]]"
  "retrans_timer sample_sent = Some 2000" "unacked_list sample_sent = [0 \<mapsto> (UNSEGMENTED, 0, [7])]"
  unfolding sample_sent_def
  by (subst OnSdu_one_segment)
    (simp_all add: sample_configured ErtmController_def size_each_packet_def data_request_def
      rem_window_not_full_def send_data_def Let_def map_emplace_def send_i_frame_def send_pdu_def
      start_retrans_timer_def kMaxTxWin_def)

theorem ertm_reachable_invariant_witness:
  "ertm_reach sample_ertm 0 sample_sent \<and> unacked_frames sample_sent \<le> uint (tx_window_size sample_options)"
  using reach_sdu [OF reach_init sample_sent_state(1)] ertm_reachable_invariant [of 64 65 False sample_options 0 sample_sent]
  by simp

text \<open>
  C14: a PDU the controller has announced to the scheduler is there when it is fetched.  If fewer
  packets were fetched than announced, GetNextPacket returns one.
\<close>

theorem ertm_announced_packets_available:
  assumes "ertm_reach (ertm_configured cid rcid fcs opt) n s" "int n < announced (ertm_effects s)"
  shows "\<exists>pdu s'. ertm_GetNextPacket s = Some (pdu, s')"
proof -
  have "announced (ertm_effects s) = int (length (pdu_queue s)) + int n"
    using ertm_reach_inv [OF assms(1) ertm_init_inv(1)] ertm_init_inv(2) by (simp add: ertm_balance_def)
  with assms(2) show ?thesis by (cases "pdu_queue s") (auto simp: ertm_GetNextPacket_def)
qed

theorem ertm_announced_packets_available_witness:
  "\<exists>pdu s'. ertm_GetNextPacket sample_sent = Some (pdu, s')"
  using ertm_announced_packets_available [OF reach_sdu [OF reach_init sample_sent_state(1)]]
  by (simp add: sample_sent_state)


subsection \<open>Delivery\<close>

text \<open>
  C2: whatever frames arrive, in whatever order, the I-frames a receiver takes are a subsequence
  of them numbered consecutively modulo 64 from the expected sequence number, and the delivered
  SDUs and the SDU under reassembly are exactly the result of staging those frames in order.
\<close>

theorem ertm_receiver_in_sequence:
  assumes "ertm_reach (ertm_configured cid rcid fcs opt) n s"
    and "list_all wf_view vs" "foldM on_frame vs s = Some s'"
  shows "\<exists>taken. subseq taken (concat (map i_frame_of vs)) \<and>
      map fst taken = map (seq_add (expected_tx_seq s)) [0..<length taken] \<and>
      map_option rx_data (foldM stage_frame taken s) = Some (rx_data s') \<and>
      expected_tx_seq s' = seq_add (expected_tx_seq s) (length taken)"
  using frames_in_sequence [OF assms(3,2)] ertm_reach_inv [OF assms(1) ertm_init_inv(1)]
  by (simp add: ertm_inv_def ertm_rx_inv_def)

definition sample_frame :: frame_view where
  "sample_frame = IFrameView F_NOT_SET 0 0 UNSEGMENTED 0 (PacketView [9])"

lemma sample_frame_taken: "\<exists>s'. on_frame sample_frame sample_ertm = Some s' \<and> expected_tx_seq s' = 1"
  by (simp add: sample_frame_def sample_configured ErtmController_def on_frame_def recv_i_frame_def
      with_expected_tx_seq_def with_valid_req_seq_def sequence_less_than_or_equal_def with_valid_f_bit_def
      increment_expected_tx_seq_def pass_to_tx_def recv_req_seq_and_f_bit_def process_req_seq_eq Let_def
      data_indication_def deliver_sdu_def eb_Size_def eb_Enqueue_def EnqueueBuffer_def
      kEnqueueBufferBusyThreshold_def send_ack_def send_rr_f_def send_s_frame_def send_pdu_def kMaxTxWin_def)

theorem ertm_receiver_in_sequence_witness:
  "\<exists>s' taken. on_frame sample_frame sample_ertm = Some s' \<and>
     subseq taken (i_frame_of sample_frame) \<and> length taken = 1 \<and>
     map_option rx_data (foldM stage_frame taken sample_ertm) = Some (rx_data s')"
proof -
  obtain s' where s': "on_frame sample_frame sample_ertm = Some s'" "expected_tx_seq s' = 1"
    using sample_frame_taken by blast
  have six: "wf_view sample_frame" by (simp add: sample_frame_def)
  have e: "expected_tx_seq sample_ertm = 0" by (simp add: sample_configured ErtmController_def)
  have "\<exists>taken. subseq taken (concat (map i_frame_of [sample_frame])) \<and>
      map fst taken = map (seq_add (expected_tx_seq sample_ertm)) [0..<length taken] \<and>
      map_option rx_data (foldM stage_frame taken sample_ertm) = Some (rx_data s') \<and>
      expected_tx_seq s' = seq_add (expected_tx_seq sample_ertm) (length taken)"
    by (rule ertm_receiver_in_sequence [OF reach_init]) (simp_all add: s' six)
  then obtain taken where t: "subseq taken (i_frame_of sample_frame)"
      "map_option rx_data (foldM stage_frame taken sample_ertm) = Some (rx_data s')"
      "1 = seq_add 0 (length taken)"
    using s' e by auto
  have "length taken \<le> 1" using list_emb_length [OF t(1)] by (simp add: sample_frame_def)
  moreover have "length taken \<noteq> 0" using t(3) by (auto simp: seq_add_def)
  ultimately have "length taken = 1" by linarith
  with t s' show ?thesis by blast
qed

text \<open>
  The segments OnSdu cuts an SDU into, carried by frames with the segmentation tags OnSdu
  gives them, are reassembled into exactly that SDU, which is appended to the upper queue.
\<close>

theorem ertm_segmentation_roundtrip:
  assumes "segments_of (size_each_packet a) sdu = Some segs" "sdu \<noteq> []" "0 < size_each_packet a"
    and "map frame_content frames = tagged (size_u16 (length sdu)) segs" "list_all frame_ok frames"
    and "sar_state b = END" "can_deliver b"
  shows "\<exists>b'. foldM stage_frame frames b = Some b' \<and> delivers b sdu b'"
proof -
  have segs: "segs = chunks (size_each_packet a) sdu"
    using assms(1) segments_of_chunks [OF assms(3)] by simp
  have "concat segs = sdu" "segs \<noteq> []" "\<forall>x\<in>set segs. x \<noteq> []"
    using assms(2,3) chunks_bound [of "[]"] by (auto simp: segs concat_chunks chunks_empty_iff)
  then show ?thesis
    using reassembly_of_segments [of segs frames b] assms(4-7) by simp
qed

theorem ertm_segmentation_roundtrip_witness:
  "\<exists>b'. foldM stage_frame [(0, START, 6, PacketView [1, 2, 3, 4]), (1, END, 0, PacketView [5, 6])] sample_ertm = Some b' \<and>
     delivers sample_ertm [1, 2, 3, 4, 5, 6] b'"
proof (rule ertm_segmentation_roundtrip [of sample_ertm _ "[[1, 2, 3, 4], [5, 6]]"])
  have "size_each_packet sample_ertm = 4"
    by (simp add: size_each_packet_def sample_configured ErtmController_def)
  then show "segments_of (size_each_packet sample_ertm) [1, 2, 3, 4, 5, 6] = Some [[1, 2, 3, 4], [5, 6]]"
    and "0 < size_each_packet sample_ertm"
    by (simp_all add: segments_of_chunks chunks.simps)
qed (simp_all add: frame_content_def frame_ok_def can_deliver_def sample_configured ErtmController_def EnqueueBuffer_def)




subsection \<open>Acknowledgements, polling and errors\<close>

text \<open>
  No supervisory frame makes the controller abort or loop: in every reachable state the
  handlers of RR, RNR, REJ and SREJ return, the retransmission loop included.
\<close>

theorem ertm_supervisory_frames_handled:
  assumes "ertm_reach (ertm_configured cid rcid fcs opt) n s" "req_seq < 64"
  shows "\<exists>s'. on_frame (SFrameView fn p f req_seq) s = Some s'"
proof -
  have "ertm_tx_inv s" using ertm_reach_inv [OF assms(1) ertm_init_inv(1)] by (simp add: ertm_inv_def)
  from recv_total [OF this assms(2), of p f] show ?thesis by (cases fn) (auto simp: on_frame_def)
qed

theorem ertm_supervisory_frames_handled_witness:
  "\<exists>s'. on_frame (SFrameView REJECT P_NOT_SET F_NOT_SET 0) sample_sent = Some s'"
  using ertm_supervisory_frames_handled [OF reach_sdu [OF reach_init sample_sent_state(1)], of 0] by simp

text \<open>
  C27: while at most ten frames are outstanding and the count is exact, an acknowledgement of the
  first k of them is accepted, and the count is exact again afterwards.
\<close>

theorem ertm_honest_acks_accepted:
  assumes "ertm_reach (ertm_configured cid rcid fcs opt) n s"
    and "next_tx_seq s = seq_add (expected_ack_seq s) d" "unacked_frames s = int d" "d \<le> 10" "k \<le> d"
  shows "with_valid_req_seq (seq_add (expected_ack_seq s) k) s \<and>
    unacked_frames (process_req_seq (seq_add (expected_ack_seq s) k) s) = int (d - k) \<and>
    next_tx_seq s = seq_add (seq_add (expected_ack_seq s) k) (d - k)"
proof -
  have "ertm_tx_inv s" using ertm_reach_inv [OF assms(1) ertm_init_inv(1)] by (simp add: ertm_inv_def)
  then have "local_tx_window s = 10" "expected_ack_seq s < 64" by (simp_all add: ertm_tx_inv_def)
  then show ?thesis
    using honest_ack [OF _ _ assms(2,5,4) refl] process_req_seq_count [of s k] assms
    by (simp add: seq_add_add of_nat_diff)
qed

theorem ertm_honest_acks_accepted_witness:
  "with_valid_req_seq (seq_add (expected_ack_seq sample_sent) 1) sample_sent \<and>
   unacked_frames (process_req_seq (seq_add (expected_ack_seq sample_sent) 1) sample_sent) = 0"
proof -
  have "expected_ack_seq sample_sent = 0"
    by (simp add: sample_sent_def sample_configured ErtmController_def data_request_def
        rem_window_not_full_def send_data_def Let_def send_i_frame_def send_pdu_def start_retrans_timer_def)
  then show ?thesis
    using ertm_honest_acks_accepted [OF reach_sdu [OF reach_init sample_sent_state(1)], of 1 1]
    by (simp add: sample_sent_state seq_add_def)
qed




text \<open>
  C26: the only received frame that can abort a reachable controller is a continuation or end
  fragment that arrives while the SDU under reassembly was started by a frame with no payload.
\<close>

theorem ertm_only_abort:
  assumes "ertm_reach (ertm_configured cid rcid fcs opt) n s" "wf_view v" "on_frame v s = None"
  shows "\<exists>f t r sar k p. v = IFrameView f t r sar k p \<and> sar \<in> {CONTINUATION, END} \<and>
    sar_state s \<noteq> END \<and> fragments (reassembly_stage s) = []"
  using on_frame_None [OF assms(3,2)] ertm_reach_inv [OF assms(1) ertm_init_inv(1)]
    reach_busy [OF assms(1) init_busy] by blast

definition no_payload :: packet_view where
  "no_payload = \<lparr>fragments = [], pv_length = 0\<rparr>"

lemmas ertm_eval = on_frame_def recv_i_frame_def with_expected_tx_seq_def with_valid_req_seq_def
  sequence_less_than_or_equal_def sequence_less_than_def with_valid_f_bit_def with_duplicate_tx_seq_def
  increment_expected_tx_seq_def pass_to_tx_def recv_req_seq_and_f_bit_def process_req_seq_eq Let_def
  data_indication_def deliver_sdu_def eb_Size_def eb_Enqueue_def EnqueueBuffer_def eb_NotifyOnEmpty_def
  kEnqueueBufferBusyThreshold_def send_ack_def send_rr_f_def send_rnr_f_def send_s_frame_def send_pdu_def
  kMaxTxWin_def local_busy_detected_def acked_range_def

lemmas ertm_start = sample_configured ErtmController_def

text \<open>The state after the empty start fragment.\<close>

definition sample_started :: ertm where
  "sample_started = the (on_frame (IFrameView F_NOT_SET 0 0 START 4 no_payload) sample_ertm)"

lemma sample_started_state:
  "on_frame (IFrameView F_NOT_SET 0 0 START 4 no_payload) sample_ertm = Some sample_started"
  "on_frame (IFrameView F_NOT_SET 1 0 CONTINUATION 0 (PacketView [1, 2])) sample_started = None"
  by (simp_all add: sample_started_def ertm_start ertm_eval no_payload_def Append_no_fragments)

theorem ertm_only_abort_witness:
  "\<exists>f t r sar k p. IFrameView F_NOT_SET 1 0 CONTINUATION 0 (PacketView [1, 2]) = IFrameView f t r sar k p \<and>
    sar \<in> {CONTINUATION, END} \<and> sar_state sample_started \<noteq> END \<and> fragments (reassembly_stage sample_started) = []"
proof (rule ertm_only_abort [OF reach_pdu [OF reach_init _ sample_started_state(1)] _ sample_started_state(2)])
  show "wf_view (IFrameView F_NOT_SET 0 0 START 4 no_payload)"
    by (simp add: no_payload_def pv_ok_def)
qed simp

subsection \<open>Where the promise breaks\<close>

text \<open>
  A busy condition that ends while the transmitter waits for a poll response is never
  cleared: from a state with the busy flag set, the upper queue empty and no callback registered,
  no sequence of events ever delivers an SDU again.
\<close>

theorem ertm_local_busy_never_cleared:
  assumes "ertm_stuck s" "ertm_reach s n s'"
  shows "local_busy s' \<and> eb_buffer (enqueue_buffer s') = []"
  using stuck_forever [OF assms(2,1)] by (simp add: ertm_stuck_def)

text \<open>Three SDUs arrive, the retransmission timer expires, and only then are they taken.\<close>

definition sdu_frame :: "u8 \<Rightarrow> frame_view" where
  "sdu_frame t = IFrameView F_NOT_SET t 0 UNSEGMENTED 0 (PacketView [1])"

definition sample_filled :: ertm where
  "sample_filled = the (foldM on_frame [sdu_frame 0, sdu_frame 1, sdu_frame 2] sample_sent)"

lemma sample_sent_eq:
  "sample_sent = sample_ertm\<lparr>unacked_list := [0 \<mapsto> (UNSEGMENTED, 0, [7])], unacked_frames := 1, frames_sent := 1,
     retry_i_frames := (\<lambda>_. 0)(0 := 1), next_tx_seq := 1, retrans_timer := Some 2000,
     pdu_queue := [IFrame False 65 0 F_NOT_SET 0 UNSEGMENTED [7]], ertm_effects := [OnPacketsReady 64 1]\<rparr>"
  by (simp add: sample_sent_def ertm_start data_request_def
      rem_window_not_full_def send_data_def Let_def map_emplace_def send_i_frame_def send_pdu_def
      start_retrans_timer_def kMaxTxWin_def)

lemma sample_filled_state:
  "foldM on_frame [sdu_frame 0, sdu_frame 1, sdu_frame 2] sample_sent = Some sample_filled"
  "rx_state sample_filled = RECV" "tx_state sample_filled = XMIT" "local_busy sample_filled"
  "enqueue_buffer sample_filled = \<lparr>eb_buffer = [PacketView [1], PacketView [1], PacketView [1]],
     enqueue_registered = True, callback_on_empty = True\<rparr>"
  "retrans_timer sample_filled = Some 2000"
  by (simp_all add: sample_filled_def sdu_frame_def sample_sent_eq ertm_start ertm_eval)


lemma reach_frames:
  "ertm_reach s0 n s \<Longrightarrow> list_all wf_view vs \<Longrightarrow> foldM on_frame vs s = Some s' \<Longrightarrow> ertm_reach s0 n s'"
  by (induction vs arbitrary: s) (auto simp: bind_eq_Some_conv intro: reach_pdu)

definition sample_waiting :: ertm where
  "sample_waiting = retrans_timer_fires sample_filled"

lemma sample_waiting_state:
  "rx_state sample_waiting = RECV" "tx_state sample_waiting = WAIT_F" "local_busy sample_waiting"
  "enqueue_buffer sample_waiting = enqueue_buffer sample_filled"
  by (simp_all add: sample_waiting_def retrans_timer_fires_def retrans_timer_expires_def sample_filled_state Let_def
      send_rr_or_rnr_def send_s_frame_def send_pdu_def start_monitor_timer_def)

lemma sample_waiting_reach: "ertm_reach sample_ertm 0 sample_waiting"
proof -
  have "ertm_reach sample_ertm 0 sample_filled"
    by (rule reach_frames [OF reach_sdu [OF reach_init sample_sent_state(1)] _ sample_filled_state(1)])
      (simp add: sdu_frame_def)
  then show ?thesis
    unfolding sample_waiting_def by (rule reach_retrans) (simp add: sample_filled_state)
qed

definition taken_from :: "packet_view enqueue_buffer \<Rightarrow> ertm" where
  "taken_from b = sample_waiting\<lparr>enqueue_buffer := b\<rparr>"

lemma sample_stuck_reach:
  "\<exists>s. ertm_reach sample_ertm 0 s \<and> ertm_stuck s"
proof -
  let ?b = "\<lambda>k r c. \<lparr>eb_buffer = replicate k (PacketView [1]), enqueue_registered = r, callback_on_empty = c\<rparr>"
  have 3: "sample_waiting = taken_from (?b 3 True True)"
    by (simp add: taken_from_def sample_waiting_state(4) [unfolded sample_filled_state(5), symmetric] eval_nat_numeral)
  have "ertm_upper_dequeue (taken_from (?b 3 True True)) = Some (PacketView [1], taken_from (?b 2 True True))"
    "ertm_upper_dequeue (taken_from (?b 2 True True)) = Some (PacketView [1], taken_from (?b 1 True True))"
    "ertm_upper_dequeue (taken_from (?b 1 True True)) = Some (PacketView [1], taken_from (?b 0 False False))"
    by (simp_all add: ertm_upper_dequeue_def eb_enqueue_callback_def taken_from_def eval_nat_numeral
        local_busy_clear_def sample_waiting_state Let_def)
  note step = reach_upper [OF _ this(1)] reach_upper [OF _ this(2)] reach_upper [OF _ this(3)]
  have "ertm_reach sample_ertm 0 (taken_from (?b 0 False False))"
    by (intro step sample_waiting_reach [unfolded 3])
  moreover have "ertm_stuck (taken_from (?b 0 False False))"
    by (simp add: ertm_stuck_def taken_from_def sample_waiting_state)
  ultimately show ?thesis by blast
qed

theorem ertm_local_busy_never_cleared_witness:
  "\<exists>s. ertm_reach sample_ertm 0 s \<and> ertm_stuck s \<and> local_busy s \<and> eb_buffer (enqueue_buffer s) = []"
  using sample_stuck_reach ertm_local_busy_never_cleared [OF _ reach_init] by blast

text \<open>
  SDUs can be reordered.  With a remote window of one, a second SDU waits for the first to
  be acknowledged; when the acknowledgement comes with a duplicate I-frame, a third SDU is sent
  while the second is still waiting.
\<close>

theorem ertm_pending_overtaken:
  "\<exists>s s'. ertm_reach sample_ertm 0 s \<and> pending_frames s = [(UNSEGMENTED, 0, [8])] \<and>
     ertm_OnSdu [9] s = Some s' \<and> pending_frames s' = [(UNSEGMENTED, 0, [8])] \<and>
     last (pdu_queue s') = IFrame False 65 1 F_NOT_SET 0 UNSEGMENTED [9]"
proof -
  let ?pended = "sample_sent\<lparr>pending_frames := [(UNSEGMENTED, 0, [8])]\<rparr>"
  have 1: "ertm_OnSdu [8] sample_sent = Some ?pended"
    by (subst OnSdu_one_segment) (simp_all add: sample_sent_eq ertm_start size_each_packet_def
        data_request_def rem_window_not_full_def rem_window_full_def pend_data_def)
  let ?acked = "process_req_seq 1 ?pended"
  have 2: "on_frame (IFrameView F_NOT_SET 63 1 UNSEGMENTED 0 (PacketView [5])) ?pended = Some ?acked"
    by (simp add: sample_sent_eq ertm_start on_frame_def recv_i_frame_def with_expected_tx_seq_def
        with_valid_req_seq_def sequence_less_than_or_equal_def sequence_less_than_def with_valid_f_bit_def
        with_duplicate_tx_seq_def pass_to_tx_def recv_req_seq_and_f_bit_def kMaxTxWin_def)
  have "ertm_reach sample_ertm 0 ?acked"
    by (rule reach_pdu [OF reach_sdu [OF reach_sdu [OF reach_init sample_sent_state(1)] 1] _ 2]) simp
  moreover have "ertm_OnSdu [9] ?acked = Some (data_request UNSEGMENTED [9] 0 ?acked)"
    by (rule OnSdu_one_segment) (simp_all add: sample_sent_eq ertm_start process_req_seq_eq Let_def size_each_packet_def)
  ultimately show ?thesis
    by (intro exI [of _ ?acked] exI [of _ "data_request UNSEGMENTED [9] 0 ?acked"])
      (simp add: sample_sent_eq ertm_start process_req_seq_eq Let_def data_request_def
        rem_window_not_full_def send_data_def send_i_frame_def send_pdu_def start_retrans_timer_def
        map_emplace_def acked_range_def)
qed

text \<open>
  An acknowledgement of frames that were never sent can be accepted: with one frame
  outstanding, RR with request sequence number 57 makes the count negative, and the remote
  window of one then admits 57 further frames.
\<close>

theorem ertm_unsent_frames_acknowledged:
  "\<exists>s. on_frame (SFrameView RECEIVER_READY P_NOT_SET F_NOT_SET 57) sample_sent = Some s \<and>
     unacked_frames s = - 56 \<and> room s = 57"
  by (simp add: sample_sent_eq ertm_start on_frame_def recv_rr_def
        with_valid_req_seq_def sequence_less_than_or_equal_def with_valid_f_bit_def
        pass_to_tx_def recv_req_seq_and_f_bit_def kMaxTxWin_def process_req_seq_eq Let_def
        send_pending_i_frames_def p_bit_outstanding_def room_def)

text \<open>
  An acknowledgement without the final bit that arrives while a poll is outstanding closes
  the channel when the acknowledged range wraps around, although it is a valid acknowledgement.
\<close>

theorem ertm_wrapped_ack_closes_channel:
  assumes "tx_state s = WAIT_F" "rx_state s = RECV" "req_seq < expected_ack_seq s"
  shows "recv_rr req_seq p F_NOT_SET s = Some (CloseChannel s)"
  using assms
  by (simp add: recv_rr_def with_valid_f_bit_def with_invalid_req_seq_def sequence_less_than_def word_less_def)

theorem ertm_wrapped_ack_closes_channel_witness:
  "let s = sample_ertm\<lparr>tx_state := WAIT_F, expected_ack_seq := 62, next_tx_seq := 2\<rparr>
   in with_valid_req_seq 1 s \<and> recv_rr 1 P_NOT_SET F_NOT_SET s = Some (CloseChannel s)"
  using ertm_wrapped_ack_closes_channel
    [of "sample_ertm\<lparr>tx_state := WAIT_F, expected_ack_seq := 62, next_tx_seq := 2\<rparr>" 1 P_NOT_SET]
  by (simp add: ertm_start with_valid_req_seq_def sequence_less_than_or_equal_def kMaxTxWin_def Let_def)



end
