(* ===== verification/L2cap_Packets.thy ===== *)
theory L2cap_Packets
  imports Ertm
begin

text \<open>
  The frames of l2cap\_packets.pdl that the enhanced retransmission mode uses, as bytes.  The
  builders and views are generated from the packet description; \<open>encode_pdu\<close> lays the fields out
  in the order and with the widths the description gives, and \<open>parse_frame\<close>, \<open>parse_frame_fcs\<close>
  check what the description fixes (the length field, the fields' extent, the fixed bit, the
  checksum) and read the fields back.  The controller takes the two parse functions as
  parameters.
\<close>

definition le16 :: "u16 \<Rightarrow> bytes" where
  "le16 w = [ucast w, ucast (drop_bit 8 w)]"

definition of_le16 :: "u8 \<Rightarrow> u8 \<Rightarrow> u16" where
  "of_le16 lo hi = ucast lo OR push_bit 8 (ucast hi)"

fun final_bit :: "Final \<Rightarrow> u8" where
  "final_bit F_NOT_SET = 0" | "final_bit POLL_RESPONSE = 1"

fun poll_bit :: "Poll \<Rightarrow> u8" where
  "poll_bit P_NOT_SET = 0" | "poll_bit POLL = 1"

fun sar_bits :: "SegmentationAndReassembly \<Rightarrow> u8" where
  "sar_bits UNSEGMENTED = 0" | "sar_bits START = 1" | "sar_bits END = 2" | "sar_bits CONTINUATION = 3"

fun s_bits :: "SupervisoryFunction \<Rightarrow> u8" where
  "s_bits RECEIVER_READY = 0" | "s_bits REJECT = 1" | "s_bits RECEIVER_NOT_READY = 2"
| "s_bits SELECT_REJECT = 3"

definition information_control :: "u8 \<Rightarrow> Final \<Rightarrow> u8 \<Rightarrow> SegmentationAndReassembly \<Rightarrow> bytes" where
  "information_control tx_seq f req_seq sar =
     [push_bit 1 tx_seq OR push_bit 7 (final_bit f), req_seq OR push_bit 6 (sar_bits sar)]"

definition supervisory_control :: "SupervisoryFunction \<Rightarrow> Poll \<Rightarrow> Final \<Rightarrow> u8 \<Rightarrow> bytes" where
  "supervisory_control fn p f req_seq =
     [1 OR push_bit 2 (s_bits fn) OR push_bit 4 (poll_bit p) OR push_bit 7 (final_bit f), req_seq]"

definition basic_frame :: "Cid \<Rightarrow> bytes \<Rightarrow> bytes" where
  "basic_frame cid payload = le16 (size_u16 (length payload)) @ le16 cid @ payload"

definition basic_frame_fcs :: "Cid \<Rightarrow> bytes \<Rightarrow> bytes" where
  "basic_frame_fcs cid payload =
     (let frame = le16 (size_u16 (length payload + 2)) @ le16 cid @ payload
      in frame @ le16 (fcs_of frame))"

fun pdu_payload :: "ertm_pdu \<Rightarrow> bytes" where
  "pdu_payload (StartFrame fcs cid tx_seq f req_seq sdu_size segment) =
     information_control tx_seq f req_seq START @ le16 sdu_size @ segment"
| "pdu_payload (IFrame fcs cid tx_seq f req_seq sar segment) =
     information_control tx_seq f req_seq sar @ segment"
| "pdu_payload (SFrame fcs cid fn p f req_seq) = supervisory_control fn p f req_seq"

fun pdu_fcs :: "ertm_pdu \<Rightarrow> bool" where
  "pdu_fcs (StartFrame fcs cid tx_seq f req_seq sdu_size segment) = fcs"
| "pdu_fcs (IFrame fcs cid tx_seq f req_seq sar segment) = fcs"
| "pdu_fcs (SFrame fcs cid fn p f req_seq) = fcs"

fun pdu_cid :: "ertm_pdu \<Rightarrow> Cid" where
  "pdu_cid (StartFrame fcs cid tx_seq f req_seq sdu_size segment) = cid"
| "pdu_cid (IFrame fcs cid tx_seq f req_seq sar segment) = cid"
| "pdu_cid (SFrame fcs cid fn p f req_seq) = cid"

definition encode_pdu :: "ertm_pdu \<Rightarrow> bytes" where
  "encode_pdu pdu =
     (if pdu_fcs pdu then basic_frame_fcs (pdu_cid pdu) (pdu_payload pdu)
      else basic_frame (pdu_cid pdu) (pdu_payload pdu))"

definition final_of :: "u8 \<Rightarrow> Final" where
  "final_of b = (if bit b 7 then POLL_RESPONSE else F_NOT_SET)"

definition poll_of :: "u8 \<Rightarrow> Poll" where
  "poll_of b = (if bit b 4 then POLL else P_NOT_SET)"

definition sar_of :: "u8 \<Rightarrow> SegmentationAndReassembly" where
  "sar_of b = (if bit b 7 then (if bit b 6 then CONTINUATION else END)
               else (if bit b 6 then START else UNSEGMENTED))"

definition s_of :: "u8 \<Rightarrow> SupervisoryFunction" where
  "s_of b = (if bit b 3 then (if bit b 2 then SELECT_REJECT else RECEIVER_NOT_READY)
             else (if bit b 2 then REJECT else RECEIVER_READY))"

definition subview :: "packet_view \<Rightarrow> nat \<Rightarrow> nat \<Rightarrow> packet_view" where
  "subview p b e = (case GetLittleEndianSubview p b e of None \<Rightarrow> PacketView [] | Some v \<Rightarrow> v)"

text \<open>
  The views from the standard frame down; \<open>tail\<close> is the number of bytes after the payload.
\<close>

definition parse_control :: "nat \<Rightarrow> packet_view \<Rightarrow> frame_view" where
  "parse_control tail p =
    (let bs = bytes_of p; n = length bs in
     if n < 5 + tail then InvalidFrame
     else if n < 6 + tail then InvalidFrame
     else let c0 = bs ! 4; c1 = bs ! 5; req_seq = take_bit 6 c1 in
       if \<not> bit c0 0 then
         (let tx_seq = take_bit 6 (drop_bit 1 c0); f = final_of c0; sar = sar_of c1 in
          if sar = START
          then if n < 8 + tail then InvalidFrame
               else IFrameView f tx_seq req_seq sar (of_le16 (bs ! 6) (bs ! 7)) (subview p 8 (n - tail))
          else IFrameView f tx_seq req_seq sar 0 (subview p 6 (n - tail)))
       else if bit c0 1 then InvalidFrame
       else SFrameView (s_of c0) (poll_of c0) (final_of c0) req_seq)"

definition parse_frame :: "packet_view \<Rightarrow> frame_view" where
  "parse_frame p =
    (let bs = bytes_of p; n = length bs in
     if n < 4 then InvalidFrame
     else if n < 4 + unat (of_le16 (bs ! 0) (bs ! 1)) then InvalidFrame
     else parse_control 0 p)"

definition parse_frame_fcs :: "packet_view \<Rightarrow> frame_view" where
  "parse_frame_fcs p =
    (let bs = bytes_of p; n = length bs in
     if n < 6 then InvalidFrame
     else if fcs_of (take (n - 2) bs) \<noteq> of_le16 (bs ! (n - 2)) (bs ! (n - 1)) then InvalidFrame
     else if n < 4 + unat (of_le16 (bs ! 0) (bs ! 1)) then InvalidFrame
     else parse_control 2 p)"


text \<open>
  The basic frame itself, whose payload ends where the size field says, and the first frame of an
  SDU on a credit based channel, whose payload runs to the end of the packet.
\<close>

definition BasicFrameView :: "packet_view \<Rightarrow> (Cid \<times> packet_view) option" where
  "BasicFrameView p =
    (let bs = bytes_of p; n = length bs in
     if n < 4 then None
     else let size = unat (of_le16 (bs ! 0) (bs ! 1)) in
       if n < 4 + size then None else Some (of_le16 (bs ! 2) (bs ! 3), subview p 4 (4 + size)))"

definition FirstLeInformationFrameView :: "packet_view \<Rightarrow> (u16 \<times> packet_view) option" where
  "FirstLeInformationFrameView p =
    (case BasicFrameView p of None \<Rightarrow> None
     | Some _ \<Rightarrow>
       let bs = bytes_of p; n = length bs in
       if n < 6 then None else Some (of_le16 (bs ! 4) (bs ! 5), subview p 6 n))"

subsection \<open>Round trips\<close>

lemma length_le16 [simp]: "length (le16 w) = 2"
  by (simp add: le16_def)

lemma of_le16_le16: "of_le16 (ucast w) (ucast (drop_bit 8 w)) = (w :: u16)"
  unfolding of_le16_def
  by (rule bit_word_eqI) (auto simp: bit_simps)

lemma of_le16_nth [simp]: "of_le16 (le16 w ! 0) (le16 w ! Suc 0) = w"
  by (simp add: le16_def of_le16_le16)

lemma six_bits: "x < 64 \<Longrightarrow> take_bit 6 x = (x :: u8)"
  by (simp add: take_bit_eq_mod unat_arith_simps word_arith_nat_mod)

lemma six_bits_bit: "x < 64 \<Longrightarrow> n \<ge> 6 \<Longrightarrow> \<not> bit (x :: u8) n"
  using six_bits [of x] by (metis bit_take_bit_iff not_less)

lemma six_bits_less: "x < 64 \<Longrightarrow> bit (x :: u8) n \<Longrightarrow> n < 6 \<and> n < 7 \<and> n < 8"
  using six_bits_bit [of x n] by (cases "n < 6") auto

lemma information_control_fields:
  assumes "tx < 64" "r < 64"
  shows "\<not> bit (information_control tx f r sar ! 0) 0"
    "take_bit 6 (drop_bit 1 (information_control tx f r sar ! 0)) = tx"
    "final_of (information_control tx f r sar ! 0) = f"
    "take_bit 6 (information_control tx f r sar ! Suc 0) = r"
    "sar_of (information_control tx f r sar ! Suc 0) = sar"
proof -
  show "\<not> bit (information_control tx f r sar ! 0) 0"
    by (simp add: information_control_def bit_simps del: push_bit_Suc One_nat_def)
  show "take_bit 6 (drop_bit 1 (information_control tx f r sar ! 0)) = tx"
    using six_bits_less [OF assms(1)]
    by (intro bit_word_eqI; cases f) (auto simp: information_control_def bit_simps not_less simp del: push_bit_Suc)
  show "final_of (information_control tx f r sar ! 0) = f"
    using six_bits_bit [OF assms(1), of 6]
    by (cases f) (auto simp: information_control_def bit_simps final_of_def simp del: push_bit_Suc)
  show "take_bit 6 (information_control tx f r sar ! Suc 0) = r"
    using six_bits_less [OF assms(2)]
    by (intro bit_word_eqI; cases sar) (auto simp: information_control_def bit_simps not_less simp del: push_bit_Suc)
  show "sar_of (information_control tx f r sar ! Suc 0) = sar"
    using six_bits_bit [OF assms(2), of 6] six_bits_bit [OF assms(2), of 7]
    by (cases sar) (auto simp: information_control_def bit_simps sar_of_def)
qed

lemma supervisory_control_fields:
  assumes "r < 64"
  shows "bit (supervisory_control fn p f r ! 0) 0" "\<not> bit (supervisory_control fn p f r ! 0) 1"
    "s_of (supervisory_control fn p f r ! 0) = fn" "poll_of (supervisory_control fn p f r ! 0) = p"
    "final_of (supervisory_control fn p f r ! 0) = f"
    "take_bit 6 (supervisory_control fn p f r ! Suc 0) = r"
proof -
  show "take_bit 6 (supervisory_control fn p f r ! Suc 0) = r"
    using assms by (simp add: supervisory_control_def six_bits)
qed (cases fn; cases p; cases f; simp add: supervisory_control_def bit_simps s_of_def poll_of_def final_of_def)+


text \<open>What a received frame shows of the PDU that was built.\<close>

fun shows_pdu :: "ertm_pdu \<Rightarrow> frame_view \<Rightarrow> bool" where
  "shows_pdu (StartFrame fcs cid tx_seq f req_seq sdu_size segment) v \<longleftrightarrow>
     (\<exists>p. v = IFrameView f tx_seq req_seq START sdu_size p \<and> pv_ok p \<and> bytes_of p = segment)"
| "shows_pdu (IFrame fcs cid tx_seq f req_seq sar segment) v \<longleftrightarrow>
     (\<exists>p. v = IFrameView f tx_seq req_seq sar 0 p \<and> pv_ok p \<and> bytes_of p = segment)"
| "shows_pdu (SFrame fcs cid fn p f req_seq) v \<longleftrightarrow> v = SFrameView fn p f req_seq"

fun wf_pdu :: "ertm_pdu \<Rightarrow> bool" where
  "wf_pdu (StartFrame fcs cid tx_seq f req_seq sdu_size segment) \<longleftrightarrow>
     tx_seq < 64 \<and> req_seq < 64 \<and> length segment < 65530"
| "wf_pdu (IFrame fcs cid tx_seq f req_seq sar segment) \<longleftrightarrow>
     tx_seq < 64 \<and> req_seq < 64 \<and> sar \<noteq> START \<and> length segment < 65530"
| "wf_pdu (SFrame fcs cid fn p f req_seq) \<longleftrightarrow> req_seq < 64"

lemma wf_pdu_length: "wf_pdu pdu \<Longrightarrow> length (pdu_payload pdu) + 2 < 65536 \<and> 2 \<le> length (pdu_payload pdu)"
  by (cases pdu) (auto simp: information_control_def supervisory_control_def)

lemma subview_facts:
  assumes "pv_ok p" "b \<le> e" "e \<le> pv_length p"
  shows "pv_ok (subview p b e) \<and> bytes_of (subview p b e) = take (e - b) (drop b (bytes_of p))"
  by (rule GetLittleEndianSubview_Some [OF assms]) (simp add: subview_def)

lemma parse_control_frame:
  assumes wf: "wf_pdu pdu" and bs: "bytes_of p = hdr @ pdu_payload pdu @ trail" and ok: "pv_ok p"
    and hdr: "length hdr = 4" and trail: "length trail = tail"
  shows "shows_pdu pdu (parse_control tail p)"
proof (cases pdu)
  case (StartFrame fcs cid tx f r n seg)
  let ?c = "information_control tx f r START"
  have c: "length ?c = 2" by (simp add: information_control_def)
  have len: "pv_length p = 8 + length seg + tail"
    using bytes_of_length [OF ok] bs hdr trail StartFrame c by simp
  have nth: "bytes_of p ! 4 = ?c ! 0" "bytes_of p ! 5 = ?c ! Suc 0"
    "bytes_of p ! 6 = le16 n ! 0" "bytes_of p ! 7 = le16 n ! Suc 0"
    "take (length seg) (drop 8 (bytes_of p)) = seg"
    using hdr c by (simp_all add: bs StartFrame nth_append)
  show ?thesis
    using wf subview_facts [OF ok, of 8 "8 + length seg"] nth len
      information_control_fields [of tx r f START] bytes_of_length [OF ok]
    by (simp add: parse_control_def Let_def StartFrame)
next
  case (IFrame fcs cid tx f r sar seg)
  let ?c = "information_control tx f r sar"
  have c: "length ?c = 2" by (simp add: information_control_def)
  have len: "pv_length p = 6 + length seg + tail"
    using bytes_of_length [OF ok] bs hdr trail IFrame c by simp
  have nth: "bytes_of p ! 4 = ?c ! 0" "bytes_of p ! 5 = ?c ! Suc 0"
    "take (length seg) (drop 6 (bytes_of p)) = seg"
    using hdr c by (simp_all add: bs IFrame nth_append)
  show ?thesis
    using wf subview_facts [OF ok, of 6 "6 + length seg"] nth len
      information_control_fields [of tx r f sar] bytes_of_length [OF ok]
    by (simp add: parse_control_def Let_def IFrame)
next
  case (SFrame fcs cid fn q f r)
  let ?c = "supervisory_control fn q f r"
  have c: "length ?c = 2" by (simp add: supervisory_control_def)
  have len: "pv_length p = 6 + tail"
    using bytes_of_length [OF ok] bs hdr trail SFrame c by simp
  have nth: "bytes_of p ! 4 = ?c ! 0" "bytes_of p ! 5 = ?c ! Suc 0"
    using hdr c by (simp_all add: bs SFrame nth_append)
  show ?thesis
    using wf nth len supervisory_control_fields [of r fn q f] bytes_of_length [OF ok]
    by (simp add: parse_control_def Let_def SFrame)
qed

lemma parse_frame_encode:
  assumes "wf_pdu pdu" "\<not> pdu_fcs pdu"
  shows "shows_pdu pdu (parse_frame (PacketView (encode_pdu pdu)))"
proof -
  let ?bs = "le16 (size_u16 (length (pdu_payload pdu))) @ le16 (pdu_cid pdu) @ pdu_payload pdu"
  have bs: "encode_pdu pdu = ?bs" using assms by (simp add: encode_pdu_def basic_frame_def)
  have n: "unat (size_u16 (length (pdu_payload pdu))) = length (pdu_payload pdu)"
    using wf_pdu_length [OF assms(1)] by (intro unat_size_u16) simp
  have "of_le16 (?bs ! 0) (?bs ! Suc 0) = size_u16 (length (pdu_payload pdu))"
    by (simp add: nth_append)
  moreover have "shows_pdu pdu (parse_control 0 (PacketView ?bs))"
    by (rule parse_control_frame [OF assms(1), of _ "le16 (size_u16 (length (pdu_payload pdu))) @ le16 (pdu_cid pdu)" "[]"])
      simp_all
  ultimately show ?thesis
    using wf_pdu_length [OF assms(1)] n by (simp add: parse_frame_def Let_def bs)
qed

lemma parse_frame_fcs_encode:
  assumes "wf_pdu pdu" "pdu_fcs pdu"
  shows "shows_pdu pdu (parse_frame_fcs (PacketView (encode_pdu pdu)))"
proof -
  let ?hdr = "le16 (size_u16 (length (pdu_payload pdu) + 2)) @ le16 (pdu_cid pdu)"
  let ?frame = "?hdr @ pdu_payload pdu"
  let ?n = "length (pdu_payload pdu)"
  have bs: "encode_pdu pdu = ?frame @ le16 (fcs_of ?frame)"
    using assms by (simp add: encode_pdu_def basic_frame_fcs_def Let_def)
  have n: "unat (size_u16 (?n + 2)) = ?n + 2"
    using wf_pdu_length [OF assms(1)] by (intro unat_size_u16) simp
  have size: "of_le16 (encode_pdu pdu ! 0) (encode_pdu pdu ! Suc 0) = size_u16 (?n + 2)"
    by (simp add: bs nth_append)
  have len: "length (encode_pdu pdu) = 6 + ?n" by (simp add: bs)
  have tk: "take (4 + ?n) (encode_pdu pdu) = ?frame" by (simp add: bs)
  have fcs: "encode_pdu pdu ! (4 + ?n) = le16 (fcs_of ?frame) ! 0"
    "encode_pdu pdu ! (5 + ?n) = le16 (fcs_of ?frame) ! Suc 0"
    by (simp_all add: bs nth_append)
  have "shows_pdu pdu (parse_control 2 (PacketView (encode_pdu pdu)))"
    by (rule parse_control_frame [OF assms(1), of _ ?hdr "le16 (fcs_of ?frame)"]) (simp_all add: bs)
  then show ?thesis
    using n tk fcs len size by (simp add: parse_frame_fcs_def Let_def)
qed


lemma basic_frame_length [simp]: "length (basic_frame cid payload) = 4 + length payload"
  by (simp add: basic_frame_def)

lemma BasicFrameView_basic_frame:
  assumes "length payload < 65536"
  shows "\<exists>v. BasicFrameView (PacketView (basic_frame cid payload)) = Some (cid, v) \<and> pv_ok v \<and> bytes_of v = payload"
proof -
  let ?bs = "basic_frame cid payload"
  have size: "of_le16 (?bs ! 0) (?bs ! Suc 0) = size_u16 (length payload)"
    by (simp add: basic_frame_def nth_append)
  have cid: "of_le16 (?bs ! 2) (?bs ! 3) = cid"
    by (simp add: basic_frame_def nth_append)
  have n: "unat (size_u16 (length payload)) = length payload" using assms by (rule unat_size_u16)
  have "pv_length (PacketView ?bs) = 4 + length payload"
    using bytes_of_length [OF PacketView_ok, of ?bs] by simp
  then have "pv_ok (subview (PacketView ?bs) 4 (4 + length payload)) \<and>
      bytes_of (subview (PacketView ?bs) 4 (4 + length payload)) = payload"
    using subview_facts [OF PacketView_ok, of 4 "4 + length payload" ?bs] by (simp add: basic_frame_def)
  then show ?thesis
    using size cid n by (simp add: BasicFrameView_def Let_def)
qed

lemma FirstLeInformationFrameView_basic_frame:
  assumes "length payload < 65530"
  shows "\<exists>v. FirstLeInformationFrameView (PacketView (basic_frame cid (le16 n @ payload))) = Some (n, v) \<and>
     pv_ok v \<and> bytes_of v = payload"
proof -
  let ?bs = "basic_frame cid (le16 n @ payload)"
  obtain v where v: "BasicFrameView (PacketView ?bs) = Some (cid, v)"
    using BasicFrameView_basic_frame [of "le16 n @ payload" cid] assms by auto
  have len: "of_le16 (?bs ! 4) (?bs ! 5) = n"
    by (simp add: basic_frame_def nth_append)
  have "pv_length (PacketView ?bs) = 6 + length payload"
    using bytes_of_length [OF PacketView_ok, of ?bs] by simp
  then have "pv_ok (subview (PacketView ?bs) 6 (6 + length payload)) \<and>
      bytes_of (subview (PacketView ?bs) 6 (6 + length payload)) = payload"
    using subview_facts [OF PacketView_ok, of 6 "6 + length payload" ?bs] by (simp add: basic_frame_def)
  then show ?thesis
    using v len by (simp add: FirstLeInformationFrameView_def Let_def)
qed

end
