(* ===== verification/Ertm_Link.thy ===== *)
theory Ertm_Link
  imports Ertm_Busy L2cap_Packets
begin

text \<open>
  Two controllers joined by the frame encoding: an SDU handed to one is segmented, numbered,
  encoded, parsed, sequenced and reassembled by the other.  The encoding enters through the
  locale \<open>frame_codec\<close>, whose laws are the round trips of the generated builders and views; it is
  interpreted on the encoding of l2cap\_packets.pdl.
\<close>

subsection \<open>An idle receiver\<close>

definition rx_idle :: "u8 \<Rightarrow> ertm \<Rightarrow> bool" where
  "rx_idle r s \<longleftrightarrow> rx_state s = RECV \<and> tx_state s = XMIT \<and> \<not> local_busy s \<and> pending_frames s = [] \<and>
     expected_ack_seq s = r \<and> next_tx_seq s = r \<and> expected_tx_seq s < 64 \<and> r < 64"

definition recv_frame :: "u8 \<Rightarrow> i_frame \<Rightarrow> ertm \<Rightarrow> ertm option" where
  "recv_frame r x = recv_i_frame F_NOT_SET (fst x) r (fst (snd x)) (fst (snd (snd x))) (snd (snd (snd x)))"

lemma stage_keeps_busy:
  "sar \<in> {START, CONTINUATION} \<Longrightarrow> stage_for_reassembly sar n p s = Some s' \<Longrightarrow> local_busy s' = local_busy s"
  by (auto simp: close_channel_def bind_eq_Some_conv split: if_split_asm)

lemma idle_pass:
  assumes "rx_idle r s"
  shows "pass_to_tx r F_NOT_SET (increment_expected_tx_seq s) =
     s\<lparr>expected_tx_seq := (expected_tx_seq s + 1) mod kMaxTxWin,
       retrans_timer := (if unacked_frames s = 0 then None else retrans_timer s)\<rparr>"
  using assms by (simp add: rx_idle_def pass_to_tx_def recv_req_seq_and_f_bit_def process_req_seq_eq
      increment_expected_tx_seq_def Let_def acked_range_def)

lemma idle_recv:
  assumes "rx_idle r s" "t = expected_tx_seq s"
  shows "recv_i_frame F_NOT_SET t r sar n p s =
     map_option (send_ack F_NOT_SET)
       (data_indication sar n p (pass_to_tx r F_NOT_SET (increment_expected_tx_seq s)))"
proof -
  have "with_valid_req_seq r s" "with_valid_f_bit F_NOT_SET s" "with_expected_tx_seq t s"
    using assms by (simp_all add: rx_idle_def with_valid_req_seq_def sequence_less_than_or_equal_def
        with_valid_f_bit_def with_expected_tx_seq_def)
  then show ?thesis
    using assms(1) by (cases "data_indication sar n p (pass_to_tx r F_NOT_SET (increment_expected_tx_seq s))")
      (simp_all add: rx_idle_def recv_i_frame_def)
qed

lemma send_ack_idle:
  "pending_frames s = [] \<Longrightarrow> \<not> local_busy s \<Longrightarrow> send_ack F_NOT_SET s = send_rr_f F_NOT_SET s"
  by (simp add: send_ack_def)

lemma idle_takes:
  assumes idle: "rx_idle r s" and x: "fst x = expected_tx_seq s" and st: "stage_frame x s = Some u"
  shows "\<exists>s'. recv_frame r x s = Some s' \<and> rx_data s' = rx_data u \<and>
    expected_tx_seq s' = seq_add (expected_tx_seq s) 1 \<and> fcs_enabled s' = fcs_enabled s \<and>
    (fst (snd x) \<in> {START, CONTINUATION} \<longrightarrow> rx_idle r s')"
proof -
  obtain t sar n p where xe: "x = (t, sar, n, p)" by (cases x)
  let ?s1 = "pass_to_tx r F_NOT_SET (increment_expected_tx_seq s)"
  have 1: "rx_data ?s1 = rx_data s" unfolding idle_pass [OF idle] by (simp add: rx_data_def)
  have "map_option rx_data (stage_for_reassembly sar n p ?s1) = Some (rx_data u)"
    using stage_rx_data [OF 1, of sar n p] st by (simp add: stage_frame_def xe)
  then obtain v where v: "stage_for_reassembly sar n p ?s1 = Some v" "rx_data v = rx_data u" by auto
  define w where "w = v\<lparr>buffer_seq := (buffer_seq v + 1) mod kMaxTxWin\<rparr>"
  have di: "data_indication sar n p ?s1 = Some w" using v by (simp add: data_indication_def w_def)
  have fr: "tx_part v = tx_part ?s1" using rx_frame_stage [OF v(1)] by (simp add: rx_frame_def)
  have e: "expected_tx_seq s < 64" using idle by (simp add: rx_idle_def)
  have vw: "pending_frames w = []" "rx_state w = RECV" "tx_state w = XMIT" "expected_ack_seq w = r"
    "next_tx_seq w = r" "expected_tx_seq w = seq_add (expected_tx_seq s) 1" "fcs_enabled w = fcs_enabled s"
    using fr idle unfolding idle_pass [OF idle] seq_inc [OF e]
    by (simp_all add: w_def tx_part_def config_part_def rx_idle_def)
  have busy: "sar \<in> {START, CONTINUATION} \<Longrightarrow> \<not> local_busy w"
    using stage_keeps_busy [OF _ v(1)] idle unfolding idle_pass [OF idle] by (simp add: w_def rx_idle_def)
  have ack: "tx_frame w (send_ack F_NOT_SET w)" by simp
  have "rx_idle r (send_ack F_NOT_SET w)" if "sar \<in> {START, CONTINUATION}"
    using vw busy [OF that] idle
    by (simp add: send_ack_idle send_rr_f_def send_s_frame_def send_pdu_def rx_idle_def)
  moreover have "rx_data (send_ack F_NOT_SET w) = rx_data u"
    "expected_tx_seq (send_ack F_NOT_SET w) = seq_add (expected_tx_seq s) 1"
    "fcs_enabled (send_ack F_NOT_SET w) = fcs_enabled s"
    using tx_frame_rx_data [OF ack] ack vw v(2) by (simp_all add: w_def tx_frame_def config_part_def)
  ultimately show ?thesis
    using idle_recv [OF idle, of t sar n p] x di by (simp add: recv_frame_def xe)
qed

lemma idle_run:
  assumes "rx_idle r s" "list_all (\<lambda>x. fst (snd x) \<in> {START, CONTINUATION}) ys"
    "map fst (ys @ [z]) = map (seq_add (expected_tx_seq s)) [0..<length (ys @ [z])]"
    "foldM stage_frame (ys @ [z]) s = Some u"
  shows "\<exists>s'. foldM (recv_frame r) (ys @ [z]) s = Some s' \<and> rx_data s' = rx_data u"
  using assms
proof (induction ys arbitrary: s u)
  case Nil
  then have z: "stage_frame z s = Some u" and "fst z = expected_tx_seq s"
    by (auto simp: bind_eq_Some_conv rx_idle_def seq_add_0)
  from idle_takes [OF Nil.prems(1) this(2) z] show ?case by auto
next
  case (Cons y ys)
  have e: "expected_tx_seq s < 64" using Cons.prems(1) by (simp add: rx_idle_def)
  obtain s1 where s1: "stage_frame y s = Some s1" "foldM stage_frame (ys @ [z]) s1 = Some u"
    using Cons.prems(4) by (auto simp: bind_eq_Some_conv)
  have seqs: "fst y = expected_tx_seq s"
    "map fst (ys @ [z]) = map (seq_add (seq_add (expected_tx_seq s) 1)) [0..<length (ys @ [z])]"
    using Cons.prems(3) e
    by (simp_all add: seq_add_0 upt_conv_Cons map_Suc_upt [symmetric] seq_add_add del: upt_Suc)
  from idle_takes [OF Cons.prems(1) seqs(1) s1(1)] Cons.prems(2) obtain s2 where
    s2: "recv_frame r y s = Some s2" "rx_data s2 = rx_data s1"
      "expected_tx_seq s2 = seq_add (expected_tx_seq s) 1" "rx_idle r s2" by auto
  obtain u' where u': "foldM stage_frame (ys @ [z]) s2 = Some u'" "rx_data u' = rx_data u"
    using foldM_stage_rx_data [OF s2(2), of "ys @ [z]"] s1(2) by (auto simp del: foldM_append)
  from Cons.IH [OF s2(4) _ _ u'(1)] Cons.prems(2) seqs(2) s2(3) obtain s' where
    "foldM (recv_frame r) (ys @ [z]) s2 = Some s'" "rx_data s' = rx_data u'" by auto
  then show ?case using s2(1) u'(2) by (simp del: foldM_append)
qed


subsection \<open>From one controller to the other\<close>

lemma tagged_shape:
  assumes "segs \<noteq> []"
  shows "\<exists>ys z. tagged n segs = ys @ [z] \<and> list_all (\<lambda>x. fst x \<in> {START, CONTINUATION}) ys"
proof (cases "(n, segs)" rule: tagged.cases)
  case (2 m x)
  then show ?thesis by (intro exI [of _ "[]"]) simp
next
  case (3 m x y ys)
  then show ?thesis
    by (intro exI [of _ "(START, n, x) # map (\<lambda>z. (CONTINUATION, 0, z)) (butlast (y # ys))"]
        exI [of _ "(END, 0, last (y # ys))"]) (simp add: list_all_iff)
qed (use assms in simp)

lemma tagged_payloads:
  "(sar, k, x) \<in> set (tagged n segs) \<Longrightarrow> x \<in> set segs \<and> (sar \<noteq> START \<longrightarrow> k = 0)"
proof (cases "(n, segs)" rule: tagged.cases)
  case (3 m a y ys)
  moreover assume "(sar, k, x) \<in> set (tagged n segs)"
  ultimately show ?thesis using in_set_butlastD [of x "y # ys"] last_in_set [of "y # ys"] by auto
qed auto

lemma length_tagged: "length (tagged n segs) = length segs"
  by (cases "(n, segs)" rule: tagged.cases) auto

text \<open>The I-frame a view of an I-frame PDU shows.\<close>

lemma i_pdu_view:
  assumes "shows_pdu (i_pdu s t x) v" "fst x \<noteq> START \<Longrightarrow> fst (snd x) = 0"
  shows "\<exists>y. fst y = t \<and> frame_content y = x \<and> frame_ok y \<and> on_frame v = recv_frame (buffer_seq s) y"
proof -
  obtain sar n seg where x: "x = (sar, n, seg)" by (cases x)
  obtain p where v: "v = IFrameView F_NOT_SET t (buffer_seq s) sar n p" "pv_ok p" "bytes_of p = seg"
    using assms by (cases "sar = START") (auto simp: i_pdu_def x)
  show ?thesis
    by (rule exI [of _ "(t, sar, n, p)"])
      (use v assms(2) in \<open>auto simp: frame_content_def frame_ok_def recv_frame_def on_frame_def x fun_eq_iff\<close>)
qed

lemma i_pdu_views:
  assumes "list_all2 shows_pdu (map2 (i_pdu s) ts xs) vs" "length ts = length xs"
    "\<forall>x\<in>set xs. fst x \<noteq> START \<longrightarrow> fst (snd x) = 0"
  shows "\<exists>ys. map fst ys = ts \<and> map frame_content ys = xs \<and> list_all frame_ok ys \<and>
     (\<forall>b. foldM on_frame vs b = foldM (recv_frame (buffer_seq s)) ys b)"
  using assms(2,1,3)
proof (induction ts xs arbitrary: vs rule: list_induct2)
  case Nil
  then show ?case by simp
next
  case (Cons t ts x xs)
  then obtain v vs' where vs: "vs = v # vs'" "shows_pdu (i_pdu s t x) v"
      "list_all2 shows_pdu (map2 (i_pdu s) ts xs) vs'"
    by (auto simp: list_all2_Cons1)
  have "fst x \<noteq> START \<Longrightarrow> fst (snd x) = 0" using Cons.prems(2) by simp
  from i_pdu_view [OF vs(2) this]
  obtain y where y: "fst y = t" "frame_content y = x" "frame_ok y" "on_frame v = recv_frame (buffer_seq s) y"
    by blast
  obtain ys where ys: "map fst ys = ts" "map frame_content ys = xs" "list_all frame_ok ys"
      "\<forall>b. foldM on_frame vs' b = foldM (recv_frame (buffer_seq s)) ys b"
    using Cons.IH [OF vs(3)] Cons.prems(2) by auto
  have "foldM on_frame vs b = foldM (recv_frame (buffer_seq s)) (y # ys) b" for b
    using y(4) ys(4) by (cases "on_frame v b") (simp_all add: vs(1))
  then show ?case using y ys by (intro exI [of _ "y # ys"]) simp
qed

lemma i_pdu_wf:
  "t < 64 \<Longrightarrow> buffer_seq s < 64 \<Longrightarrow> length (snd (snd x)) < 65530 \<Longrightarrow> wf_pdu (i_pdu s t x)"
  "pdu_fcs (i_pdu s t x) = fcs_enabled s"
  by (simp_all add: i_pdu_def)

lemma shows_pdu_wf: "wf_pdu pdu \<Longrightarrow> shows_pdu pdu v \<Longrightarrow> wf_view v"
  by (cases pdu) auto

locale frame_codec =
  fixes parse parse_fcs :: "packet_view \<Rightarrow> frame_view" and encode :: "ertm_pdu \<Rightarrow> bytes"
  assumes parse_encode: "wf_pdu pdu \<Longrightarrow> \<not> pdu_fcs pdu \<Longrightarrow> shows_pdu pdu (parse (PacketView (encode pdu)))"
    and parse_fcs_encode: "wf_pdu pdu \<Longrightarrow> pdu_fcs pdu \<Longrightarrow> shows_pdu pdu (parse_fcs (PacketView (encode pdu)))"
begin

lemma OnPdu_run:
  assumes "list_all wf_pdu pdus" "list_all (\<lambda>q. pdu_fcs q = fcs_enabled b) pdus" "ertm_inv b"
  shows "\<exists>vs. list_all2 shows_pdu pdus vs \<and>
     foldM (\<lambda>q. ertm_OnPdu parse parse_fcs (PacketView (encode q))) pdus b = foldM on_frame vs b"
  using assms
proof (induction pdus arbitrary: b)
  case Nil
  then show ?case by simp
next
  case (Cons q pdus)
  obtain v where v: "shows_pdu q v" "ertm_OnPdu parse parse_fcs (PacketView (encode q)) b = on_frame v b"
    using parse_encode [of q] parse_fcs_encode [of q] Cons.prems
    by (auto simp: ertm_OnPdu_def on_pdu_fcs_def on_pdu_no_fcs_def)
  show ?case
  proof (cases "on_frame v b")
    case None
    obtain vs where "list_all2 shows_pdu pdus vs" using Cons.IH [of b] Cons.prems by auto
    with v None show ?thesis by (intro exI [of _ "v # vs"]) simp
  next
    case (Some b')
    have "wf_view v" using shows_pdu_wf [of q v] v(1) Cons.prems(1) by simp
    then have "ertm_inv b'" "fcs_enabled b' = fcs_enabled b"
      using on_frame_keeps_inv [of v b] Some Cons.prems(3) by (auto simp: keeps_inv_def config_part_def)
    then obtain vs where "list_all2 shows_pdu pdus vs"
        "foldM (\<lambda>q. ertm_OnPdu parse parse_fcs (PacketView (encode q))) pdus b' = foldM on_frame vs b'"
      using Cons.IH [of b'] Cons.prems by auto
    with v Some show ?thesis by (intro exI [of _ "v # vs"]) simp
  qed
qed

lemma sdu_crosses:
  assumes a: "ertm_inv a" "pdu_queue a = []" "segs \<noteq> []" "\<forall>x\<in>set segs. x \<noteq> [] \<and> length x < 65530"
      "request_segments (size_u16 (length (concat segs))) segs a = Some a'" "length segs \<le> room a" "length segs \<le> 64"
      "\<forall>i<length segs. unacked_list a (seq_add (next_tx_seq a) i) = None"
    and b: "ertm_inv b" "rx_idle (buffer_seq a) b" "expected_tx_seq b = next_tx_seq a" "fcs_enabled b = fcs_enabled a"
      "sar_state b = END" "can_deliver b"
  shows "\<exists>b'. foldM (\<lambda>q. ertm_OnPdu parse parse_fcs (PacketView (encode q))) (pdu_queue a') b = Some b' \<and>
     delivers b (concat segs) b'"
proof -
  let ?xs = "tagged (size_u16 (length (concat segs))) segs"
  let ?ts = "map (seq_add (next_tx_seq a)) [0..<length segs]"
  have inv: "next_tx_seq a < 64" "buffer_seq a < 64" "unacked_frames a \<le> uint (remote_tx_window a)"
    using a(1) by (simp_all add: ertm_inv_def ertm_tx_inv_def ertm_rx_inv_def)
  have "a' = fold request ?xs a" using a(5) request_segments_tagged [OF a(3)] by simp
  then have "requested a ?xs (length segs) a'"
    using fold_request [OF inv(3,1), of "length segs" ?xs] a(6-8) by (simp add: length_tagged)
  then have q': "pdu_queue a' = map (\<lambda>i. i_pdu a (seq_add (next_tx_seq a) i) (?xs ! i)) [0..<length segs]"
    using a(2) by (simp only: requested_def append_Nil)
  then have q: "pdu_queue a' = map2 (i_pdu a) ?ts ?xs"
    by (simp only:) (rule nth_equalityI, simp_all add: length_tagged)
  have xs: "x \<in> set ?xs \<Longrightarrow> length (snd (snd x)) < 65530 \<and> (fst x \<noteq> START \<longrightarrow> fst (snd x) = 0)" for x
    using tagged_payloads [of "fst x" "fst (snd x)" "snd (snd x)"] a(4) by (cases x) auto
  have xs': "length (snd (snd (?xs ! i))) < 65530" if "i < length segs" for i
    using xs [of "?xs ! i"] that by (simp add: length_tagged)
  have "list_all wf_pdu (pdu_queue a')" "list_all (\<lambda>q. pdu_fcs q = fcs_enabled b) (pdu_queue a')"
    unfolding q' list_all_iff using xs' inv b(4) by (auto simp: i_pdu_wf(2) intro!: i_pdu_wf(1))
  then obtain vs where vs: "list_all2 shows_pdu (pdu_queue a') vs"
    "foldM (\<lambda>q. ertm_OnPdu parse parse_fcs (PacketView (encode q))) (pdu_queue a') b = foldM on_frame vs b"
    using OnPdu_run [of "pdu_queue a'" b] b(1) by auto
  obtain ys where ys: "map fst ys = ?ts" "map frame_content ys = ?xs" "list_all frame_ok ys"
    "foldM on_frame vs b = foldM (recv_frame (buffer_seq a)) ys b"
    using i_pdu_views [of a ?ts ?xs vs] vs(1) xs unfolding q by (auto simp: length_tagged)
  obtain u where u: "foldM stage_frame ys b = Some u" "delivers b (concat segs) u"
    using reassembly_of_segments [OF _ a(3) ys(2,3) b(5,6)] a(4) by auto
  obtain as z where "?xs = as @ [z]" "list_all (\<lambda>x. fst x \<in> {START, CONTINUATION}) as"
    using tagged_shape [OF a(3)] by blast
  then obtain ys' y where ys': "ys = ys' @ [y]" "list_all (\<lambda>x. fst (snd x) \<in> {START, CONTINUATION}) ys'"
    using ys(2) by (auto simp: map_eq_append_conv list_all_iff frame_content_def)
  have "length ys = length segs" using ys(1) by (metis length_map length_upt diff_zero)
  then obtain b' where "foldM (recv_frame (buffer_seq a)) ys b = Some b'" "rx_data b' = rx_data u"
    using idle_run [OF b(2) ys'(2), of y u] u(1) ys(1) b(3) unfolding ys'(1) by auto
  moreover from this have "delivers b (concat segs) b'" using u(2) by (simp add: delivers_def rx_data_def)
  ultimately show ?thesis using vs(2) ys(4) by simp
qed

end

interpretation pdl: frame_codec parse_frame parse_frame_fcs encode_pdu
  by unfold_locales (simp_all add: parse_frame_encode parse_frame_fcs_encode)

end
