(* ===== verification/Scheduler.thy ===== *)
theory Scheduler
  imports Data_Controller
begin

text \<open>
  The packet scheduler of a link: common::MultiPriorityQueue with two levels
  (common/multi\_priority\_queue.h) and the Fifo scheduler on top of it
  (l2cap/internal/scheduler\_fifo.cc).  The std::priority\_queue of levels is a list kept in
  descending order.  The interface of the queue is the locale \<open>priority_fifo\<close>: what is in it in
  the order it will come out, and what the operations do to that list.
\<close>

subsection \<open>MultiPriorityQueue\<close>

record 'a mpq =
  mpq_queues :: "nat \<Rightarrow> 'a list"
  next_to_dequeue :: "nat list"

definition mpq_empty_queue :: "'a mpq" where
  "mpq_empty_queue = \<lparr>mpq_queues = (\<lambda>_. []), next_to_dequeue = []\<rparr>"

fun insert_level :: "nat \<Rightarrow> nat list \<Rightarrow> nat list" where
  "insert_level p [] = [p]"
| "insert_level p (x # xs) = (if x < p then p # x # xs else x # insert_level p xs)"

definition mpq_front :: "'a mpq \<Rightarrow> 'a" where
  "mpq_front q = hd (mpq_queues q (hd (next_to_dequeue q)))"

definition mpq_empty :: "'a mpq \<Rightarrow> bool" where
  "mpq_empty q \<longleftrightarrow> next_to_dequeue q = []"

definition mpq_size :: "'a mpq \<Rightarrow> nat" where
  "mpq_size q = length (next_to_dequeue q)"

definition mpq_push :: "'a \<Rightarrow> nat \<Rightarrow> 'a mpq \<Rightarrow> 'a mpq" where
  "mpq_push t p q =
     \<lparr>mpq_queues = (mpq_queues q)(p := mpq_queues q p @ [t]),
      next_to_dequeue = insert_level p (next_to_dequeue q)\<rparr>"

definition mpq_pop :: "'a mpq \<Rightarrow> 'a mpq" where
  "mpq_pop q =
     (let p = hd (next_to_dequeue q)
      in \<lparr>mpq_queues = (mpq_queues q)(p := tl (mpq_queues q p)), next_to_dequeue = tl (next_to_dequeue q)\<rparr>)"

text \<open>Assignment through the reference front() returns.\<close>

definition mpq_set_front :: "'a \<Rightarrow> 'a mpq \<Rightarrow> 'a mpq" where
  "mpq_set_front t q =
     (let p = hd (next_to_dequeue q)
      in q\<lparr>mpq_queues := (mpq_queues q)(p := t # tl (mpq_queues q p))\<rparr>)"

definition mpq_ok :: "'a mpq \<Rightarrow> bool" where
  "mpq_ok q \<longleftrightarrow> next_to_dequeue q =
     replicate (length (mpq_queues q 1)) 1 @ replicate (length (mpq_queues q 0)) 0"

definition mpq_items :: "'a mpq \<Rightarrow> 'a list" where
  "mpq_items q = mpq_queues q 1 @ mpq_queues q 0"

subsection \<open>The scheduler\<close>

record fifo =
  ready_queue :: "(Cid \<times> int) mpq"
  high_priority_cids :: "Cid set"
  link_queue_enqueue_registered :: bool

definition Fifo :: fifo where
  "Fifo = \<lparr>ready_queue = mpq_empty_queue, high_priority_cids = {}, link_queue_enqueue_registered = False\<rparr>"

definition try_register_link_queue_enqueue :: "fifo \<Rightarrow> fifo" where
  "try_register_link_queue_enqueue s = s\<lparr>link_queue_enqueue_registered := True\<rparr>"

definition fifo_OnPacketsReady :: "Cid \<Rightarrow> int \<Rightarrow> fifo \<Rightarrow> fifo" where
  "fifo_OnPacketsReady cid number_packets s =
     (if number_packets = 0 then s
      else let priority = (if cid \<in> high_priority_cids s then 1 else 0);
               s = s\<lparr>ready_queue := mpq_push (cid, number_packets) priority (ready_queue s)\<rparr>
           in try_register_link_queue_enqueue s)"

definition fifo_SetChannelTxPriority :: "Cid \<Rightarrow> bool \<Rightarrow> fifo \<Rightarrow> fifo" where
  "fifo_SetChannelTxPriority cid high_priority s =
     (if high_priority then s\<lparr>high_priority_cids := insert cid (high_priority_cids s)\<rparr>
      else s\<lparr>high_priority_cids := high_priority_cids s - {cid}\<rparr>)"

text \<open>The loop of RemoveChannel; the queue's size is read anew in each round.\<close>

lemma length_insert_level [simp]: "length (insert_level p xs) = Suc (length xs)"
  by (induction xs) auto

lemma mpq_size_push_pop [simp]:
  "mpq_size (mpq_push t p q) = Suc (mpq_size q)" "mpq_size (mpq_pop q) = mpq_size q - 1"
  by (simp_all add: mpq_size_def mpq_push_def mpq_pop_def Let_def)

function remove_loop :: "Cid \<Rightarrow> nat \<Rightarrow> (Cid \<times> int) mpq \<Rightarrow> (Cid \<times> int) mpq" where
  "remove_loop cid i q =
     (if i < mpq_size q
      then let entry = mpq_front q;
               q = (if snd entry \<noteq> uint cid then mpq_push entry 0 q else q)
           in remove_loop cid (Suc i) (mpq_pop q)
      else q)"
  by pat_completeness auto
termination
  by (relation "measure (\<lambda>(cid, i, q). mpq_size q - i)") (auto simp: Let_def)

declare remove_loop.simps [simp del]

definition unregister_if_empty :: "fifo \<Rightarrow> fifo" where
  "unregister_if_empty s =
     (if mpq_empty (ready_queue s) \<and> link_queue_enqueue_registered s
      then s\<lparr>link_queue_enqueue_registered := False\<rparr> else s)"

definition fifo_RemoveChannel :: "Cid \<Rightarrow> fifo \<Rightarrow> fifo" where
  "fifo_RemoveChannel cid s =
     unregister_if_empty (s\<lparr>ready_queue := remove_loop cid 0 (ready_queue s)\<rparr>)"

text \<open>
  The part of link\_queue\_enqueue\_callback up to the call of the data pipeline: the channel whose
  turn it is, with one packet of its entry used up.
\<close>

definition fifo_next_channel :: "fifo \<Rightarrow> (Cid \<times> fifo) option" where
  "fifo_next_channel s = do {
     ASSERT (\<not> mpq_empty (ready_queue s));
     let (channel_id, n) = mpq_front (ready_queue s);
     let q = mpq_set_front (channel_id, n - 1) (ready_queue s);
     Some (channel_id, s\<lparr>ready_queue := (if n - 1 = 0 then mpq_pop q else q)\<rparr>) }"

subsection \<open>The queue interface\<close>

locale priority_fifo =
  fixes q_push :: "'a \<Rightarrow> nat \<Rightarrow> 'q \<Rightarrow> 'q" and q_pop :: "'q \<Rightarrow> 'q" and q_front :: "'q \<Rightarrow> 'a"
    and q_empty :: "'q \<Rightarrow> bool" and q_set_front :: "'a \<Rightarrow> 'q \<Rightarrow> 'q"
    and high low :: "'q \<Rightarrow> 'a list" and invar :: "'q \<Rightarrow> bool"
  assumes invar_push: "invar q \<Longrightarrow> p \<le> 1 \<Longrightarrow> invar (q_push x p q)"
    and high_push: "high (q_push x 1 q) = high q @ [x]" "high (q_push x 0 q) = high q"
    and low_push: "low (q_push x 1 q) = low q" "low (q_push x 0 q) = low q @ [x]"
    and empty_iff: "invar q \<Longrightarrow> q_empty q \<longleftrightarrow> high q = [] \<and> low q = []"
    and front: "invar q \<Longrightarrow> \<not> q_empty q \<Longrightarrow> q_front q = hd (high q @ low q)"
    and invar_pop: "invar q \<Longrightarrow> \<not> q_empty q \<Longrightarrow> invar (q_pop q)"
    and pop: "invar q \<Longrightarrow> \<not> q_empty q \<Longrightarrow> high (q_pop q) = (if high q = [] then [] else tl (high q)) \<and>
                low (q_pop q) = (if high q = [] then tl (low q) else low q)"
    and invar_set_front: "invar q \<Longrightarrow> \<not> q_empty q \<Longrightarrow> invar (q_set_front x q)"
    and set_front: "invar q \<Longrightarrow> \<not> q_empty q \<Longrightarrow>
                high (q_set_front x q) = (if high q = [] then [] else x # tl (high q)) \<and>
                low (q_set_front x q) = (if high q = [] then x # tl (low q) else low q)"
begin

definition items :: "'q \<Rightarrow> 'a list" where
  "items q = high q @ low q"

lemma items_push_low: "items (q_push x 0 q) = items q @ [x]"
  by (simp add: items_def high_push low_push)

lemma items_push_high: "items (q_push x 1 q) = high q @ x # low q"
  by (simp only: items_def high_push low_push) simp

lemma items_pop: "invar q \<Longrightarrow> \<not> q_empty q \<Longrightarrow> items (q_pop q) = tl (items q)"
  using pop [of q] empty_iff [of q] by (cases "high q") (auto simp: items_def)

lemma items_front: "invar q \<Longrightarrow> \<not> q_empty q \<Longrightarrow> items q = q_front q # items (q_pop q)"
  using front [of q] pop [of q] empty_iff [of q]
  by (cases "high q"; cases "low q") (auto simp: items_def)

lemma items_set_front: "invar q \<Longrightarrow> \<not> q_empty q \<Longrightarrow> items (q_set_front x q) = x # tl (items q)"
  using set_front [of q x] empty_iff [of q] by (cases "high q") (auto simp: items_def)

lemma set_front_not_empty: "invar q \<Longrightarrow> \<not> q_empty q \<Longrightarrow> \<not> q_empty (q_set_front x q)"
  using items_set_front [of q x] empty_iff [OF invar_set_front, of q x] by (auto simp: items_def)

end

lemma insert_level_1: "insert_level 1 (replicate n 1 @ replicate m 0) = replicate (Suc n) 1 @ replicate m 0"
  by (induction n) (cases m, auto)

lemma insert_level_0: "insert_level 0 (replicate n 1 @ replicate m 0) = replicate n 1 @ replicate (Suc m) 0"
proof (induction n)
  case 0
  then show ?case by (induction m) auto
qed auto

lemma mpq_ok_push: "mpq_ok q \<Longrightarrow> p \<le> 1 \<Longrightarrow> mpq_ok (mpq_push x p q)"
proof -
  assume ok: "mpq_ok q" and "p \<le> 1"
  then consider "p = 0" | "p = 1" by linarith
  then show ?thesis
    using ok insert_level_0 insert_level_1 by cases (auto simp: mpq_ok_def mpq_push_def)
qed

lemma mpq_ok_hd:
  assumes "mpq_ok q" "\<not> mpq_empty q"
  shows "hd (next_to_dequeue q) = (if mpq_queues q 1 = [] then 0 else 1) \<and>
     mpq_queues q (hd (next_to_dequeue q)) \<noteq> []"
  using assms by (cases "mpq_queues q 1"; cases "mpq_queues q 0") (auto simp: mpq_ok_def mpq_empty_def)

lemma mpq_ok_empty: "mpq_ok q \<Longrightarrow> mpq_empty q \<longleftrightarrow> mpq_queues q 1 = [] \<and> mpq_queues q 0 = []"
  by (auto simp: mpq_ok_def mpq_empty_def)

interpretation mpq: priority_fifo mpq_push mpq_pop mpq_front mpq_empty mpq_set_front
  "\<lambda>q. mpq_queues q 1" "\<lambda>q. mpq_queues q 0" mpq_ok
proof
  fix q :: "'a mpq" and x :: 'a
  assume ok: "mpq_ok q" and ne: "\<not> mpq_empty q"
  note hd = mpq_ok_hd [OF ok ne]
  show "mpq_front q = hd (mpq_queues q 1 @ mpq_queues q 0)"
    using hd by (simp add: mpq_front_def)
  show "mpq_ok (mpq_pop q)" "mpq_ok (mpq_set_front x q)"
    using hd ok by (cases "mpq_queues q 1"; cases "mpq_queues q 0";
        simp add: mpq_ok_def mpq_pop_def mpq_set_front_def Let_def)+
  show "mpq_queues (mpq_pop q) 1 = (if mpq_queues q 1 = [] then [] else tl (mpq_queues q 1)) \<and>
      mpq_queues (mpq_pop q) 0 = (if mpq_queues q 1 = [] then tl (mpq_queues q 0) else mpq_queues q 0)"
    "mpq_queues (mpq_set_front x q) 1 = (if mpq_queues q 1 = [] then [] else x # tl (mpq_queues q 1)) \<and>
      mpq_queues (mpq_set_front x q) 0 = (if mpq_queues q 1 = [] then x # tl (mpq_queues q 0) else mpq_queues q 0)"
    using hd by (simp_all add: mpq_pop_def mpq_set_front_def Let_def)
next
  fix q :: "'a mpq" and x :: 'a
  show "mpq_queues (mpq_push x 1 q) 1 = mpq_queues q 1 @ [x]" "mpq_queues (mpq_push x 0 q) 1 = mpq_queues q 1"
    "mpq_queues (mpq_push x 1 q) 0 = mpq_queues q 0" "mpq_queues (mpq_push x 0 q) 0 = mpq_queues q 0 @ [x]"
    by (simp_all add: mpq_push_def)
qed (simp_all only: mpq_ok_push mpq_ok_empty)

lemma mpq_items_eq: "mpq_items = mpq.items"
  by (rule ext) (simp only: mpq_items_def mpq.items_def)

subsection \<open>Properties of the scheduler\<close>

definition fifo_ok :: "fifo \<Rightarrow> bool" where
  "fifo_ok s \<longleftrightarrow> mpq_ok (ready_queue s) \<and> (\<forall>(c, n)\<in>set (mpq_items (ready_queue s)). 0 < n) \<and>
     (link_queue_enqueue_registered s \<longleftrightarrow> \<not> mpq_empty (ready_queue s))"

text \<open>The packets the scheduler still owes, channel by channel, in the order it will ask for them.\<close>

definition schedule :: "fifo \<Rightarrow> Cid list" where
  "schedule s = concat (map (\<lambda>(c, n). replicate (nat n) c) (mpq_items (ready_queue s)))"

definition owed :: "Cid \<Rightarrow> fifo \<Rightarrow> nat" where
  "owed c s = count_list (schedule s) c"

lemma fifo_ok_init: "fifo_ok Fifo" "schedule Fifo = []"
  by (simp_all add: fifo_ok_def Fifo_def mpq_empty_queue_def mpq_ok_def mpq_items_def mpq_empty_def schedule_def)

lemma push_items:
  "mpq_items (mpq_push x p q) =
     (if p = 1 then mpq_queues q 1 @ x # mpq_queues q 0
      else if p = 0 then mpq_items q @ [x] else mpq_items q)"
  by (auto simp: mpq_items_def mpq_push_def)

lemma push_not_empty: "\<not> mpq_empty (mpq_push x p q)"
  using length_insert_level [of p "next_to_dequeue q"] by (auto simp: mpq_empty_def mpq_push_def simp del: length_insert_level)

lemma set_push_items: "p \<le> 1 \<Longrightarrow> set (mpq_items (mpq_push x p q)) = insert x (set (mpq_items q))"
  by (cases p) (auto simp: mpq_items_def mpq_push_def)

lemma OnPacketsReady_ok: "fifo_ok s \<Longrightarrow> 0 \<le> n \<Longrightarrow> fifo_ok (fifo_OnPacketsReady c n s)"
  by (auto simp: fifo_ok_def fifo_OnPacketsReady_def Let_def try_register_link_queue_enqueue_def
      mpq_ok_push set_push_items push_not_empty)

lemma OnPacketsReady_schedule_low:
  "c \<notin> high_priority_cids s \<Longrightarrow> schedule (fifo_OnPacketsReady c n s) = schedule s @ replicate (nat n) c"
  by (simp add: schedule_def fifo_OnPacketsReady_def Let_def try_register_link_queue_enqueue_def push_items)

lemma count_list_append: "count_list (xs @ ys) c = count_list xs c + count_list ys c"
  by (induction xs) auto

lemma count_list_replicate: "count_list (replicate k d) c = (if d = c then k else 0)"
  by (induction k) auto

lemma OnPacketsReady_owed:
  "owed d (fifo_OnPacketsReady c n s) = owed d s + (if d = c then nat n else 0)"
  by (auto simp: owed_def schedule_def fifo_OnPacketsReady_def Let_def try_register_link_queue_enqueue_def
      mpq_push_def mpq_items_def count_list_append count_list_replicate)

lemma SetChannelTxPriority_keeps:
  "fifo_ok s \<Longrightarrow> fifo_ok (fifo_SetChannelTxPriority c h s)"
  "schedule (fifo_SetChannelTxPriority c h s) = schedule s"
  by (simp_all add: fifo_SetChannelTxPriority_def fifo_ok_def schedule_def)

lemma next_channel:
  assumes ok: "fifo_ok s" and ne: "\<not> mpq_empty (ready_queue s)"
  shows "\<exists>c s'. fifo_next_channel s = Some (c, s') \<and> schedule s = c # schedule s' \<and>
     fifo_ok (unregister_if_empty s') \<and> high_priority_cids s' = high_priority_cids s"
proof -
  let ?q = "ready_queue s"
  have q: "mpq_ok ?q" using ok by (simp add: fifo_ok_def)
  obtain c n where f: "mpq_front ?q = (c, n)" by (cases "mpq_front ?q")
  have it: "mpq_items ?q = (c, n) # mpq_items (mpq_pop ?q)"
    using mpq.items_front [OF q ne] f by (simp add: mpq_items_eq)
  have n: "0 < n" "\<forall>(c, n)\<in>set (mpq_items (mpq_pop ?q)). 0 < n"
    using ok it by (auto simp: fifo_ok_def)
  let ?q1 = "mpq_set_front (c, n - 1) ?q"
  have q1: "mpq_ok ?q1" "\<not> mpq_empty ?q1" "mpq_items ?q1 = (c, n - 1) # mpq_items (mpq_pop ?q)"
    using mpq.invar_set_front [OF q ne] mpq.set_front_not_empty [OF q ne] mpq.items_set_front [OF q ne] it
    by (simp_all add: mpq_items_eq)
  have q2: "mpq_ok (mpq_pop ?q1)" "mpq_items (mpq_pop ?q1) = mpq_items (mpq_pop ?q)"
    using mpq.invar_pop [OF q1(1,2)] mpq.items_pop [OF q1(1,2)] q1(3) by (simp_all add: mpq_items_eq)
  define q' where "q' = (if n - 1 = 0 then mpq_pop ?q1 else ?q1)"
  have items': "mpq_items q' = (if n - 1 = 0 then [] else [(c, n - 1)]) @ mpq_items (mpq_pop ?q)"
    using q1(3) q2(2) unfolding q'_def by (cases "n - 1 = 0") (simp_all only: if_True if_False append.simps simp_thms)
  have next_eq: "fifo_next_channel s = Some (c, s\<lparr>ready_queue := q'\<rparr>)"
    using ne f by (simp add: fifo_next_channel_def q'_def Let_def)
  have "nat n = Suc (nat (n - 1))" using n(1) by linarith
  then have sch: "schedule s = c # schedule (s\<lparr>ready_queue := q'\<rparr>)"
    using n(1) by (auto simp: schedule_def it items')
  have "mpq_ok q'" "\<forall>(c, n)\<in>set (mpq_items q'). 0 < n"
    using q1(1) q2(1) n unfolding items' by (auto simp: q'_def)
  then have "fifo_ok (unregister_if_empty (s\<lparr>ready_queue := q'\<rparr>))"
    using ok ne by (auto simp: fifo_ok_def unregister_if_empty_def)
  with next_eq sch show ?thesis by simp
qed

lemma schedule_empty_iff: "fifo_ok s \<Longrightarrow> schedule s = [] \<longleftrightarrow> mpq_empty (ready_queue s)"
proof -
  assume ok: "fifo_ok s"
  then have "mpq_empty (ready_queue s) \<longleftrightarrow> mpq_items (ready_queue s) = []"
    by (simp add: fifo_ok_def mpq_ok_empty mpq_items_def)
  moreover have "(c, n) \<in> set (mpq_items (ready_queue s)) \<Longrightarrow> 0 < n" for c n using ok by (auto simp: fifo_ok_def)
  ultimately show ?thesis by (cases "mpq_items (ready_queue s)") (fastforce simp: schedule_def)+
qed

text \<open>
  The promise of the scheduler: a list of channel identifiers, high priority ones first, each
  group in the order the packets were announced.
\<close>

record schedule_spec =
  sp_high :: "Cid list"
  sp_low :: "Cid list"
  sp_cids :: "Cid set"

definition spec_ready :: "Cid \<Rightarrow> nat \<Rightarrow> schedule_spec \<Rightarrow> schedule_spec" where
  "spec_ready c n a =
     (if c \<in> sp_cids a then a\<lparr>sp_high := sp_high a @ replicate n c\<rparr> else a\<lparr>sp_low := sp_low a @ replicate n c\<rparr>)"

definition spec_priority :: "Cid \<Rightarrow> bool \<Rightarrow> schedule_spec \<Rightarrow> schedule_spec" where
  "spec_priority c h a = a\<lparr>sp_cids := (if h then insert c (sp_cids a) else sp_cids a - {c})\<rparr>"

fun spec_next :: "schedule_spec \<Rightarrow> (Cid \<times> schedule_spec) option" where
  "spec_next a = (case sp_high a of c # cs \<Rightarrow> Some (c, a\<lparr>sp_high := cs\<rparr>)
     | [] \<Rightarrow> (case sp_low a of c # cs \<Rightarrow> Some (c, a\<lparr>sp_low := cs\<rparr>) | [] \<Rightarrow> None))"

definition expand :: "(Cid \<times> int) list \<Rightarrow> Cid list" where
  "expand xs = concat (map (\<lambda>(c, n). replicate (nat n) c) xs)"

definition schedule_abs :: "fifo \<Rightarrow> schedule_spec" where
  "schedule_abs s = \<lparr>sp_high = expand (mpq_queues (ready_queue s) 1), sp_low = expand (mpq_queues (ready_queue s) 0),
     sp_cids = high_priority_cids s\<rparr>"

definition fifo_serve :: "fifo \<Rightarrow> (Cid \<times> fifo) option" where
  "fifo_serve s = map_option (\<lambda>(c, s). (c, unregister_if_empty s)) (fifo_next_channel s)"

lemma expand_append [simp]: "expand (xs @ ys) = expand xs @ expand ys"
  by (simp add: expand_def)

lemma expand_simps [simp]: "expand [] = []" "expand ((c, n) # xs) = replicate (nat n) c @ expand xs"
  by (simp_all add: expand_def)

lemma schedule_abs_unregister [simp]: "schedule_abs (unregister_if_empty s) = schedule_abs s"
  by (simp add: schedule_abs_def unregister_if_empty_def)

lemma abs_ready: "schedule_abs (fifo_OnPacketsReady c n s) = spec_ready c (nat n) (schedule_abs s)"
  by (simp add: schedule_abs_def spec_ready_def fifo_OnPacketsReady_def Let_def try_register_link_queue_enqueue_def
      mpq_push_def)

lemma abs_priority: "schedule_abs (fifo_SetChannelTxPriority c h s) = spec_priority c h (schedule_abs s)"
  by (simp add: schedule_abs_def spec_priority_def fifo_SetChannelTxPriority_def)

lemma abs_next:
  assumes ok: "fifo_ok s"
  shows "map_option (\<lambda>(c, s). (c, schedule_abs s)) (fifo_serve s) = spec_next (schedule_abs s)"
proof (cases "mpq_empty (ready_queue s)")
  case True
  then show ?thesis using ok
    by (simp add: fifo_serve_def fifo_next_channel_def ASSERT_def schedule_abs_def fifo_ok_def mpq_ok_empty)
next
  case False
  have q: "mpq_ok (ready_queue s)" and pos: "\<forall>(c, n)\<in>set (mpq_items (ready_queue s)). 0 < n"
    using ok by (auto simp: fifo_ok_def)
  have step: "0 < n \<Longrightarrow> replicate (nat n) c = c # replicate (nat (n - 1)) c" for n :: int and c
  proof -
    assume "0 < n"
    then have "nat n = Suc (nat (n - 1))" by linarith
    then show ?thesis by simp
  qed
  note hd = mpq_ok_hd [OF q False]
  show ?thesis
  proof (cases "mpq_queues (ready_queue s) 1")
    case Nil
    with hd obtain c n xs where "mpq_queues (ready_queue s) 0 = (c, n) # xs"
      by (cases "mpq_queues (ready_queue s) 0") auto
    with hd pos Nil False step [of n c] show ?thesis
      by (simp add: fifo_serve_def fifo_next_channel_def schedule_abs_def mpq_front_def mpq_set_front_def mpq_pop_def
          mpq_items_def unregister_if_empty_def Let_def)
  next
    case (Cons x xs)
    with hd pos False step [of "snd x" "fst x"] show ?thesis
      by (cases x) (simp add: fifo_serve_def fifo_next_channel_def schedule_abs_def mpq_front_def mpq_set_front_def
          mpq_pop_def mpq_items_def unregister_if_empty_def Let_def)
  qed
qed

text \<open>C5: the scheduler implements its promise.  With the abstraction that lists the announced
  packets of high and of normal priority, announcing packets appends to the list of the channel's
  priority, changing a priority only affects later announcements, and the callback of the link
  queue serves exactly the head of the high list, or of the low list when there is none.  Every
  operation keeps the invariant that the callback is registered exactly while packets are
  announced.\<close>

theorem scheduler_refines_priority_order:
  assumes "fifo_ok s" "0 \<le> n"
  shows "schedule_abs (fifo_OnPacketsReady c n s) = spec_ready c (nat n) (schedule_abs s) \<and>
    schedule_abs (fifo_SetChannelTxPriority c h s) = spec_priority c h (schedule_abs s) \<and>
    map_option (\<lambda>(c, s). (c, schedule_abs s)) (fifo_serve s) = spec_next (schedule_abs s) \<and>
    fifo_ok (fifo_OnPacketsReady c n s) \<and> fifo_ok (fifo_SetChannelTxPriority c h s) \<and>
    pred_option (\<lambda>(c, s). fifo_ok s) (fifo_serve s)"
proof -
  have "pred_option (\<lambda>(c, s). fifo_ok s) (fifo_serve s)"
  proof (cases "mpq_empty (ready_queue s)")
    case True
    then show ?thesis by (simp add: fifo_serve_def fifo_next_channel_def ASSERT_def)
  next
    case False
    then show ?thesis using next_channel [OF assms(1) False] by (auto simp: fifo_serve_def)
  qed
  then show ?thesis
    using assms abs_ready abs_priority abs_next OnPacketsReady_ok SetChannelTxPriority_keeps(1) by blast
qed

theorem scheduler_refines_priority_order_witness:
  "map_option (\<lambda>(c, s). (c, schedule_abs s)) (fifo_serve (fifo_OnPacketsReady 64 2 Fifo)) =
     Some (64, \<lparr>sp_high = [], sp_low = [64], sp_cids = {}\<rparr>)"
proof -
  have "fifo_ok (fifo_OnPacketsReady 64 2 Fifo)" by (simp add: OnPacketsReady_ok fifo_ok_init)
  moreover have "schedule_abs (fifo_OnPacketsReady 64 2 Fifo) = \<lparr>sp_high = [], sp_low = [64, 64], sp_cids = {}\<rparr>"
    by (simp add: fifo_OnPacketsReady_def try_register_link_queue_enqueue_def mpq_push_def schedule_abs_def Fifo_def
        mpq_empty_queue_def numeral_2_eq_2)
  ultimately show ?thesis
    using scheduler_refines_priority_order [of "fifo_OnPacketsReady 64 2 Fifo" 0 0 False] by simp
qed

text \<open>RemoveChannel compares the number of packets of an entry with the channel identifier.  A
  channel that is removed while packets of it are announced stays in the ready queue, and an
  entry of another channel goes when its number of packets happens to equal the identifier.\<close>

theorem RemoveChannel_removes_wrong_entry:
  "schedule (fifo_RemoveChannel 64 (fifo_OnPacketsReady 64 1 Fifo)) = [64] \<and>
   schedule (fifo_RemoveChannel 64 (fifo_OnPacketsReady 65 64 Fifo)) = []"
  by (simp add: fifo_RemoveChannel_def fifo_OnPacketsReady_def Fifo_def mpq_empty_queue_def Let_def
      try_register_link_queue_enqueue_def remove_loop.simps mpq_push_def mpq_pop_def mpq_front_def mpq_size_def
      unregister_if_empty_def schedule_def mpq_items_def mpq_empty_def)

end
