(* ===== verification/Mode_Controllers.thy ===== *)
theory Mode_Controllers
  imports L2cap_Packets Ertm_Props
begin

text \<open>
  The two other data controllers: basic mode
  (l2cap/internal/basic\_mode\_channel\_data\_controller.cc) and LE credit based flow control
  (l2cap/internal/le\_credit\_based\_channel\_data\_controller.cc).
\<close>

datatype basic_pdu =
    BasicFrame Cid bytes
  | FirstLeInformationFrame Cid u16 bytes

fun encode_basic :: "basic_pdu \<Rightarrow> bytes" where
  "encode_basic (BasicFrame cid payload) = basic_frame cid payload"
| "encode_basic (FirstLeInformationFrame cid sdu_length payload) = basic_frame cid (le16 sdu_length @ payload)"

subsection \<open>BasicModeDataController\<close>

record basic_ctrl =
  bm_cid :: Cid
  bm_remote_cid :: Cid
  bm_enqueue_buffer :: "packet_view enqueue_buffer"
  bm_pdu_queue :: "basic_pdu list"
  bm_effects :: "ctrl_effect list"

definition BasicModeDataController :: "Cid \<Rightarrow> Cid \<Rightarrow> basic_ctrl" where
  "BasicModeDataController cid remote_cid =
     \<lparr>bm_cid = cid, bm_remote_cid = remote_cid, bm_enqueue_buffer = EnqueueBuffer, bm_pdu_queue = [],
      bm_effects = []\<rparr>"

definition bm_OnSdu :: "bytes \<Rightarrow> basic_ctrl \<Rightarrow> basic_ctrl" where
  "bm_OnSdu sdu s =
     s\<lparr>bm_pdu_queue := bm_pdu_queue s @ [BasicFrame (bm_remote_cid s) sdu],
       bm_effects := bm_effects s @ [OnPacketsReady (bm_cid s) 1]\<rparr>"

definition bm_OnPdu :: "packet_view \<Rightarrow> basic_ctrl \<Rightarrow> basic_ctrl" where
  "bm_OnPdu pdu s =
     (case BasicFrameView pdu of None \<Rightarrow> s
      | Some (_, payload) \<Rightarrow> s\<lparr>bm_enqueue_buffer := eb_Enqueue payload (bm_enqueue_buffer s)\<rparr>)"

definition bm_GetNextPacket :: "basic_ctrl \<Rightarrow> (basic_pdu \<times> basic_ctrl) option" where
  "bm_GetNextPacket s =
     (case bm_pdu_queue s of [] \<Rightarrow> None | next # rest \<Rightarrow> Some (next, s\<lparr>bm_pdu_queue := rest\<rparr>))"

subsection \<open>LeCreditBasedDataController\<close>

record le_ctrl =
  le_cid :: Cid
  le_remote_cid :: Cid
  le_enqueue_buffer :: "packet_view enqueue_buffer"
  le_pdu_queue :: "basic_pdu list"
  le_mtu :: Mtu
  le_mps :: u16
  le_credits :: u16
  pending_frames_count :: u16
  le_reassembly_stage :: packet_view
  le_remaining :: u16
  le_effects :: "ctrl_effect list"

definition LeCreditBasedDataController :: "Cid \<Rightarrow> Cid \<Rightarrow> le_ctrl" where
  "LeCreditBasedDataController cid remote_cid =
     \<lparr>le_cid = cid, le_remote_cid = remote_cid, le_enqueue_buffer = EnqueueBuffer, le_pdu_queue = [],
      le_mtu = 512, le_mps = 251, le_credits = 0, pending_frames_count = 0,
      le_reassembly_stage = PacketView [], le_remaining = 0, le_effects = []\<rparr>"

abbreviation le_emit :: "ctrl_effect \<Rightarrow> le_ctrl \<Rightarrow> le_ctrl" where
  "le_emit e s \<equiv> s\<lparr>le_effects := le_effects s @ [e]\<rparr>"

definition le_queue_segments :: "u16 \<Rightarrow> bytes list \<Rightarrow> le_ctrl \<Rightarrow> le_ctrl option" where
  "le_queue_segments sdu_size segments s =
     (case segments of [] \<Rightarrow> None
      | first # rest \<Rightarrow>
        Some (s\<lparr>le_pdu_queue := le_pdu_queue s @
                 FirstLeInformationFrame (le_remote_cid s) sdu_size first #
                 map (BasicFrame (le_remote_cid s)) rest\<rparr>))"

definition le_spend_credits :: "nat \<Rightarrow> le_ctrl \<Rightarrow> le_ctrl" where
  "le_spend_credits n s =
     (if n \<le> unat (le_credits s)
      then (le_emit (OnPacketsReady (le_cid s) (int n)) s)\<lparr>le_credits := le_credits s - size_u16 n\<rparr>
      else if 0 < le_credits s
      then (le_emit (OnPacketsReady (le_cid s) (uint (le_credits s))) s)
             \<lparr>pending_frames_count := pending_frames_count s + size_u16 (n - unat (le_credits s)),
              le_credits := 0\<rparr>
      else s\<lparr>pending_frames_count := pending_frames_count s + size_u16 n\<rparr>)"

definition le_segment_size :: "le_ctrl \<Rightarrow> nat" where
  "le_segment_size s = nat ((uint (le_mps s) - 2) mod 2 ^ 64)"

definition le_OnSdu :: "bytes \<Rightarrow> le_ctrl \<Rightarrow> le_ctrl option" where
  "le_OnSdu sdu s =
     (if length sdu = 0 then Some s
      else do {
        segments \<leftarrow> segments_of (le_segment_size s) sdu;
        s \<leftarrow> le_queue_segments (size_u16 (length sdu)) segments s;
        Some (le_spend_credits (length segments) s) })"

definition le_stage :: "packet_view \<Rightarrow> packet_view \<Rightarrow> le_ctrl \<Rightarrow> le_ctrl option option" where
  "le_stage pdu payload s =
     (if le_remaining s = 0
      then (case FirstLeInformationFrameView pdu of None \<Rightarrow> Some None
            | Some (sdu_size, payload) \<Rightarrow>
              Some (Some (s\<lparr>le_remaining := sdu_size - size_u16 (pv_length payload),
                            le_reassembly_stage := payload\<rparr>)))
      else do {
        stage \<leftarrow> Append (le_reassembly_stage s) payload;
        Some (Some (s\<lparr>le_remaining := le_remaining s - size_u16 (pv_length payload),
                      le_reassembly_stage := stage\<rparr>)) })"

text \<open>The comparison of the unsigned remaining size with zero is never true.\<close>

definition le_finish :: "le_ctrl \<Rightarrow> le_ctrl" where
  "le_finish s =
    (let s = (if le_remaining s = 0
              then s\<lparr>le_enqueue_buffer := eb_Enqueue (le_reassembly_stage s) (le_enqueue_buffer s)\<rparr>
              else if le_remaining s < 0 \<or> unat (le_mtu s) < pv_length (le_reassembly_stage s)
              then le_emit (SendDisconnectionRequest (le_cid s) (le_remote_cid s))
                     (s\<lparr>le_reassembly_stage := PacketView [], le_remaining := 0\<rparr>)
              else s)
     in le_emit (SendLeCredit (le_cid s) 1) s)"

text \<open>
  OnPdu; \<open>le_stage\<close> is the first-or-continuation part (\<open>Some None\<close> when the first frame is not
  valid and the handler returns), \<open>le_finish\<close> what follows it.
\<close>

definition le_OnPdu :: "packet_view \<Rightarrow> le_ctrl \<Rightarrow> le_ctrl option" where
  "le_OnPdu pdu s =
     (case BasicFrameView pdu of None \<Rightarrow> Some s
      | Some (_, payload) \<Rightarrow>
        if unat (le_mps s) < pv_length pdu then Some s
        else do {
          staged \<leftarrow> le_stage pdu payload s;
          Some (case staged of None \<Rightarrow> s | Some s \<Rightarrow> le_finish s) })"

definition le_GetNextPacket :: "le_ctrl \<Rightarrow> (basic_pdu \<times> le_ctrl) option" where
  "le_GetNextPacket s =
     (case le_pdu_queue s of [] \<Rightarrow> None | next # rest \<Rightarrow> Some (next, s\<lparr>le_pdu_queue := rest\<rparr>))"

definition le_SetMtu :: "Mtu \<Rightarrow> le_ctrl \<Rightarrow> le_ctrl" where
  "le_SetMtu mtu s = s\<lparr>le_mtu := mtu\<rparr>"

definition le_SetMps :: "u16 \<Rightarrow> le_ctrl \<Rightarrow> le_ctrl" where
  "le_SetMps mps s = s\<lparr>le_mps := mps\<rparr>"

definition le_OnCredit :: "u16 \<Rightarrow> le_ctrl \<Rightarrow> le_ctrl" where
  "le_OnCredit credits s =
    (let total_credits = uint (le_credits s) + uint credits;
         s = (if 0xffff < total_credits
              then le_emit (SendDisconnectionRequest (le_cid s) (le_remote_cid s)) s else s);
         s = s\<lparr>le_credits := to_u16 total_credits\<rparr>
     in if 0 < pending_frames_count s \<and> pending_frames_count s \<le> le_credits s
        then (let s = le_emit (OnPacketsReady (le_cid s) (uint (pending_frames_count s))) s;
                  s = s\<lparr>pending_frames_count := 0\<rparr>
              in s\<lparr>le_credits := le_credits s - pending_frames_count s\<rparr>)
        else if 0 < pending_frames_count s
        then (let s = le_emit (OnPacketsReady (le_cid s) (uint (le_credits s))) s;
                  s = s\<lparr>pending_frames_count := pending_frames_count s - le_credits s\<rparr>
              in s\<lparr>le_credits := 0\<rparr>)
        else s)"

subsection \<open>Frames announced and frames queued\<close>

definition le_balance :: "le_ctrl \<Rightarrow> int" where
  "le_balance s = announced (le_effects s) + uint (pending_frames_count s) - int (length (le_pdu_queue s))"

lemma uint_size_u16: "n < 65536 \<Longrightarrow> uint (size_u16 n) = int n"
  by (simp add: uint_nat unat_size_u16)

lemma uint_add_u16:
  assumes "uint (a :: u16) + int n < 65536" shows "uint (a + size_u16 n) = uint a + int n"
proof -
  have "0 \<le> uint a" by simp
  with assms have "n < 65536" by linarith
  then have "uint (size_u16 n) = int n" by (rule uint_size_u16)
  with assms show ?thesis by (simp add: uint_plus_if_size word_size)
qed

lemma announced_Cons: "announced (e # d # es) = announced [e] + announced (d # es)"
  using announced_append [of "[e]" "d # es"] by simp

lemma spend_credits_cases:
  obtains
    (enough) "n \<le> unat (le_credits s)"
      "le_spend_credits n s = (le_emit (OnPacketsReady (le_cid s) (int n)) s)\<lparr>le_credits := le_credits s - size_u16 n\<rparr>"
  | (some) "unat (le_credits s) < n" "0 < unat (le_credits s)"
      "le_spend_credits n s = (le_emit (OnPacketsReady (le_cid s) (int (unat (le_credits s)))) s)
             \<lparr>pending_frames_count := pending_frames_count s + size_u16 (n - unat (le_credits s)), le_credits := 0\<rparr>"
  | (none) "unat (le_credits s) < n" "unat (le_credits s) = 0"
      "le_spend_credits n s = s\<lparr>pending_frames_count := pending_frames_count s + size_u16 (n - unat (le_credits s))\<rparr>"
proof (cases "n \<le> unat (le_credits s)")
  case True
  then show ?thesis by (intro enough) (simp_all add: le_spend_credits_def)
next
  case False
  show ?thesis
  proof (cases "le_credits s = 0")
    case True
    with False show ?thesis by (intro none) (simp_all add: le_spend_credits_def)
  next
    case c: False
    then have "0 < unat (le_credits s)" by (simp add: unat_gt_0)
    with False c show ?thesis by (intro some) (simp_all add: le_spend_credits_def word_gt_0)
  qed
qed

lemma unat_sub_u16: "n \<le> unat (c :: u16) \<Longrightarrow> unat (c - size_u16 n) = unat c - n"
proof -
  assume "n \<le> unat c"
  moreover from this have "unat (size_u16 n) = n" using unat_u16_lt [of c] by (intro unat_size_u16) linarith
  ultimately show ?thesis by (simp add: unat_sub_if_size)
qed

lemma spend_credits_queue: "le_pdu_queue (le_spend_credits n s) = le_pdu_queue s"
  by (simp add: le_spend_credits_def)

lemma spend_credits_announced:
  "announced (le_effects (le_spend_credits n s)) = announced (le_effects s) + int (min n (unat (le_credits s)))"
  by (cases n s rule: spend_credits_cases) simp_all

lemma spend_credits_credits: "unat (le_credits (le_spend_credits n s)) = unat (le_credits s) - n"
  by (cases n s rule: spend_credits_cases) (simp_all add: unat_sub_u16)

lemma spend_credits_pending:
  assumes "uint (pending_frames_count s) + int n < 65536"
  shows "uint (pending_frames_count (le_spend_credits n s)) =
     uint (pending_frames_count s) + int (n - unat (le_credits s))"
proof -
  have "uint (pending_frames_count s) + int (n - unat (le_credits s)) < 65536" using assms by linarith
  note add = uint_add_u16 [OF this]
  show ?thesis
    by (cases n s rule: spend_credits_cases) (simp_all add: add uint_add_u16 [OF assms] del: of_nat_diff)
qed

lemma OnSdu_parts:
  assumes "le_OnSdu sdu s = Some s'" "sdu \<noteq> []"
  obtains segs t where "segments_of (le_segment_size s) sdu = Some segs" "segs \<noteq> []"
    "t = s\<lparr>le_pdu_queue := le_pdu_queue s @
       FirstLeInformationFrame (le_remote_cid s) (size_u16 (length sdu)) (hd segs) #
       map (BasicFrame (le_remote_cid s)) (tl segs)\<rparr>"
    "s' = le_spend_credits (length segs) t"
proof -
  obtain segs t where 1: "segments_of (le_segment_size s) sdu = Some segs"
    "le_queue_segments (size_u16 (length sdu)) segs s = Some t" "s' = le_spend_credits (length segs) t"
    using assms by (auto simp: le_OnSdu_def bind_eq_Some_conv)
  moreover from 1(2) obtain x xs where "segs = x # xs" by (cases segs) (auto simp: le_queue_segments_def)
  ultimately show thesis using that by (auto simp: le_queue_segments_def)
qed

lemma OnSdu_balance:
  assumes "le_OnSdu sdu s = Some s'" "segments_of (le_segment_size s) sdu = Some segs"
    "uint (pending_frames_count s) + int (length segs) < 65536"
  shows "le_balance s' = le_balance s"
proof (cases "sdu = []")
  case True
  with assms show ?thesis by (simp add: le_OnSdu_def)
next
  case False
  obtain segs' t where *: "segments_of (le_segment_size s) sdu = Some segs'" "segs' \<noteq> []"
    "t = s\<lparr>le_pdu_queue := le_pdu_queue s @
       FirstLeInformationFrame (le_remote_cid s) (size_u16 (length sdu)) (hd segs') #
       map (BasicFrame (le_remote_cid s)) (tl segs')\<rparr>"
    "s' = le_spend_credits (length segs') t"
    by (rule OnSdu_parts [OF assms(1) False])
  then have "uint (pending_frames_count t) + int (length segs) < 65536" "segs' = segs"
    using assms(2,3) by simp_all
  with spend_credits_pending [of t "length segs"] * show ?thesis
    by (cases segs) (auto simp: le_balance_def min_def spend_credits_queue spend_credits_announced)
qed

lemma OnCredit_balance:
  "le_balance (le_OnCredit k s) = le_balance s"
proof -
  let ?c = "to_u16 (uint (le_credits s) + uint k)"
  have "\<not> pending_frames_count s \<le> ?c \<Longrightarrow>
      uint (pending_frames_count s - ?c) = uint (pending_frames_count s) - uint ?c"
    by (simp add: not_le word_less_def uint_sub_if_size)
  then show ?thesis
    by (auto simp: le_OnCredit_def Let_def le_balance_def announced_Cons simp del: of_int_add)
qed

lemma le_stage_keeps:
  "le_stage pdu p s = Some (Some t) \<Longrightarrow>
   le_effects t = le_effects s \<and> le_pdu_queue t = le_pdu_queue s \<and> pending_frames_count t = pending_frames_count s \<and>
   le_credits t = le_credits s \<and> le_enqueue_buffer t = le_enqueue_buffer s"
  by (auto simp: le_stage_def bind_eq_Some_conv split: if_split_asm option.split_asm prod.split_asm)

lemma le_OnPdu_cases:
  assumes "le_OnPdu pdu s = Some s'"
  obtains "s' = s" | c payload t where "BasicFrameView pdu = Some (c, payload)" "pv_length pdu \<le> unat (le_mps s)"
    "le_stage pdu payload s = Some (Some t)" "s' = le_finish t"
proof (cases "BasicFrameView pdu")
  case None
  with assms that(1) show ?thesis by (simp add: le_OnPdu_def)
next
  case (Some x)
  obtain c payload where x: "x = (c, payload)" by (cases x)
  show ?thesis
  proof (cases "unat (le_mps s) < pv_length pdu")
    case True
    with assms Some x that(1) show ?thesis by (simp add: le_OnPdu_def)
  next
    case False
    then obtain st where st: "le_stage pdu payload s = Some st"
      using assms Some x by (auto simp: le_OnPdu_def bind_eq_Some_conv)
    show ?thesis
    proof (cases st)
      case None
      with assms Some x False st that(1) show ?thesis by (simp add: le_OnPdu_def)
    next
      case (Some t)
      then have "s' = le_finish t"
        using assms \<open>BasicFrameView pdu = Some x\<close> x False st by (simp add: le_OnPdu_def)
      with that(2) \<open>BasicFrameView pdu = Some x\<close> x False st Some show ?thesis by simp
    qed
  qed
qed

lemma le_finish_keeps:
  "le_pdu_queue (le_finish s) = le_pdu_queue s" "pending_frames_count (le_finish s) = pending_frames_count s"
  "announced (le_effects (le_finish s)) = announced (le_effects s)"
  by (simp_all add: le_finish_def Let_def announced_Cons)

lemma OnPdu_balance: "le_OnPdu pdu s = Some s' \<Longrightarrow> le_balance s' = le_balance s"
  by (erule le_OnPdu_cases) (auto simp: le_balance_def le_finish_keeps dest!: le_stage_keeps)


text \<open>
  The controller and every sequence of SDUs, PDUs, credits and fetched packets.  The counter of
  frames waiting for credits has 16 bits; the sequences are those in which it does not overflow.
\<close>

inductive le_reach :: "le_ctrl \<Rightarrow> nat \<Rightarrow> le_ctrl \<Rightarrow> bool" for s0 where
  le_init: "le_reach s0 0 s0"
| le_sdu: "le_reach s0 n s \<Longrightarrow> segments_of (le_segment_size s) sdu = Some segs \<Longrightarrow>
     uint (pending_frames_count s) + int (length segs) < 65536 \<Longrightarrow> le_OnSdu sdu s = Some s' \<Longrightarrow> le_reach s0 n s'"
| le_pdu: "le_reach s0 n s \<Longrightarrow> le_OnPdu pdu s = Some s' \<Longrightarrow> le_reach s0 n s'"
| le_credit: "le_reach s0 n s \<Longrightarrow> le_reach s0 n (le_OnCredit k s)"
| le_limits: "le_reach s0 n s \<Longrightarrow> le_reach s0 n (le_SetMps mps (le_SetMtu mtu s))"
| le_get: "le_reach s0 n s \<Longrightarrow> le_GetNextPacket s = Some (pdu, s') \<Longrightarrow> le_reach s0 (Suc n) s'"

lemma le_reach_balance: "le_reach s0 n s \<Longrightarrow> le_balance s = le_balance s0 + int n"
proof (induction rule: le_reach.induct)
  case (le_sdu n s sdu segs s')
  then show ?case using OnSdu_balance by metis
next
  case (le_get n s pdu s')
  then show ?case by (auto simp: le_GetNextPacket_def le_balance_def split: list.split_asm)
next
  case (le_limits n s mps mtu)
  then show ?case by (simp add: le_SetMps_def le_SetMtu_def le_balance_def)
qed (simp_all add: OnPdu_balance OnCredit_balance)

subsection \<open>Segmentation and reassembly with credits\<close>

definition le_receives :: "le_ctrl \<Rightarrow> nat \<Rightarrow> bytes \<Rightarrow> le_ctrl \<Rightarrow> bool" where
  "le_receives s n sdu s' \<longleftrightarrow> le_remaining s' = 0 \<and>
     le_effects s' = le_effects s @ replicate n (SendLeCredit (le_cid s) 1) \<and>
     (\<exists>v. eb_buffer (le_enqueue_buffer s') = eb_buffer (le_enqueue_buffer s) @ [v] \<and> bytes_of v = sdu)"

definition le_between :: "le_ctrl \<Rightarrow> bytes \<Rightarrow> bytes \<Rightarrow> bool" where
  "le_between s pre rest \<longleftrightarrow> pv_ok (le_reassembly_stage s) \<and> fragments (le_reassembly_stage s) \<noteq> [] \<and>
     bytes_of (le_reassembly_stage s) = pre \<and> le_remaining s = size_u16 (length rest) \<and>
     length pre + length rest \<le> unat (le_mtu s)"

lemma size_u16_nonzero: "0 < n \<Longrightarrow> n < 65536 \<Longrightarrow> size_u16 n \<noteq> 0"
  using unat_size_u16 [of n] by (metis unat_0 less_not_refl)

lemma le_finish_last:
  "le_between s pre [] \<Longrightarrow> le_receives s 1 pre (le_finish s)"
  by (simp add: le_between_def le_finish_def le_receives_def eb_Enqueue_def)

lemma le_finish_more:
  assumes "le_between s pre rest" "rest \<noteq> []"
  shows "le_finish s = le_emit (SendLeCredit (le_cid s) 1) s"
proof -
  have "length rest < 65536" using assms(1) unat_u16_lt [of "le_mtu s"] by (simp add: le_between_def)
  then have "le_remaining s \<noteq> 0" using assms size_u16_nonzero [of "length rest"] by (simp add: le_between_def)
  moreover have "pv_length (le_reassembly_stage s) \<le> unat (le_mtu s)"
    using assms(1) bytes_of_length [of "le_reassembly_stage s"] by (simp add: le_between_def)
  ultimately show ?thesis by (simp add: le_finish_def)
qed

lemma le_continuation:
  assumes "le_between s pre (seg @ rest)" "seg \<noteq> []" "length seg < 65530" "4 + length seg \<le> unat (le_mps s)"
  shows "\<exists>t. le_OnPdu (PacketView (basic_frame c seg)) s = Some (le_finish t) \<and> le_between t (pre @ seg) rest \<and>
     le_effects t = le_effects s \<and> le_cid t = le_cid s \<and> le_enqueue_buffer t = le_enqueue_buffer s \<and>
     le_mps t = le_mps s"
proof -
  obtain v where v: "BasicFrameView (PacketView (basic_frame c seg)) = Some (c, v)" "pv_ok v" "bytes_of v = seg"
    using BasicFrameView_basic_frame [of seg c] assms(3) by auto
  obtain st where st: "Append (le_reassembly_stage s) v = Some st" "pv_ok st" "bytes_of st = pre @ seg" "fragments st \<noteq> []"
    using assms(1) v by (auto simp: le_between_def elim: Append_Some)
  have "length (seg @ rest) < 65536" using assms(1) unat_u16_lt [of "le_mtu s"] by (simp add: le_between_def)
  then have nz: "le_remaining s \<noteq> 0"
    using assms(1,2) size_u16_nonzero [of "length (seg @ rest)"] by (simp add: le_between_def)
  have len: "pv_length v = length seg" using bytes_of_length [OF v(2)] v(3) by simp
  have plen: "pv_length (PacketView (basic_frame c seg)) = 4 + length seg"
    using bytes_of_length [OF PacketView_ok, of "basic_frame c seg"] by simp
  let ?t = "s\<lparr>le_remaining := le_remaining s - size_u16 (pv_length v), le_reassembly_stage := st\<rparr>"
  have "le_OnPdu (PacketView (basic_frame c seg)) s = Some (le_finish ?t)"
    using v nz st plen assms(4) by (simp add: le_OnPdu_def le_stage_def)
  moreover have "le_between ?t (pre @ seg) rest"
    using assms(1) st len by (simp add: le_between_def)
  ultimately show ?thesis by (intro exI [of _ ?t]) simp
qed

lemma le_continuations:
  assumes "le_between s pre (concat segs)" "segs \<noteq> []" "\<forall>x\<in>set segs. x \<noteq> [] \<and> length x < 65530 \<and> 4 + length x \<le> unat (le_mps s)"
  shows "\<exists>s'. foldM (\<lambda>x. le_OnPdu (PacketView (basic_frame c x))) segs s = Some s' \<and>
     le_receives s (length segs) (pre @ concat segs) s'"
  using assms
proof (induction segs arbitrary: s pre)
  case (Cons x xs)
  from le_continuation [of s pre x "concat xs" c] Cons.prems obtain t where
    t: "le_OnPdu (PacketView (basic_frame c x)) s = Some (le_finish t)" "le_between t (pre @ x) (concat xs)"
       "le_effects t = le_effects s" "le_cid t = le_cid s" "le_enqueue_buffer t = le_enqueue_buffer s" "le_mps t = le_mps s"
    by auto
  show ?case
  proof (cases xs)
    case Nil
    with t le_finish_last [of t "pre @ x"] show ?thesis by (simp add: le_receives_def)
  next
    case (Cons y ys)
    then have "concat xs \<noteq> []" using Cons.prems by auto
    then have f: "le_finish t = le_emit (SendLeCredit (le_cid t) 1) t" using le_finish_more t(2) by blast
    have "le_between (le_finish t) (pre @ x) (concat xs)" using t(2) by (simp add: f le_between_def)
    from Cons.IH [OF this] Cons Cons.prems t(6) obtain s' where
      "foldM (\<lambda>x. le_OnPdu (PacketView (basic_frame c x))) xs (le_finish t) = Some s'"
      "le_receives (le_finish t) (length xs) ((pre @ x) @ concat xs) s'"
      by (auto simp: f)
    with t show ?thesis by (auto simp: le_receives_def f)
  qed
qed simp

lemma le_first:
  assumes "le_remaining s = 0" "seg \<noteq> []" "length seg < 65530" "6 + length seg \<le> unat (le_mps s)"
    "length seg + length rest \<le> unat (le_mtu s)" "n = size_u16 (length seg + length rest)"
  shows "\<exists>t. le_OnPdu (PacketView (basic_frame c (le16 n @ seg))) s = Some (le_finish t) \<and> le_between t seg rest \<and>
     le_effects t = le_effects s \<and> le_cid t = le_cid s \<and> le_enqueue_buffer t = le_enqueue_buffer s \<and>
     le_mps t = le_mps s"
proof -
  let ?p = "PacketView (basic_frame c (le16 n @ seg))"
  obtain v where v: "FirstLeInformationFrameView ?p = Some (n, v)" "pv_ok v" "bytes_of v = seg"
    using FirstLeInformationFrameView_basic_frame [OF assms(3), of c n] by auto
  obtain w where w: "BasicFrameView ?p = Some (c, w)"
    using BasicFrameView_basic_frame [of "le16 n @ seg" c] assms(3) by auto
  have len: "pv_length v = length seg" using bytes_of_length [OF v(2)] v(3) by simp
  have plen: "pv_length ?p = 6 + length seg"
    using bytes_of_length [OF PacketView_ok, of "basic_frame c (le16 n @ seg)"] by simp
  let ?t = "s\<lparr>le_remaining := n - size_u16 (pv_length v), le_reassembly_stage := v\<rparr>"
  have "le_OnPdu ?p s = Some (le_finish ?t)"
    using v(1) w plen assms(1,4) by (simp add: le_OnPdu_def le_stage_def)
  moreover have "le_between ?t seg rest"
    using v len assms(2,5,6) nonempty_fragments [of v] by (simp add: le_between_def)
  ultimately show ?thesis by (intro exI [of _ ?t]) simp
qed

lemma le_segments_received:
  assumes "le_remaining s = 0" "segs \<noteq> []" "length (concat segs) \<le> unat (le_mtu s)"
    "\<forall>x\<in>set segs. x \<noteq> [] \<and> 6 + length x \<le> unat (le_mps s)"
  shows "\<exists>s'. foldM (\<lambda>pdu. le_OnPdu (PacketView (encode_basic pdu)))
       (FirstLeInformationFrame c (size_u16 (length (concat segs))) (hd segs) # map (BasicFrame c) (tl segs)) s = Some s' \<and>
     le_receives s (length segs) (concat segs) s'"
proof -
  obtain x xs where segs: "segs = x # xs" using assms(2) by (cases segs) auto
  have small: "y \<in> set segs \<Longrightarrow> y \<noteq> [] \<and> length y < 65530 \<and> 6 + length y \<le> unat (le_mps s)" for y
    using assms(4) unat_u16_lt [of "le_mps s"] by force
  obtain t where t: "le_OnPdu (PacketView (basic_frame c (le16 (size_u16 (length (concat segs))) @ x))) s = Some (le_finish t)"
    "le_between t x (concat xs)" "le_effects t = le_effects s" "le_cid t = le_cid s"
    "le_enqueue_buffer t = le_enqueue_buffer s" "le_mps t = le_mps s"
    using le_first [of s x "concat xs" "size_u16 (length (concat segs))" c] assms(1,3) small [of x] by (auto simp: segs)
  have fm: "foldM (\<lambda>pdu. le_OnPdu (PacketView (encode_basic pdu))) (map (BasicFrame c) ys) u =
      foldM (\<lambda>x. le_OnPdu (PacketView (basic_frame c x))) ys u" for ys u
  proof (induction ys arbitrary: u)
    case (Cons y ys)
    then show ?case by (cases "le_OnPdu (PacketView (basic_frame c y)) u") simp_all
  qed simp
  show ?thesis
  proof (cases xs)
    case Nil
    with t le_finish_last [of t x] show ?thesis by (simp add: segs le_receives_def)
  next
    case (Cons y ys)
    then have "concat xs \<noteq> []" using small [of y] by (auto simp: segs)
    then have f: "le_finish t = le_emit (SendLeCredit (le_cid t) 1) t" using le_finish_more t(2) by blast
    have "le_between (le_finish t) x (concat xs)" using t(2) by (simp add: f le_between_def)
    moreover have "\<forall>y\<in>set xs. y \<noteq> [] \<and> length y < 65530 \<and> 4 + length y \<le> unat (le_mps (le_finish t))"
      using small t(6) by (force simp: f segs)
    ultimately obtain s' where
      "foldM (\<lambda>x. le_OnPdu (PacketView (basic_frame c x))) xs (le_finish t) = Some s'"
      "le_receives (le_finish t) (length xs) (x @ concat xs) s'"
      using le_continuations [of "le_finish t" x xs c] Cons by auto
    with t show ?thesis by (auto simp: segs le_receives_def f fm)
  qed
qed

subsection \<open>Properties\<close>

lemma le_segment_size_eq: "2 \<le> unat (le_mps s) \<Longrightarrow> le_segment_size s = unat (le_mps s) - 2"
proof -
  assume a: "2 \<le> unat (le_mps s)"
  have "uint (le_mps s) = int (unat (le_mps s))" by simp
  then have "2 \<le> uint (le_mps s)" "uint (le_mps s) < 65536" using a unat_u16_lt [of "le_mps s"] by linarith+
  then have "(uint (le_mps s) - 2) mod 2 ^ 64 = uint (le_mps s) - 2" by (intro mod_pos_pos_trivial) auto
  then show ?thesis by (simp add: le_segment_size_def nat_diff_distrib)
qed

lemma le_segments:
  assumes "sdu \<noteq> []" "3 \<le> unat (le_mps s)"
  obtains x xs where "segments_of (le_segment_size s) sdu = Some (x # xs)" "concat (x # xs) = sdu"
    "\<forall>y\<in>set (x # xs). y \<noteq> [] \<and> length y + 2 \<le> unat (le_mps s)"
proof -
  let ?k = "le_segment_size s"
  have k: "0 < ?k" "?k + 2 \<le> unat (le_mps s)" using assms(2) by (simp_all add: le_segment_size_eq)
  then obtain x xs where c: "chunks ?k sdu = x # xs"
    using assms(1) chunks_empty_iff [of ?k sdu] by (cases "chunks ?k sdu") auto
  have "y \<in> set (x # xs) \<Longrightarrow> y \<noteq> [] \<and> length y + 2 \<le> unat (le_mps s)" for y
    using chunks_bound [of y ?k sdu] c k(2) by simp
  with that [of x xs] segments_of_chunks [OF k(1), of sdu] concat_chunks [OF k(1), of sdu] c
  show thesis by simp
qed

text \<open>C18: the packets an LE credit based controller announces to the scheduler are in its queue.  In
  every state reached from a new controller, the queue holds exactly the announced packets not
  yet fetched and the frames that wait for credits, so fetching an announced packet never hits the
  assertion of GetNextPacket.\<close>

theorem le_announced_packets_available:
  assumes "le_reach (LeCreditBasedDataController cid remote_cid) n s"
  shows "int (length (le_pdu_queue s)) = announced (le_effects s) - int n + uint (pending_frames_count s) \<and>
    (int n < announced (le_effects s) \<longrightarrow> (\<exists>pdu s'. le_GetNextPacket s = Some (pdu, s')))"
proof -
  have "le_balance s = int n"
    using le_reach_balance [OF assms] by (simp add: le_balance_def LeCreditBasedDataController_def)
  then have q: "int (length (le_pdu_queue s)) = announced (le_effects s) - int n + uint (pending_frames_count s)"
    by (simp add: le_balance_def)
  have "0 \<le> uint (pending_frames_count s)" by simp
  with q have "int n < announced (le_effects s) \<Longrightarrow> 0 < int (length (le_pdu_queue s))" by linarith
  with q show ?thesis by (cases "le_pdu_queue s") (auto simp: le_GetNextPacket_def)
qed

lemma sample_le_sent:
  "le_OnSdu [1, 2, 3] (le_OnCredit 5 (LeCreditBasedDataController 64 65)) =
     Some (LeCreditBasedDataController 64 65\<lparr>le_credits := 4,
       le_pdu_queue := [FirstLeInformationFrame 65 3 [1, 2, 3]], le_effects := [OnPacketsReady 64 1]\<rparr>)"
  by (simp add: le_OnSdu_def le_OnCredit_def LeCreditBasedDataController_def Let_def le_segment_size_def
      segments_of_chunks chunks.simps le_queue_segments_def le_spend_credits_def)

theorem le_announced_packets_available_witness:
  "\<exists>s. le_reach (LeCreditBasedDataController 64 65) 0 s \<and> 0 < announced (le_effects s) \<and>
     (\<exists>pdu s'. le_GetNextPacket s = Some (pdu, s'))"
proof -
  let ?s = "LeCreditBasedDataController 64 65\<lparr>le_credits := 4,
       le_pdu_queue := [FirstLeInformationFrame 65 3 [1, 2, 3]], le_effects := [OnPacketsReady 64 1]\<rparr>"
  have "segments_of (le_segment_size (le_OnCredit 5 (LeCreditBasedDataController 64 65))) [1, 2, 3] = Some [[1, 2, 3]]"
    by (simp add: le_OnCredit_def LeCreditBasedDataController_def Let_def le_segment_size_def segments_of_chunks chunks.simps)
  then have r: "le_reach (LeCreditBasedDataController 64 65) 0 ?s"
    by (rule le_sdu [OF le_credit [OF le_init] _ _ sample_le_sent])
       (simp add: le_OnCredit_def LeCreditBasedDataController_def Let_def)
  show ?thesis using le_announced_packets_available [OF r] r by (intro exI [of _ ?s]) (simp add: announced_def)
qed

text \<open>C17: an LE credit based controller never announces more frames than it has credits.  OnSdu
  cuts a non-empty SDU into segments that give back the SDU, queues all of them behind what is
  queued, the first with the size of the SDU, announces as many as the credits allow and takes
  exactly those from the credits.\<close>

theorem le_OnSdu_spends_credits:
  assumes "sdu \<noteq> []" "3 \<le> unat (le_mps s)"
  shows "\<exists>segs s'. concat segs = sdu \<and> (\<forall>x\<in>set segs. x \<noteq> [] \<and> length x + 2 \<le> unat (le_mps s)) \<and>
    le_OnSdu sdu s = Some s' \<and>
    le_pdu_queue s' = le_pdu_queue s @
       FirstLeInformationFrame (le_remote_cid s) (size_u16 (length sdu)) (hd segs) #
       map (BasicFrame (le_remote_cid s)) (tl segs) \<and>
    announced (le_effects s') = announced (le_effects s) + int (min (length segs) (unat (le_credits s))) \<and>
    unat (le_credits s') = unat (le_credits s) - min (length segs) (unat (le_credits s))"
proof -
  obtain x xs where segs: "segments_of (le_segment_size s) sdu = Some (x # xs)" "concat (x # xs) = sdu"
    "\<forall>y\<in>set (x # xs). y \<noteq> [] \<and> length y + 2 \<le> unat (le_mps s)"
    using le_segments [OF assms] by metis
  let ?t = "s\<lparr>le_pdu_queue := le_pdu_queue s @
       FirstLeInformationFrame (le_remote_cid s) (size_u16 (length sdu)) x # map (BasicFrame (le_remote_cid s)) xs\<rparr>"
  have "le_OnSdu sdu s = Some (le_spend_credits (length (x # xs)) ?t)"
    using assms(1) segs(1) by (simp add: le_OnSdu_def le_queue_segments_def)
  moreover have "announced (le_effects (le_spend_credits (length (x # xs)) ?t)) =
      announced (le_effects s) + int (min (length (x # xs)) (unat (le_credits s)))"
    "unat (le_credits (le_spend_credits (length (x # xs)) ?t)) = unat (le_credits s) - min (length (x # xs)) (unat (le_credits s))"
    by (simp_all add: spend_credits_announced spend_credits_credits min_def)
  ultimately show ?thesis
    using segs(2,3) by (intro exI [of _ "x # xs"] exI [of _ "le_spend_credits (length (x # xs)) ?t"])
      (simp add: spend_credits_queue)
qed

theorem le_OnSdu_spends_credits_witness:
  "\<exists>s'. le_OnSdu [1, 2, 3] (LeCreditBasedDataController 64 65) = Some s' \<and> announced (le_effects s') = 0"
  using le_OnSdu_spends_credits [of "[1, 2, 3]" "LeCreditBasedDataController 64 65"]
  by (auto simp: LeCreditBasedDataController_def)



text \<open>The receiver of an LE frame compares the size of the whole frame, header included, with its
  MPS.  A first frame whose segment and SDU length field are within four bytes of the MPS is
  dropped: no byte of it is delivered and no credit is returned.  A sender with the same MPS cuts
  an SDU into such segments.\<close>

theorem le_full_size_frame_dropped:
  assumes "unat (le_mps b) < length seg + 6"
  shows "le_OnPdu (PacketView (encode_basic (FirstLeInformationFrame c n seg))) b = Some b"
proof -
  have "pv_length (PacketView (basic_frame c (le16 n @ seg))) = 6 + length seg"
    using bytes_of_length [OF PacketView_ok, of "basic_frame c (le16 n @ seg)"] by simp
  with assms have "unat (le_mps b) < pv_length (PacketView (encode_basic (FirstLeInformationFrame c n seg)))" by simp
  then show ?thesis by (auto simp: le_OnPdu_def split: option.split prod.split)
qed

theorem le_full_size_frame_dropped_witness:
  "le_OnPdu (PacketView (encode_basic (FirstLeInformationFrame 65 400 (replicate 249 0))))
     (LeCreditBasedDataController 65 64) = Some (LeCreditBasedDataController 65 64)"
  by (rule le_full_size_frame_dropped) (simp add: LeCreditBasedDataController_def)

text \<open>The credits OnCredit hands to frames that were waiting are not taken from the balance.
  When the new credits cover all waiting frames, those frames are announced and the controller
  still has all the credits.\<close>

theorem le_OnCredit_keeps_spent_credits:
  assumes "0 < pending_frames_count s" "unat (le_credits s) + unat k < 65536"
    "unat (pending_frames_count s) \<le> unat (le_credits s) + unat k"
  shows "announced (le_effects (le_OnCredit k s)) = announced (le_effects s) + uint (pending_frames_count s) \<and>
    unat (le_credits (le_OnCredit k s)) = unat (le_credits s) + unat k"
proof -
  have u: "uint (le_credits s) + uint k = int (unat (le_credits s) + unat k)" by simp
  have t: "unat (le_credits s + k) = unat (le_credits s) + unat k"
    using assms(2) by (simp add: unat_plus_if_size word_size)
  have le: "pending_frames_count s \<le> le_credits s + k" using assms(3) t by (simp add: word_le_nat_alt)
  have "\<not> 65535 < uint (le_credits s) + uint k" using assms(2) unfolding u by linarith
  then show ?thesis using assms(1) le t by (simp add: le_OnCredit_def Let_def)
qed

theorem le_OnCredit_keeps_spent_credits_witness:
  "unat (le_credits (le_OnCredit 3 (LeCreditBasedDataController 64 65\<lparr>pending_frames_count := 2\<rparr>))) = 3"
  using le_OnCredit_keeps_spent_credits [of "LeCreditBasedDataController 64 65\<lparr>pending_frames_count := 2\<rparr>" 3]
  by (simp add: LeCreditBasedDataController_def)

lemma bm_OnSdu_all:
  "bm_pdu_queue (fold bm_OnSdu sdus a) = bm_pdu_queue a @ map (BasicFrame (bm_remote_cid a)) sdus \<and>
   announced (bm_effects (fold bm_OnSdu sdus a)) = announced (bm_effects a) + int (length sdus)"
  by (induction sdus arbitrary: a) (simp_all add: bm_OnSdu_def)

lemma bm_OnPdu_all:
  "\<forall>sdu\<in>set sdus. length sdu < 65536 \<Longrightarrow>
   \<exists>vs. eb_buffer (bm_enqueue_buffer (fold (\<lambda>sdu. bm_OnPdu (PacketView (basic_frame c sdu))) sdus b)) =
     eb_buffer (bm_enqueue_buffer b) @ vs \<and> map bytes_of vs = sdus"
proof (induction sdus arbitrary: b)
  case (Cons x xs)
  obtain v where v: "BasicFrameView (PacketView (basic_frame c x)) = Some (c, v)" "bytes_of v = x"
    using BasicFrameView_basic_frame [of x c] Cons.prems by auto
  have "eb_buffer (bm_enqueue_buffer (bm_OnPdu (PacketView (basic_frame c x)) b)) = eb_buffer (bm_enqueue_buffer b) @ [v]"
    using v by (simp add: bm_OnPdu_def eb_Enqueue_def)
  with Cons.IH [of "bm_OnPdu (PacketView (basic_frame c x)) b"] Cons.prems v(2) show ?case by fastforce
qed simp

text \<open>C19: basic mode carries SDUs unchanged and in order.  The frames queued for a sequence of SDUs,
  encoded and fed to the receiver, put exactly those SDUs into its upper queue, and one packet is
  announced for each.\<close>

theorem basic_mode_sdus_delivered:
  assumes "\<forall>sdu\<in>set sdus. length sdu < 65536" "bm_pdu_queue a = []"
  shows "\<exists>vs. eb_buffer (bm_enqueue_buffer (fold (\<lambda>pdu. bm_OnPdu (PacketView (encode_basic pdu)))
       (bm_pdu_queue (fold bm_OnSdu sdus a)) b)) = eb_buffer (bm_enqueue_buffer b) @ vs \<and>
     map bytes_of vs = sdus \<and>
     announced (bm_effects (fold bm_OnSdu sdus a)) = announced (bm_effects a) + int (length sdus)"
  using bm_OnPdu_all [OF assms(1), of "bm_remote_cid a" b] bm_OnSdu_all [of sdus a] assms(2)
  by (simp add: fold_map comp_def)

theorem basic_mode_sdus_delivered_witness:
  "\<exists>vs. eb_buffer (bm_enqueue_buffer (fold (\<lambda>pdu. bm_OnPdu (PacketView (encode_basic pdu)))
       (bm_pdu_queue (fold bm_OnSdu [[1, 2], []] (BasicModeDataController 64 65))) (BasicModeDataController 65 64))) = vs \<and>
     map bytes_of vs = [[1, 2], []]"
  using basic_mode_sdus_delivered [of "[[1, 2], []]" "BasicModeDataController 64 65" "BasicModeDataController 65 64"]
  by (auto simp: BasicModeDataController_def EnqueueBuffer_def)

end
