(* ===== verification/Pipeline.thy ===== *)
theory Pipeline
  imports Scheduler Mode_Controllers Ertm_Busy
begin

text \<open>
  The data pipeline of a link: the three data controllers behind one interface
  (l2cap/internal/data\_controller.h), the Sender of a channel (sender.cc), the
  DataPipelineManager (data\_pipeline\_manager.cc), the Receiver (receiver.cc) and the callback the
  scheduler registers with the link queue (scheduler\_fifo.cc).

  Tasks posted to the handler carry a raw pointer to a data controller.  Each controller gets a
  number when it is made, a task carries the number, and running a task whose controller is gone
  is an abort.  What a controller asks of the scheduler is carried out when its handler returns;
  what it asks of the link is kept in order in \<open>link_calls\<close>.  The locale
  \<open>announcing_controller\<close> is what the scheduler relies on: the packets a controller
  announces are the packets it can hand out.
\<close>

subsection \<open>Data controllers\<close>

datatype data_controller =
    BasicMode basic_ctrl
  | ErtmMode ertm
  | LeCredit le_ctrl

datatype pdu = BasicPdu basic_pdu | ErtmPdu ertm_pdu

fun encode :: "pdu \<Rightarrow> bytes" where
  "encode (BasicPdu p) = encode_basic p"
| "encode (ErtmPdu p) = encode_pdu p"

fun dc_OnSdu :: "bytes \<Rightarrow> data_controller \<Rightarrow> data_controller option" where
  "dc_OnSdu sdu (BasicMode c) = Some (BasicMode (bm_OnSdu sdu c))"
| "dc_OnSdu sdu (ErtmMode c) = map_option ErtmMode (ertm_OnSdu sdu c)"
| "dc_OnSdu sdu (LeCredit c) = map_option LeCredit (le_OnSdu sdu c)"

fun dc_OnPdu :: "packet_view \<Rightarrow> data_controller \<Rightarrow> data_controller option" where
  "dc_OnPdu pdu (BasicMode c) = Some (BasicMode (bm_OnPdu pdu c))"
| "dc_OnPdu pdu (ErtmMode c) = map_option ErtmMode (ertm_OnPdu parse_frame parse_frame_fcs pdu c)"
| "dc_OnPdu pdu (LeCredit c) = map_option LeCredit (le_OnPdu pdu c)"

fun dc_GetNextPacket :: "data_controller \<Rightarrow> (pdu \<times> data_controller) option" where
  "dc_GetNextPacket (BasicMode c) = map_option (\<lambda>(p, c). (BasicPdu p, BasicMode c)) (bm_GetNextPacket c)"
| "dc_GetNextPacket (ErtmMode c) = map_option (\<lambda>(p, c). (ErtmPdu p, ErtmMode c)) (ertm_GetNextPacket c)"
| "dc_GetNextPacket (LeCredit c) = map_option (\<lambda>(p, c). (BasicPdu p, LeCredit c)) (le_GetNextPacket c)"

fun dc_EnableFcs :: "bool \<Rightarrow> data_controller \<Rightarrow> data_controller" where
  "dc_EnableFcs enabled (ErtmMode c) = ErtmMode (ertm_EnableFcs enabled c)"
| "dc_EnableFcs enabled c = c"

fun dc_SetRetransmissionAndFlowControlOptions ::
    "RetransmissionAndFlowControlConfigurationOption \<Rightarrow> data_controller \<Rightarrow> data_controller" where
  "dc_SetRetransmissionAndFlowControlOptions opt (ErtmMode c) =
     ErtmMode (ertm_SetRetransmissionAndFlowControlOptions opt c)"
| "dc_SetRetransmissionAndFlowControlOptions opt c = c"

text \<open>
  What runs a handler of a controller: an SDU, a PDU, an alarm of an ERTM controller, room in the
  upper queue, and the calls of the LE signalling manager.
\<close>

datatype dc_event =
    Sdu bytes
  | Pdu packet_view
  | RetransTimer
  | MonitorTimer
  | UpperDequeue
  | LeCredits u16
  | LeLimits Mtu u16

fun dc_upper_dequeue :: "data_controller \<Rightarrow> data_controller option" where
  "dc_upper_dequeue (BasicMode c) =
     map_option (\<lambda>(sdu, b, _). BasicMode (c\<lparr>bm_enqueue_buffer := b\<rparr>)) (eb_enqueue_callback (bm_enqueue_buffer c))"
| "dc_upper_dequeue (ErtmMode c) = map_option (\<lambda>(sdu, c). ErtmMode c) (ertm_upper_dequeue c)"
| "dc_upper_dequeue (LeCredit c) =
     map_option (\<lambda>(sdu, b, _). LeCredit (c\<lparr>le_enqueue_buffer := b\<rparr>)) (eb_enqueue_callback (le_enqueue_buffer c))"

fun dc_handle :: "dc_event \<Rightarrow> data_controller \<Rightarrow> data_controller option" where
  "dc_handle (Sdu sdu) c = dc_OnSdu sdu c"
| "dc_handle (Pdu pdu) c = dc_OnPdu pdu c"
| "dc_handle RetransTimer (ErtmMode c) = Some (ErtmMode (retrans_timer_fires c))"
| "dc_handle MonitorTimer (ErtmMode c) = Some (ErtmMode (monitor_timer_fires c))"
| "dc_handle UpperDequeue c = dc_upper_dequeue c"
| "dc_handle (LeCredits n) (LeCredit c) = Some (LeCredit (le_OnCredit n c))"
| "dc_handle (LeLimits mtu mps) (LeCredit c) = Some (LeCredit (le_SetMps mps (le_SetMtu mtu c)))"
| "dc_handle _ c = Some c"

fun dc_effects :: "data_controller \<Rightarrow> ctrl_effect list" where
  "dc_effects (BasicMode c) = bm_effects c"
| "dc_effects (ErtmMode c) = ertm_effects c"
| "dc_effects (LeCredit c) = le_effects c"

fun dc_clear :: "data_controller \<Rightarrow> data_controller" where
  "dc_clear (BasicMode c) = BasicMode (c\<lparr>bm_effects := []\<rparr>)"
| "dc_clear (ErtmMode c) = ErtmMode (c\<lparr>ertm_effects := []\<rparr>)"
| "dc_clear (LeCredit c) = LeCredit (c\<lparr>le_effects := []\<rparr>)"

subsection \<open>Sender\<close>

datatype ChannelMode = BASIC | ERTM | LE_CREDIT_BASED

datatype ConfigState = WAIT_CONFIG_REQ_RSP | WAIT_CONFIG_RSP | WAIT_CONFIG_REQ | CONFIGURED

record ChannelConfigurationState =
  config_state :: ConfigState
  retransmission_and_flow_control_mode :: RetransmissionAndFlowControlModeOption
  local_retransmission_and_flow_control :: RetransmissionAndFlowControlConfigurationOption
  remote_retransmission_and_flow_control :: RetransmissionAndFlowControlConfigurationOption
  fcs_type :: FcsType

record sender =
  channel_id :: Cid
  remote_channel_id :: Cid
  is_dequeue_registered :: bool
  sender_mode :: RetransmissionAndFlowControlModeOption
  sender_controller :: data_controller
  controller_number :: nat

fun new_controller :: "ChannelMode \<Rightarrow> Cid \<Rightarrow> Cid \<Rightarrow> data_controller" where
  "new_controller BASIC cid remote_cid = BasicMode (BasicModeDataController cid remote_cid)"
| "new_controller ERTM cid remote_cid = ErtmMode (ErtmController cid remote_cid)"
| "new_controller LE_CREDIT_BASED cid remote_cid = LeCredit (LeCreditBasedDataController cid remote_cid)"

definition try_register_dequeue :: "sender \<Rightarrow> sender" where
  "try_register_dequeue s = s\<lparr>is_dequeue_registered := True\<rparr>"

definition Sender :: "Cid \<Rightarrow> Cid \<Rightarrow> ChannelMode \<Rightarrow> nat \<Rightarrow> sender" where
  "Sender cid remote_cid mode k =
     try_register_dequeue
       \<lparr>channel_id = cid, remote_channel_id = remote_cid, is_dequeue_registered = False, sender_mode = L2CAP_BASIC,
        sender_controller = new_controller mode cid remote_cid, controller_number = k\<rparr>"

text \<open>\<open>mode_\<close> is compared and never assigned.\<close>

definition s_UpdateClassicConfiguration :: "ChannelConfigurationState \<Rightarrow> nat \<Rightarrow> sender \<Rightarrow> sender" where
  "s_UpdateClassicConfiguration config k s =
    (let mode = retransmission_and_flow_control_mode config in
     if mode = sender_mode s then s
     else if mode = L2CAP_BASIC
     then s\<lparr>sender_controller := new_controller BASIC (channel_id s) (remote_channel_id s), controller_number := k\<rparr>
     else if mode = ENHANCED_RETRANSMISSION
     then (let c = new_controller ERTM (channel_id s) (remote_channel_id s);
               opt = local_retransmission_and_flow_control config;
               opt = opt\<lparr>tx_window_size := tx_window_size (remote_retransmission_and_flow_control config)\<rparr>;
               c = dc_SetRetransmissionAndFlowControlOptions opt c;
               c = dc_EnableFcs (fcs_type config = FCS_DEFAULT) c
           in s\<lparr>sender_controller := c, controller_number := k\<rparr>)
     else s)"

subsection \<open>DataPipelineManager\<close>

datatype link_call =
    LinkSendDisconnectionRequest Cid Cid
  | LinkSendLeCredit Cid u16
  | OnPendingPacketChange Cid bool

record pipeline =
  sender_map :: "Cid \<Rightarrow> sender option"
  scheduler :: fifo
  buffered_packets :: "packet_view list"
  buffer_timer :: alarm
  posted :: "(Cid \<times> nat \<times> bytes) list"
  next_controller :: nat
  link_calls :: "link_call list"

definition DataPipelineManager :: pipeline where
  "DataPipelineManager =
     \<lparr>sender_map = (\<lambda>_. None), scheduler = Fifo, buffered_packets = [], buffer_timer = None, posted = [],
      next_controller = 0, link_calls = []\<rparr>"

definition AttachChannel :: "Cid \<Rightarrow> Cid \<Rightarrow> ChannelMode \<Rightarrow> pipeline \<Rightarrow> pipeline option" where
  "AttachChannel cid remote_cid mode p = do {
     ASSERT (sender_map p cid = None);
     Some (p\<lparr>sender_map := (sender_map p)(cid \<mapsto> Sender cid remote_cid mode (next_controller p)),
             next_controller := Suc (next_controller p)\<rparr>) }"

definition DetachChannel :: "Cid \<Rightarrow> pipeline \<Rightarrow> pipeline option" where
  "DetachChannel cid p = do {
     ASSERT (sender_map p cid \<noteq> None);
     let p = p\<lparr>sender_map := (sender_map p)(cid := None)\<rparr>;
     let p = p\<lparr>scheduler := fifo_RemoveChannel cid (scheduler p)\<rparr>;
     Some (p\<lparr>scheduler := fifo_SetChannelTxPriority cid False (scheduler p)\<rparr>) }"

definition GetDataController :: "Cid \<Rightarrow> pipeline \<Rightarrow> data_controller option" where
  "GetDataController cid p = map_option sender_controller (sender_map p cid)"

definition s_OnPacketSent :: "sender \<Rightarrow> pipeline \<Rightarrow> sender \<times> pipeline" where
  "s_OnPacketSent s p =
     (try_register_dequeue s, p\<lparr>link_calls := link_calls p @ [OnPendingPacketChange (channel_id s) False]\<rparr>)"

definition pm_OnPacketSent :: "Cid \<Rightarrow> pipeline \<Rightarrow> pipeline option" where
  "pm_OnPacketSent cid p =
     (case sender_map p cid of None \<Rightarrow> None
      | Some s \<Rightarrow> let (s, p) = s_OnPacketSent s p in Some (p\<lparr>sender_map := (sender_map p)(cid \<mapsto> s)\<rparr>))"

definition pm_UpdateClassicConfiguration :: "Cid \<Rightarrow> ChannelConfigurationState \<Rightarrow> pipeline \<Rightarrow> pipeline option" where
  "pm_UpdateClassicConfiguration cid config p =
     (case sender_map p cid of None \<Rightarrow> None
      | Some s \<Rightarrow>
        Some (p\<lparr>sender_map := (sender_map p)(cid \<mapsto> s_UpdateClassicConfiguration config (next_controller p) s),
                next_controller := Suc (next_controller p)\<rparr>))"

definition pm_SetChannelTxPriority :: "Cid \<Rightarrow> bool \<Rightarrow> pipeline \<Rightarrow> pipeline option" where
  "pm_SetChannelTxPriority cid high_priority p = do {
     ASSERT (sender_map p cid \<noteq> None);
     Some (p\<lparr>scheduler := fifo_SetChannelTxPriority cid high_priority (scheduler p)\<rparr>) }"

subsection \<open>Running a controller\<close>

fun apply_effect :: "ctrl_effect \<Rightarrow> pipeline \<Rightarrow> pipeline" where
  "apply_effect (OnPacketsReady c n) p = p\<lparr>scheduler := fifo_OnPacketsReady c n (scheduler p)\<rparr>"
| "apply_effect (SendDisconnectionRequest c r) p = p\<lparr>link_calls := link_calls p @ [LinkSendDisconnectionRequest c r]\<rparr>"
| "apply_effect (SendLeCredit c n) p = p\<lparr>link_calls := link_calls p @ [LinkSendLeCredit c n]\<rparr>"

definition run_controller :: "Cid \<Rightarrow> dc_event \<Rightarrow> pipeline \<Rightarrow> pipeline option" where
  "run_controller cid e p =
     (case sender_map p cid of None \<Rightarrow> None
      | Some s \<Rightarrow> do {
          c \<leftarrow> dc_handle e (sender_controller s);
          Some (fold apply_effect (dc_effects c)
                  (p\<lparr>sender_map := (sender_map p)(cid \<mapsto> s\<lparr>sender_controller := dc_clear c\<rparr>)\<rparr>)) })"

text \<open>Sender::dequeue\_callback, with the packet the channel queue hands out.\<close>

definition dequeue_callback :: "Cid \<Rightarrow> bytes \<Rightarrow> pipeline \<Rightarrow> pipeline option" where
  "dequeue_callback cid packet p =
     (case sender_map p cid of None \<Rightarrow> None
      | Some s \<Rightarrow>
        Some (p\<lparr>posted := posted p @ [(cid, controller_number s, packet)],
                sender_map := (sender_map p)(cid \<mapsto> s\<lparr>is_dequeue_registered := False\<rparr>),
                link_calls := link_calls p @ [OnPendingPacketChange (channel_id s) True]\<rparr>))"

text \<open>The handler runs the oldest posted task.\<close>

definition run_posted :: "pipeline \<Rightarrow> pipeline option" where
  "run_posted p =
     (case posted p of [] \<Rightarrow> Some p
      | (cid, k, sdu) # rest \<Rightarrow> do {
          let p = p\<lparr>posted := rest\<rparr>;
          s \<leftarrow> sender_map p cid;
          ASSERT (controller_number s = k);
          run_controller cid (Sdu sdu) p })"

subsection \<open>The link queue\<close>

definition link_queue_enqueue_callback :: "pipeline \<Rightarrow> (pdu \<times> pipeline) option" where
  "link_queue_enqueue_callback p = do {
     (cid, f) \<leftarrow> fifo_next_channel (scheduler p);
     let p = p\<lparr>scheduler := f\<rparr>;
     s \<leftarrow> sender_map p cid;
     (packet, c) \<leftarrow> dc_GetNextPacket (sender_controller s);
     let p = p\<lparr>sender_map := (sender_map p)(cid \<mapsto> s\<lparr>sender_controller := c\<rparr>)\<rparr>;
     p \<leftarrow> pm_OnPacketSent cid p;
     Some (packet, p\<lparr>scheduler := unregister_if_empty (scheduler p)\<rparr>) }"

definition link_queue_dequeue_callback :: "packet_view \<Rightarrow> pipeline \<Rightarrow> pipeline option" where
  "link_queue_dequeue_callback packet p =
     (case BasicFrameView packet of None \<Rightarrow> Some p
      | Some (cid, _) \<Rightarrow>
        (case GetDataController cid p of
           None \<Rightarrow> Some (p\<lparr>buffered_packets := buffered_packets p @ [packet], buffer_timer := Some 500\<rparr>)
         | Some _ \<Rightarrow> run_controller cid (Pdu packet) p))"

fun check_loop :: "packet_view list \<Rightarrow> pipeline \<Rightarrow> pipeline option" where
  "check_loop [] p = Some (p\<lparr>buffered_packets := []\<rparr>)"
| "check_loop (packet # rest) p =
    (let p = p\<lparr>buffered_packets := rest\<rparr> in
     case BasicFrameView packet of None \<Rightarrow> Some p
     | Some (cid, _) \<Rightarrow>
       (case GetDataController cid p of None \<Rightarrow> check_loop rest p
        | Some _ \<Rightarrow> do { p \<leftarrow> run_controller cid (Pdu packet) p; check_loop rest p }))"

text \<open>The alarm of the Receiver.\<close>

definition check_buffered_packets :: "pipeline \<Rightarrow> pipeline option" where
  "check_buffered_packets p = check_loop (buffered_packets p) (p\<lparr>buffer_timer := None\<rparr>)"

subsection \<open>What a controller announces\<close>

definition drain :: "ctrl_effect list \<Rightarrow> fifo \<Rightarrow> fifo" where
  "drain es f = fold (\<lambda>e f. case e of OnPacketsReady c n \<Rightarrow> fifo_OnPacketsReady c n f | _ \<Rightarrow> f) es f"

lemma drain_simps [simp]:
  "drain [] f = f" "drain (OnPacketsReady c n # es) f = drain es (fifo_OnPacketsReady c n f)"
  "drain (SendDisconnectionRequest c r # es) f = drain es f" "drain (SendLeCredit c k # es) f = drain es f"
  by (simp_all add: drain_def)

lemma announced_Cons_all [simp]:
  "announced (OnPacketsReady c n # es) = n + announced es"
  "announced (SendDisconnectionRequest c r # es) = announced es" "announced (SendLeCredit c k # es) = announced es"
  by (simp_all add: announced_def)

lemma announced_nonneg: "list_all (ready_by c) es \<Longrightarrow> 0 \<le> announced es"
proof (induction es)
  case (Cons e es)
  then show ?case by (cases e) auto
qed simp

lemma drain_owed:
  "list_all (ready_by c) es \<Longrightarrow> fifo_ok f \<Longrightarrow>
   fifo_ok (drain es f) \<and> owed d (drain es f) = owed d f + (if d = c then nat (announced es) else 0)"
proof (induction es arbitrary: f)
  case (Cons e es)
  then show ?case
    using announced_nonneg [of c es] OnPacketsReady_ok [of f]
    by (cases e) (auto simp: OnPacketsReady_owed nat_add_distrib)
qed simp

locale announcing_controller =
  fixes handle :: "dc_event \<Rightarrow> 'c \<Rightarrow> 'c option" and get :: "'c \<Rightarrow> ('p \<times> 'c) option"
    and effects :: "'c \<Rightarrow> ctrl_effect list" and available :: "'c \<Rightarrow> int" and own_cid :: "'c \<Rightarrow> Cid"
    and invar :: "'c \<Rightarrow> bool" and allowed :: "dc_event \<Rightarrow> 'c \<Rightarrow> bool"
  assumes available_nonneg: "invar c \<Longrightarrow> 0 \<le> available c"
    and handle_keeps: "invar c \<Longrightarrow> effects c = [] \<Longrightarrow> allowed e c \<Longrightarrow> handle e c = Some c' \<Longrightarrow>
        invar c' \<and> own_cid c' = own_cid c \<and> list_all (ready_by (own_cid c)) (effects c')"
    and handle_announces: "invar c \<Longrightarrow> effects c = [] \<Longrightarrow> allowed e c \<Longrightarrow> handle e c = Some c' \<Longrightarrow>
        announced (effects c') = available c' - available c"
    and get_available: "invar c \<Longrightarrow> 0 < available c \<Longrightarrow>
        \<exists>p c'. get c = Some (p, c') \<and> invar c' \<and> own_cid c' = own_cid c \<and> available c' = available c - 1 \<and>
          effects c' = effects c"
begin

text \<open>Draining a handler's effects into the scheduler keeps the books of every channel.\<close>

lemma handle_owed:
  assumes "invar c" "effects c = []" "allowed e c" "handle e c = Some c'" "fifo_ok f"
    and "int (owed (own_cid c) f) = available c"
  shows "fifo_ok (drain (effects c') f) \<and> int (owed (own_cid c) (drain (effects c') f)) = available c' \<and>
    (d \<noteq> own_cid c \<longrightarrow> owed d (drain (effects c') f) = owed d f)"
  using drain_owed [of "own_cid c" "effects c'" f] handle_keeps [OF assms(1-4)] handle_announces [OF assms(1-4)]
    announced_nonneg [of "own_cid c" "effects c'"] assms(5,6)
  by auto

end


fun dc_available :: "data_controller \<Rightarrow> int" where
  "dc_available (BasicMode c) = int (length (bm_pdu_queue c))"
| "dc_available (ErtmMode c) = int (length (pdu_queue c))"
| "dc_available (LeCredit c) = int (length (le_pdu_queue c)) - uint (pending_frames_count c)"

fun dc_cid :: "data_controller \<Rightarrow> Cid" where
  "dc_cid (BasicMode c) = bm_cid c"
| "dc_cid (ErtmMode c) = ertm_cid c"
| "dc_cid (LeCredit c) = le_cid c"

fun dc_inv :: "data_controller \<Rightarrow> bool" where
  "dc_inv (BasicMode c) = True"
| "dc_inv (ErtmMode c) = ertm_inv c"
| "dc_inv (LeCredit c) \<longleftrightarrow> uint (pending_frames_count c) \<le> int (length (le_pdu_queue c))"

text \<open>Packets come from the link queue; the 16 bit counter of an LE controller does not overflow.\<close>

fun dc_allowed :: "dc_event \<Rightarrow> data_controller \<Rightarrow> bool" where
  "dc_allowed (Pdu v) c = pv_ok v"
| "dc_allowed (Sdu sdu) (LeCredit c) \<longleftrightarrow>
     pred_option (\<lambda>segs. uint (pending_frames_count c) + int (length segs) < 65536) (segments_of (le_segment_size c) sdu)"
| "dc_allowed _ c = True"

lemma parse_control_wf:
  "pv_ok p \<Longrightarrow> wf_view (parse_control k p)"
proof -
  assume ok: "pv_ok p"
  have six: "take_bit 6 (w :: u8) < 64" for w
    using take_bit_int_less_exp [of 6 "uint w"] by (simp add: word_less_def unsigned_take_bit_eq)
  have sub: "b \<le> e \<Longrightarrow> e \<le> length (bytes_of p) \<Longrightarrow> pv_ok (subview p b e)" for b e
    using subview_facts [OF ok] bytes_of_length [OF ok] by simp
  show ?thesis by (auto simp: parse_control_def Let_def six intro!: sub)
qed

lemma parse_frame_wf: "pv_ok p \<Longrightarrow> wf_view (parse_frame p)" "pv_ok p \<Longrightarrow> wf_view (parse_frame_fcs p)"
  by (simp_all add: parse_frame_def parse_frame_fcs_def Let_def parse_control_wf)

lemma ertm_OnPdu_on_frame:
  "ertm_OnPdu parse_frame parse_frame_fcs v c = on_frame (if fcs_enabled c then parse_frame_fcs v else parse_frame v) c"
  by (simp add: ertm_OnPdu_def on_pdu_fcs_def on_pdu_no_fcs_def)

lemma ertm_handle_keeps:
  assumes "dc_handle e (ErtmMode c) = Some d" "dc_allowed e (ErtmMode c)"
  shows "\<exists>c'. d = ErtmMode c' \<and> keeps_inv c c'"
  using assms
proof (cases e)
  case (Sdu sdu)
  then show ?thesis using assms(1) tx_option_keeps [OF OnSdu_frame [of c sdu]] by auto
next
  case (Pdu v)
  then have "wf_view (if fcs_enabled c then parse_frame_fcs v else parse_frame v)"
    using assms(2) parse_frame_wf [of v] by simp
  from on_frame_keeps_inv [OF this, of c] Pdu assms(1) show ?thesis by (auto simp: ertm_OnPdu_on_frame)
next
  case UpperDequeue
  then show ?thesis using assms(1) upper_dequeue_keeps by auto
qed (use timer_fires_frame [THEN tx_frame_keeps_inv] in auto)

lemma spend_credits_ready:
  "list_all (ready_by (le_cid c)) (le_effects c) \<Longrightarrow> list_all (ready_by (le_cid c)) (le_effects (le_spend_credits n c))"
  "le_cid (le_spend_credits n c) = le_cid c"
  by (simp_all add: le_spend_credits_def)

lemma le_handle_ready:
  assumes "dc_handle e (LeCredit c) = Some d" "le_effects c = []"
  shows "\<exists>c'. d = LeCredit c' \<and> le_cid c' = le_cid c \<and> list_all (ready_by (le_cid c)) (le_effects c')"
  using assms
proof (cases e)
  case (Sdu sdu)
  then obtain c' where c': "d = LeCredit c'" "le_OnSdu sdu c = Some c'" using assms(1) by auto
  show ?thesis
  proof (cases "sdu = []")
    case True
    with c' assms(2) show ?thesis by (simp add: le_OnSdu_def)
  next
    case False
    then obtain segs t where t: "t = c\<lparr>le_pdu_queue := le_pdu_queue c @
       FirstLeInformationFrame (le_remote_cid c) (size_u16 (length sdu)) (hd segs) #
       map (BasicFrame (le_remote_cid c)) (tl segs)\<rparr>" "c' = le_spend_credits (length segs) t"
      using OnSdu_parts [OF c'(2)] by metis
    then have "le_cid t = le_cid c" "list_all (ready_by (le_cid t)) (le_effects t)" using assms(2) by simp_all
    with t c'(1) spend_credits_ready [where c = t] show ?thesis by metis
  qed
next
  case (Pdu v)
  then obtain c' where c': "d = LeCredit c'" "le_OnPdu v c = Some c'" using assms(1) by auto
  from c'(2) have "le_cid c' = le_cid c \<and> list_all (ready_by (le_cid c)) (le_effects c')"
  proof (rule le_OnPdu_cases)
    fix x y t
    assume st: "le_stage v y c = Some (Some t)" and f: "c' = le_finish t"
    have "le_effects t = []" using le_stage_keeps [OF st] assms(2) by simp
    moreover have "le_cid t = le_cid c"
      using st by (auto simp: le_stage_def bind_eq_Some_conv split: if_split_asm option.split_asm prod.split_asm)
    ultimately show ?thesis by (simp add: f le_finish_def Let_def)
  qed (use assms(2) in simp)
  with c'(1) show ?thesis by simp
qed (auto simp: le_OnCredit_def Let_def le_SetMps_def le_SetMtu_def)

lemma le_handle_balance:
  assumes "dc_handle e (LeCredit c) = Some (LeCredit c')" "dc_allowed e (LeCredit c)"
  shows "le_balance c' = le_balance c"
proof (cases e)
  case (Sdu sdu)
  show ?thesis
  proof (cases "segments_of (le_segment_size c) sdu")
    case None
    with Sdu assms(1) show ?thesis by (simp add: le_OnSdu_def split: if_split_asm)
  next
    case (Some segs)
    with Sdu assms OnSdu_balance [of sdu c c' segs] show ?thesis by simp
  qed
next
  case (Pdu v)
  with assms(1) show ?thesis by (auto simp: OnPdu_balance)
next
  case (LeLimits mtu mps)
  then show ?thesis using assms(1) by (auto simp: le_SetMps_def le_SetMtu_def le_balance_def)
next
  case (LeCredits k)
  with assms(1) show ?thesis by (auto simp: OnCredit_balance)
qed (use assms(1) in \<open>auto simp: le_balance_def\<close>)

lemma basic_handle:
  assumes "dc_handle e (BasicMode c) = Some d" "bm_effects c = []"
  shows "\<exists>c'. d = BasicMode c' \<and> bm_cid c' = bm_cid c \<and> list_all (ready_by (bm_cid c)) (bm_effects c') \<and>
    announced (bm_effects c') = int (length (bm_pdu_queue c')) - int (length (bm_pdu_queue c))"
  using assms by (cases e) (auto simp: bm_OnSdu_def bm_OnPdu_def split: option.split)

interpretation dc: announcing_controller dc_handle dc_GetNextPacket dc_effects dc_available dc_cid dc_inv dc_allowed
proof
  fix c assume "dc_inv c"
  then show "0 \<le> dc_available c" by (cases c) auto
next
  fix c e c'
  assume a: "dc_inv c" "dc_effects c = []" "dc_allowed e c" "dc_handle e c = Some c'"
  have "(dc_inv c' \<and> dc_cid c' = dc_cid c \<and> list_all (ready_by (dc_cid c)) (dc_effects c')) \<and>
      announced (dc_effects c') = dc_available c' - dc_available c"
  proof (cases c)
    case (BasicMode b)
    with a basic_handle [of e b c'] show ?thesis by auto
  next
    case (ErtmMode b)
    then obtain b' where "c' = ErtmMode b'" "keeps_inv b b'" using a(3,4) ertm_handle_keeps by blast
    with ErtmMode a(1,2) show ?thesis
      by (auto simp: keeps_inv_def ertm_balance_def config_part_def ertm_inv_def ertm_tx_inv_def)
  next
    case (LeCredit b)
    then obtain b' where b': "c' = LeCredit b'" "le_cid b' = le_cid b" "list_all (ready_by (le_cid b)) (le_effects b')"
      using a(2,4) le_handle_ready by fastforce
    then have "announced (dc_effects c') = dc_available c' - dc_available c"
      using le_handle_balance [of e b b'] a LeCredit by (simp add: le_balance_def)
    with b' LeCredit a(1) announced_nonneg [OF b'(3)] show ?thesis by auto
  qed
  then show "dc_inv c' \<and> dc_cid c' = dc_cid c \<and> list_all (ready_by (dc_cid c)) (dc_effects c')"
    "announced (dc_effects c') = dc_available c' - dc_available c" by auto
next
  fix c assume a: "dc_inv c" "0 < dc_available c"
  then show "\<exists>p c'. dc_GetNextPacket c = Some (p, c') \<and> dc_inv c' \<and> dc_cid c' = dc_cid c \<and>
      dc_available c' = dc_available c - 1 \<and> dc_effects c' = dc_effects c"
  proof (cases c)
    case (BasicMode b)
    with a show ?thesis by (cases "bm_pdu_queue b") (auto simp: bm_GetNextPacket_def)
  next
    case (ErtmMode b)
    with a show ?thesis
      by (cases "pdu_queue b") (auto simp: ertm_GetNextPacket_def ertm_inv_def ertm_tx_inv_def ertm_rx_inv_def)
  next
    case (LeCredit b)
    have "0 \<le> uint (pending_frames_count b)" by simp
    with LeCredit a show ?thesis by (cases "le_pdu_queue b") (auto simp: le_GetNextPacket_def)
  qed
qed


subsection \<open>RemoveChannel\<close>

lemma mpq_size_items: "mpq_ok q \<Longrightarrow> mpq_size q = length (mpq_items q)"
  by (simp add: mpq_ok_def mpq_size_def mpq_items_def)

lemma mpq_empty_items: "mpq_ok q \<Longrightarrow> mpq_empty q \<longleftrightarrow> mpq_items q = []"
  by (simp add: mpq_ok_empty mpq_items_def)

lemma remove_round:
  assumes "mpq_ok q" "\<not> mpq_empty q"
  shows "mpq_ok (mpq_pop (mpq_push (mpq_front q) 0 q)) \<and>
    mpq_items (mpq_pop (mpq_push (mpq_front q) 0 q)) = rotate1 (mpq_items q)"
proof -
  let ?q = "mpq_push (mpq_front q) 0 q"
  have q: "mpq_ok ?q" "\<not> mpq_empty ?q" using assms by (simp_all add: mpq_ok_push push_not_empty)
  have "mpq_items q = mpq_front q # mpq_items (mpq_pop q)"
    using mpq.items_front [OF assms] by (simp add: mpq_items_eq)
  moreover have "mpq_items ?q = mpq_items q @ [mpq_front q]" by (simp add: push_items)
  ultimately show ?thesis
    using mpq.invar_pop [OF q] mpq.items_pop [OF q] by (simp add: mpq_items_eq)
qed

lemma remove_loop_rotates:
  assumes "mpq_ok q" "\<forall>(c, n)\<in>set (mpq_items q). n \<noteq> uint cid"
  shows "mpq_ok (remove_loop cid i q) \<and>
    mpq_items (remove_loop cid i q) = rotate (length (mpq_items q) - i) (mpq_items q)"
  using assms
proof (induction cid i q rule: remove_loop.induct)
  case (1 cid i q)
  show ?case
  proof (cases "i < mpq_size q")
    case True
    then have ne: "\<not> mpq_empty q" by (auto simp: mpq_size_def mpq_empty_def)
    let ?q = "mpq_pop (mpq_push (mpq_front q) 0 q)"
    have "mpq_items q = mpq_front q # mpq_items (mpq_pop q)"
      using mpq.items_front [OF "1.prems"(1) ne] by (simp add: mpq_items_eq)
    then have f: "snd (mpq_front q) \<noteq> uint cid" using "1.prems"(2) by (cases "mpq_front q") auto
    note r = remove_round [OF "1.prems"(1) ne]
    have "mpq_ok (remove_loop cid (Suc i) ?q) \<and>
        mpq_items (remove_loop cid (Suc i) ?q) = rotate (length (mpq_items ?q) - Suc i) (mpq_items ?q)"
      using "1.IH" [OF True refl refl] f r "1.prems"(2) by simp
    moreover have "length (mpq_items q) - i = Suc (length (mpq_items q) - Suc i)"
      using True mpq_size_items [OF "1.prems"(1)] by simp
    ultimately show ?thesis
      using True f r by (subst (1 2) remove_loop.simps) (simp add: Let_def rotate1_rotate_swap)
  next
    case False
    then show ?thesis
      using "1.prems"(1) mpq_size_items [OF "1.prems"(1)] by (subst (1 2) remove_loop.simps) simp
  qed
qed

lemma RemoveChannel_keeps:
  assumes "fifo_ok f" "\<forall>(c, n)\<in>set (mpq_items (ready_queue f)). n \<noteq> uint cid"
  shows "fifo_ok (fifo_RemoveChannel cid f) \<and> schedule (fifo_RemoveChannel cid f) = schedule f"
proof -
  let ?q = "remove_loop cid 0 (ready_queue f)"
  have q: "mpq_ok ?q" "mpq_items ?q = mpq_items (ready_queue f)"
    using remove_loop_rotates [of "ready_queue f" cid 0] assms by (simp_all add: fifo_ok_def)
  have "mpq_empty ?q \<longleftrightarrow> mpq_empty (ready_queue f)"
    using q mpq_empty_items [of ?q] mpq_empty_items [of "ready_queue f"] assms(1) by (simp add: fifo_ok_def)
  with q assms(1) show ?thesis
    by (auto simp: fifo_RemoveChannel_def unregister_if_empty_def fifo_ok_def schedule_def)
qed

subsection \<open>The books of the pipeline\<close>

definition sender_ok :: "Cid \<Rightarrow> fifo \<Rightarrow> sender \<Rightarrow> bool" where
  "sender_ok cid f s \<longleftrightarrow> channel_id s = cid \<and> dc_cid (sender_controller s) = cid \<and> dc_inv (sender_controller s) \<and>
     dc_effects (sender_controller s) = [] \<and> int (owed cid f) = dc_available (sender_controller s) \<and>
     sender_mode s = L2CAP_BASIC"

fun channel_ok :: "fifo \<Rightarrow> Cid \<Rightarrow> sender option \<Rightarrow> bool" where
  "channel_ok f cid None \<longleftrightarrow> owed cid f = 0"
| "channel_ok f cid (Some s) \<longleftrightarrow> sender_ok cid f s"

definition pipeline_ok :: "pipeline \<Rightarrow> bool" where
  "pipeline_ok p \<longleftrightarrow> fifo_ok (scheduler p) \<and> (\<forall>cid. channel_ok (scheduler p) cid (sender_map p cid)) \<and>
     list_all (\<lambda>v. pv_ok v \<and> BasicFrameView v \<noteq> None) (buffered_packets p)"

text \<open>
  One step of the pipeline.  A channel is detached, and its configuration changed, while no packet
  of it is announced; no entry of the scheduler holds as many packets as the detached channel's
  identifier is large.
\<close>

inductive pipeline_step :: "pipeline \<Rightarrow> pipeline \<Rightarrow> bool" where
  attach: "AttachChannel cid remote_cid mode p = Some p' \<Longrightarrow> pipeline_step p p'"
| detach: "DetachChannel cid p = Some p' \<Longrightarrow> owed cid (scheduler p) = 0 \<Longrightarrow>
     \<forall>(c, n)\<in>set (mpq_items (ready_queue (scheduler p))). n \<noteq> uint cid \<Longrightarrow> pipeline_step p p'"
| configure: "pm_UpdateClassicConfiguration cid config p = Some p' \<Longrightarrow> owed cid (scheduler p) = 0 \<Longrightarrow>
     pipeline_step p p'"
| priority: "pm_SetChannelTxPriority cid high p = Some p' \<Longrightarrow> pipeline_step p p'"
| dequeue: "dequeue_callback cid sdu p = Some p' \<Longrightarrow> pipeline_step p p'"
| event: "sender_map p cid = Some s \<Longrightarrow> dc_allowed e (sender_controller s) \<Longrightarrow> run_controller cid e p = Some p' \<Longrightarrow>
     pipeline_step p p'"
| run: "posted p = (cid, k, sdu) # rest \<Longrightarrow> sender_map p cid = Some s \<Longrightarrow>
     dc_allowed (Sdu sdu) (sender_controller s) \<Longrightarrow> run_posted p = Some p' \<Longrightarrow> pipeline_step p p'"
| receive: "pv_ok packet \<Longrightarrow> link_queue_dequeue_callback packet p = Some p' \<Longrightarrow> pipeline_step p p'"
| check_alarm: "buffer_timer p \<noteq> None \<Longrightarrow> check_buffered_packets p = Some p' \<Longrightarrow> pipeline_step p p'"
| send: "link_queue_enqueue_callback p = Some (packet, p') \<Longrightarrow> pipeline_step p p'"

lemma pipeline_ok_init: "pipeline_ok DataPipelineManager"
  by (simp add: pipeline_ok_def DataPipelineManager_def fifo_ok_init owed_def)

lemma pipeline_ok_Some: "pipeline_ok p \<Longrightarrow> sender_map p cid = Some s \<Longrightarrow> sender_ok cid (scheduler p) s"
  using channel_ok.simps(2) unfolding pipeline_ok_def by metis

lemma pipeline_ok_None: "pipeline_ok p \<Longrightarrow> sender_map p cid = None \<Longrightarrow> owed cid (scheduler p) = 0"
  using channel_ok.simps(1) unfolding pipeline_ok_def by metis

lemma channel_ok_owed: "owed c f' = owed c f \<Longrightarrow> channel_ok f' c x \<longleftrightarrow> channel_ok f c x"
  by (cases x) (simp_all add: sender_ok_def)

text \<open>What a step has to show: its own channel is in order and no other channel is touched.\<close>

lemma pipeline_ok_step:
  assumes "pipeline_ok p" "fifo_ok (scheduler p')" "channel_ok (scheduler p') cid (sender_map p' cid)"
    and "\<And>d. d \<noteq> cid \<Longrightarrow> owed d (scheduler p') = owed d (scheduler p) \<and> sender_map p' d = sender_map p d"
    and "list_all (\<lambda>v. pv_ok v \<and> BasicFrameView v \<noteq> None) (buffered_packets p')"
  shows "pipeline_ok p'"
proof -
  have "channel_ok (scheduler p') d (sender_map p' d)" for d
    using assms(1,3) assms(4) [of d] channel_ok_owed [of d "scheduler p'" "scheduler p"]
    by (cases "d = cid") (auto simp: pipeline_ok_def)
  with assms(2,5) show ?thesis by (simp add: pipeline_ok_def)
qed

lemma pipeline_ok_parts: "pipeline_ok p \<Longrightarrow> fifo_ok (scheduler p)"
  "pipeline_ok p \<Longrightarrow> list_all (\<lambda>v. pv_ok v \<and> BasicFrameView v \<noteq> None) (buffered_packets p)"
  by (simp_all add: pipeline_ok_def)

lemma dc_clear_facts [simp]:
  "dc_effects (dc_clear c) = []" "dc_available (dc_clear c) = dc_available c" "dc_cid (dc_clear c) = dc_cid c"
  "dc_inv c \<Longrightarrow> dc_inv (dc_clear c)"
  by (cases c; simp add: ertm_inv_def ertm_tx_inv_def ertm_rx_inv_def)+

lemma fold_apply_effect:
  "scheduler (fold apply_effect es p) = drain es (scheduler p)" "sender_map (fold apply_effect es p) = sender_map p"
  "buffered_packets (fold apply_effect es p) = buffered_packets p"
  "buffer_timer (fold apply_effect es p) = buffer_timer p"
  "posted (fold apply_effect es p) = posted p" "next_controller (fold apply_effect es p) = next_controller p"
proof (induction es arbitrary: p)
  case (Cons e es)
  { case 1 show ?case by (cases e) (simp_all add: Cons) }
  { case 2 show ?case by (cases e) (simp_all add: Cons) }
  { case 3 show ?case by (cases e) (simp_all add: Cons) }
  { case 4 show ?case by (cases e) (simp_all add: Cons) }
  { case 5 show ?case by (cases e) (simp_all add: Cons) }
  { case 6 show ?case by (cases e) (simp_all add: Cons) }
qed simp_all

lemma run_controller_ok:
  assumes ok: "pipeline_ok p" and s: "sender_map p cid = Some s" and e: "dc_allowed e (sender_controller s)"
    and run: "run_controller cid e p = Some p'"
  shows "pipeline_ok p' \<and> buffered_packets p' = buffered_packets p"
proof -
  note sok = pipeline_ok_Some [OF ok s]
  obtain c where c: "dc_handle e (sender_controller s) = Some c"
    and p': "p' = fold apply_effect (dc_effects c)
       (p\<lparr>sender_map := (sender_map p)(cid \<mapsto> s\<lparr>sender_controller := dc_clear c\<rparr>)\<rparr>)"
    using run s by (auto simp: run_controller_def bind_eq_Some_conv)
  let ?f = "drain (dc_effects c) (scheduler p)"
  have keeps: "dc_inv c" "dc_cid c = cid"
    using dc.handle_keeps [OF _ _ e c] sok by (auto simp: sender_ok_def)
  have owed: "fifo_ok ?f" "int (owed cid ?f) = dc_available c" "d \<noteq> cid \<Longrightarrow> owed d ?f = owed d (scheduler p)" for d
    using dc.handle_owed [OF _ _ e c, of "scheduler p" d] sok ok by (auto simp: sender_ok_def pipeline_ok_def)
  have "sender_ok cid ?f (s\<lparr>sender_controller := dc_clear c\<rparr>)"
    using sok keeps owed(2) by (simp add: sender_ok_def)
  then show ?thesis
    using owed(1,3) pipeline_ok_parts(2) [OF ok]
    by (auto simp: p' fold_apply_effect intro: pipeline_ok_step [OF ok, where cid = cid])
qed

text \<open>Steps that replace one sender and leave the schedule alone.\<close>

lemma pipeline_ok_replace:
  assumes "pipeline_ok p" "sender_ok cid (scheduler p) s" "scheduler p' = scheduler p"
    "sender_map p' = (sender_map p)(cid \<mapsto> s)" "buffered_packets p' = buffered_packets p"
  shows "pipeline_ok p'"
  using assms pipeline_ok_parts [OF assms(1)] by (intro pipeline_ok_step [OF assms(1), where cid = cid]) auto

lemma AttachChannel_ok:
  assumes "pipeline_ok p" "AttachChannel cid remote_cid mode p = Some p'"
  shows "pipeline_ok p'"
proof -
  have "sender_map p cid = None" and p': "p' = p\<lparr>sender_map := (sender_map p)(cid \<mapsto> Sender cid remote_cid mode (next_controller p)),
             next_controller := Suc (next_controller p)\<rparr>"
    using assms(2) by (auto simp: AttachChannel_def)
  then have "owed cid (scheduler p) = 0" using assms(1) pipeline_ok_None by blast
  then have "sender_ok cid (scheduler p) (Sender cid remote_cid mode (next_controller p))"
    by (cases mode) (simp_all add: sender_ok_def Sender_def try_register_dequeue_def BasicModeDataController_def
        ErtmController_def ertm_inv_def ertm_tx_inv_def ertm_rx_inv_def LeCreditBasedDataController_def)
  from pipeline_ok_replace [OF assms(1) this] show ?thesis by (simp add: p')
qed

lemma s_Update_ok:
  assumes "sender_ok cid f s" "owed cid f = 0"
  shows "sender_ok cid f (s_UpdateClassicConfiguration config k s)"
  using assms
  by (auto simp: sender_ok_def s_UpdateClassicConfiguration_def Let_def ErtmController_def ertm_EnableFcs_def
      ertm_SetRetransmissionAndFlowControlOptions_def ertm_inv_def ertm_tx_inv_def ertm_rx_inv_def)

lemma check_loop_ok:
  assumes "pipeline_ok p" "list_all (\<lambda>v. pv_ok v \<and> BasicFrameView v \<noteq> None) vs" "check_loop vs p = Some p'"
  shows "pipeline_ok p' \<and> buffered_packets p' = []"
  using assms
proof (induction vs arbitrary: p)
  case Nil
  then have "p' = p\<lparr>buffered_packets := []\<rparr>" by simp
  with Nil.prems(1) show ?case by (simp add: pipeline_ok_def)
next
  case (Cons v vs)
  then obtain cid pl where v: "BasicFrameView v = Some (cid, pl)" "pv_ok v" by auto
  let ?p = "p\<lparr>buffered_packets := vs\<rparr>"
  have ok: "pipeline_ok ?p" using Cons.prems(1,2) by (simp add: pipeline_ok_def)
  show ?case
  proof (cases "sender_map p cid")
    case None
    with Cons.prems v have "check_loop vs ?p = Some p'" by (simp add: GetDataController_def)
    with Cons.IH [OF ok] Cons.prems(2) show ?thesis by simp
  next
    case (Some s)
    with Cons.prems(3) v obtain q where q: "run_controller cid (Pdu v) ?p = Some q" "check_loop vs q = Some p'"
      by (auto simp: GetDataController_def bind_eq_Some_conv)
    have "pipeline_ok q" using run_controller_ok [OF ok _ _ q(1), of s] Some v(2) by simp
    with Cons.IH [OF _ _ q(2)] Cons.prems(2) show ?thesis by simp
  qed
qed

lemma send_ok:
  assumes ok: "pipeline_ok p" and reg: "link_queue_enqueue_registered (scheduler p)"
  shows "\<exists>cid packet p'. link_queue_enqueue_callback p = Some (packet, p') \<and> pipeline_ok p' \<and>
    schedule (scheduler p) = cid # schedule (scheduler p') \<and>
    map_option fst (Option.bind (GetDataController cid p) dc_GetNextPacket) = Some packet"
proof -
  have f: "fifo_ok (scheduler p)" and ne: "\<not> mpq_empty (ready_queue (scheduler p))"
    using ok reg by (auto simp: pipeline_ok_def fifo_ok_def)
  obtain cid g where g: "fifo_next_channel (scheduler p) = Some (cid, g)" "schedule (scheduler p) = cid # schedule g"
    "fifo_ok (unregister_if_empty g)"
    using next_channel [OF f ne] by auto
  let ?f = "unregister_if_empty g"
  have sch: "schedule ?f = schedule g" by (simp add: schedule_def unregister_if_empty_def)
  have owed: "owed d (scheduler p) = owed d ?f + (if d = cid then 1 else 0)" for d
    using g(2) by (simp add: owed_def sch)
  obtain s where s: "sender_map p cid = Some s"
    using pipeline_ok_None [OF ok, of cid] owed [of cid] by (cases "sender_map p cid") auto
  note sok = pipeline_ok_Some [OF ok s]
  then have "0 < dc_available (sender_controller s)" using owed [of cid] by (auto simp: sender_ok_def)
  then obtain packet c where c: "dc_GetNextPacket (sender_controller s) = Some (packet, c)" "dc_inv c"
    "dc_cid c = cid" "dc_available c = dc_available (sender_controller s) - 1" "dc_effects c = []"
    using dc.get_available [of "sender_controller s"] sok by (auto simp: sender_ok_def)
  let ?s = "s\<lparr>sender_controller := c, is_dequeue_registered := True\<rparr>"
  let ?p = "p\<lparr>scheduler := ?f, sender_map := (sender_map p)(cid \<mapsto> ?s),
      link_calls := link_calls p @ [OnPendingPacketChange (channel_id s) False]\<rparr>"
  have cb: "link_queue_enqueue_callback p = Some (packet, ?p)"
    using g(1) s c(1) by (simp add: link_queue_enqueue_callback_def pm_OnPacketSent_def s_OnPacketSent_def
        try_register_dequeue_def)
  have "sender_ok cid ?f ?s" using sok c owed [of cid] by (simp add: sender_ok_def)
  then have "pipeline_ok ?p"
    using g(3) owed pipeline_ok_parts(2) [OF ok] by (intro pipeline_ok_step [OF ok, where cid = cid]) auto
  with cb g(2) s c(1) sch show ?thesis by (auto simp: GetDataController_def)
qed

lemma fifo_priority_owed: "owed d (fifo_SetChannelTxPriority c h f) = owed d f"
  by (simp add: owed_def SetChannelTxPriority_keeps)

lemma detach_ok:
  assumes ok: "pipeline_ok p" and d: "DetachChannel cid p = Some p'" "owed cid (scheduler p) = 0"
    "\<forall>(c, n)\<in>set (mpq_items (ready_queue (scheduler p))). n \<noteq> uint cid"
  shows "pipeline_ok p'"
proof -
  let ?f = "fifo_SetChannelTxPriority cid False (fifo_RemoveChannel cid (scheduler p))"
  have p': "p' = p\<lparr>sender_map := (sender_map p)(cid := None), scheduler := ?f\<rparr>"
    using d(1) by (auto simp: DetachChannel_def)
  have f: "fifo_ok (scheduler p)" using ok by (simp add: pipeline_ok_def)
  have k: "fifo_ok ?f" "owed c ?f = owed c (scheduler p)" for c
    using RemoveChannel_keeps [OF f d(3)] SetChannelTxPriority_keeps(1)
    by (simp_all add: fifo_priority_owed owed_def SetChannelTxPriority_keeps)
  show ?thesis
    using k d(2) pipeline_ok_parts(2) [OF ok] by (intro pipeline_ok_step [OF ok, where cid = cid]) (simp_all add: p')
qed

lemma pipeline_step_ok: "pipeline_step p p' \<Longrightarrow> pipeline_ok p \<Longrightarrow> pipeline_ok p'"
proof (induction rule: pipeline_step.induct)
  case (configure cid config p p')
  then obtain s where s: "sender_map p cid = Some s" "p' = p\<lparr>sender_map := (sender_map p)(cid \<mapsto>
      s_UpdateClassicConfiguration config (next_controller p) s), next_controller := Suc (next_controller p)\<rparr>"
    by (auto simp: pm_UpdateClassicConfiguration_def split: option.split_asm)
  from pipeline_ok_replace [OF configure.prems s_Update_ok [OF pipeline_ok_Some [OF configure.prems s(1)]]] configure s(2)
  show ?case by simp
next
  case (priority cid high p p')
  then have p': "p' = p\<lparr>scheduler := fifo_SetChannelTxPriority cid high (scheduler p)\<rparr>"
    by (auto simp: pm_SetChannelTxPriority_def)
  have "channel_ok (scheduler p') cid (sender_map p' cid)"
    using priority.prems channel_ok_owed [of cid "scheduler p'" "scheduler p"]
    by (simp add: p' fifo_priority_owed pipeline_ok_def)
  then show ?case
    using pipeline_ok_parts [OF priority.prems]
    by (intro pipeline_ok_step [OF priority.prems, where cid = cid])
       (simp_all add: p' fifo_priority_owed SetChannelTxPriority_keeps)
next
  case (dequeue cid sdu p p')
  then obtain s where s: "sender_map p cid = Some s" by (auto simp: dequeue_callback_def split: option.split_asm)
  have "sender_ok cid (scheduler p) (s\<lparr>is_dequeue_registered := False\<rparr>)"
    using pipeline_ok_Some [OF dequeue.prems s] by (simp add: sender_ok_def)
  from pipeline_ok_replace [OF dequeue.prems this] dequeue s show ?case by (auto simp: dequeue_callback_def)
next
  case (run p cid k sdu rest s p')
  have "pipeline_ok (p\<lparr>posted := rest\<rparr>)" using run.prems by (simp add: pipeline_ok_def)
  from run_controller_ok [OF this, of cid s "Sdu sdu" p'] run show ?case by (auto simp: run_posted_def)
next
  case (receive packet p p')
  show ?case
  proof (cases "BasicFrameView packet")
    case None
    with receive show ?thesis by (simp add: link_queue_dequeue_callback_def)
  next
    case (Some x)
    obtain cid pl where x: "x = (cid, pl)" by (cases x)
    show ?thesis
    proof (cases "sender_map p cid")
      case None
      with receive Some x show ?thesis
        by (auto simp: link_queue_dequeue_callback_def GetDataController_def pipeline_ok_def)
    next
      case (Some s)
      then have "run_controller cid (Pdu packet) p = Some p'"
        using receive \<open>BasicFrameView packet = Some x\<close> x
        by (simp add: link_queue_dequeue_callback_def GetDataController_def)
      from run_controller_ok [OF receive.prems Some _ this] receive.hyps(1) show ?thesis by simp
    qed
  qed
next
  case (check_alarm p p')
  have "pipeline_ok (p\<lparr>buffer_timer := None\<rparr>)" using check_alarm.prems by (simp add: pipeline_ok_def)
  from check_loop_ok [OF this, of "buffered_packets p" p'] check_alarm show ?case
    by (simp add: check_buffered_packets_def pipeline_ok_def)
next
  case (send p packet p')
  then have "fifo_next_channel (scheduler p) \<noteq> None" by (auto simp: link_queue_enqueue_callback_def bind_eq_Some_conv)
  then have "\<not> mpq_empty (ready_queue (scheduler p))" by (auto simp: fifo_next_channel_def ASSERT_def split: if_split_asm)
  then have "link_queue_enqueue_registered (scheduler p)" using send.prems by (simp add: pipeline_ok_def fifo_ok_def)
  from send_ok [OF send.prems this] send.hyps show ?case by auto
next
  case (attach cid remote_cid mode p p')
  then show ?case by (blast intro: AttachChannel_ok)
next
  case (detach cid p p')
  then show ?case by (blast intro: detach_ok)
next
  case (event p cid s e p')
  from run_controller_ok [OF event.prems event.hyps] show ?case by (rule conjunct1)
qed

definition pipeline_reach :: "pipeline \<Rightarrow> bool" where
  "pipeline_reach = pipeline_step\<^sup>*\<^sup>* DataPipelineManager"

lemma pipeline_reach_ok: "pipeline_reach p \<Longrightarrow> pipeline_ok p"
  unfolding pipeline_reach_def
  by (induction rule: rtranclp_induct) (auto simp: pipeline_ok_init pipeline_step_ok)

subsection \<open>Properties\<close>


text \<open>A channel in basic mode with one SDU announced.\<close>

definition sample_attached :: pipeline where
  "sample_attached = the (AttachChannel 64 65 BASIC DataPipelineManager)"

definition sample_posted :: pipeline where
  "sample_posted = the (dequeue_callback 64 [1, 2] sample_attached)"

definition sample_announced :: pipeline where
  "sample_announced = the (run_posted sample_posted)"

lemmas sample_pipeline_defs = sample_attached_def AttachChannel_def DataPipelineManager_def Sender_def
  try_register_dequeue_def BasicModeDataController_def

lemma sample_pipeline:
  "AttachChannel 64 65 BASIC DataPipelineManager = Some sample_attached"
  "dequeue_callback 64 [1, 2] sample_attached = Some sample_posted"
  "run_posted sample_posted = Some sample_announced"
  "link_queue_enqueue_registered (scheduler sample_announced)"
  by (simp_all add: sample_announced_def sample_posted_def run_posted_def dequeue_callback_def run_controller_def
      sample_pipeline_defs bm_OnSdu_def fifo_OnPacketsReady_def try_register_link_queue_enqueue_def Let_def)

lemma sample_announced_eq:
  "sender_map sample_announced = [64 \<mapsto> Sender 64 65 BASIC 0\<lparr>is_dequeue_registered := False,
     sender_controller := BasicMode (BasicModeDataController 64 65\<lparr>bm_pdu_queue := [BasicFrame 65 [1, 2]]\<rparr>)\<rparr>]"
  "scheduler sample_announced = fifo_OnPacketsReady 64 1 Fifo"
  by (simp_all add: sample_announced_def sample_posted_def run_posted_def dequeue_callback_def run_controller_def
      sample_pipeline_defs bm_OnSdu_def)

lemma sample_announced_reach: "pipeline_reach sample_announced"
proof -
  have "pipeline_step sample_posted sample_announced"
    using sample_pipeline(3)
    by (rule run [where s = "Sender 64 65 BASIC 0\<lparr>is_dequeue_registered := False\<rparr>", rotated 3])
      (simp_all add: sample_posted_def dequeue_callback_def sample_pipeline_defs)
  with attach [OF sample_pipeline(1)] dequeue [OF sample_pipeline(2)]
  have "pipeline_step\<^sup>*\<^sup>* DataPipelineManager sample_announced"
    by (auto intro: rtranclp.rtrancl_into_rtrancl)
  then show ?thesis by (simp add: pipeline_reach_def)
qed


text \<open>C21: an SDU handed to a channel in basic mode crosses both pipelines.  It is dequeued and posted,
  the handler runs the data controller, which announces one packet, the callback of the link queue
  fetches it, and the receiver of the peer finds the controller of the channel and puts the SDU
  into its upper queue.\<close>

theorem pipeline_basic_sdu_delivered:
  assumes a: "pipeline_reach a" "sender_map a cid = Some s" "sender_controller s = BasicMode ca"
      "bm_remote_cid ca = remote_cid" "posted a = []" "schedule (scheduler a) = []" "length sdu < 65536"
    and b: "sender_map b remote_cid = Some t" "sender_controller t = BasicMode cb" "bm_effects cb = []"
  shows "\<exists>a1 a2 a3 packet b' t' cb' v. dequeue_callback cid sdu a = Some a1 \<and> run_posted a1 = Some a2 \<and>
    link_queue_enqueue_callback a2 = Some (packet, a3) \<and>
    link_queue_dequeue_callback (PacketView (encode packet)) b = Some b' \<and>
    sender_map b' remote_cid = Some t' \<and> sender_controller t' = BasicMode cb' \<and>
    eb_buffer (bm_enqueue_buffer cb') = eb_buffer (bm_enqueue_buffer cb) @ [v] \<and> bytes_of v = sdu"
proof -
  have ok: "pipeline_ok a" using a(1) by (rule pipeline_reach_ok)
  have sok: "sender_ok cid (scheduler a) s" using pipeline_ok_Some [OF ok a(2)] .
  then have ca: "bm_pdu_queue ca = []" "bm_effects ca = []" "bm_cid ca = cid"
    using a(3,6) by (auto simp: sender_ok_def owed_def)
  let ?s = "s\<lparr>is_dequeue_registered := False\<rparr>"
  let ?a1 = "a\<lparr>posted := [(cid, controller_number s, sdu)], sender_map := (sender_map a)(cid \<mapsto> ?s),
      link_calls := link_calls a @ [OnPendingPacketChange (channel_id s) True]\<rparr>"
  have a1: "dequeue_callback cid sdu a = Some ?a1" using a(2,5) by (simp add: dequeue_callback_def)
  let ?ca = "ca\<lparr>bm_pdu_queue := [BasicFrame remote_cid sdu], bm_effects := []\<rparr>"
  let ?f = "fifo_OnPacketsReady cid 1 (scheduler a)"
  let ?a2 = "?a1\<lparr>posted := [], sender_map := (sender_map a)(cid \<mapsto> ?s\<lparr>sender_controller := BasicMode ?ca\<rparr>),
      scheduler := ?f\<rparr>"
  have a2: "run_posted ?a1 = Some ?a2"
    using a(3,4) ca by (simp add: run_posted_def run_controller_def bm_OnSdu_def)
  have "fifo_ok (scheduler a)" using ok by (rule pipeline_ok_parts)
  then have f: "fifo_ok ?f" by (simp add: OnPacketsReady_ok)
  have "mpq_items (ready_queue (scheduler a)) = []"
    using a(6) schedule_empty_iff [OF \<open>fifo_ok (scheduler a)\<close>] mpq_empty_items [of "ready_queue (scheduler a)"]
      \<open>fifo_ok (scheduler a)\<close> by (simp add: fifo_ok_def)
  then have sch: "schedule ?f = [cid]"
    by (simp add: schedule_def fifo_OnPacketsReady_def Let_def try_register_link_queue_enqueue_def
        mpq_push_def mpq_items_def)
  then have "\<not> mpq_empty (ready_queue ?f)" using schedule_empty_iff [OF f] by simp
  then obtain g where g: "fifo_next_channel ?f = Some (cid, g)"
    using next_channel [OF f] sch by auto
  let ?packet = "BasicPdu (BasicFrame remote_cid sdu)"
  obtain a3 where a3: "link_queue_enqueue_callback ?a2 = Some (?packet, a3)"
    using g by (simp add: link_queue_enqueue_callback_def bm_GetNextPacket_def pm_OnPacketSent_def s_OnPacketSent_def)
  obtain v where v: "BasicFrameView (PacketView (basic_frame remote_cid sdu)) = Some (remote_cid, v)" "bytes_of v = sdu"
    using BasicFrameView_basic_frame [OF a(7), of remote_cid] by auto
  let ?cb = "cb\<lparr>bm_enqueue_buffer := eb_Enqueue v (bm_enqueue_buffer cb), bm_effects := []\<rparr>"
  have b': "link_queue_dequeue_callback (PacketView (encode ?packet)) b =
      Some (b\<lparr>sender_map := (sender_map b)(remote_cid \<mapsto> t\<lparr>sender_controller := BasicMode ?cb\<rparr>)\<rparr>)"
    using v(1) b by (simp add: link_queue_dequeue_callback_def GetDataController_def run_controller_def bm_OnPdu_def)
  show ?thesis using a1 a2 a3 b' v(2) by (fastforce simp: eb_Enqueue_def)
qed

text \<open>The state before the SDU is dequeued, on both sides.\<close>

theorem pipeline_basic_sdu_delivered_witness:
  "\<exists>a1 a2 a3 packet b'. dequeue_callback 64 [1, 2] sample_attached = Some a1 \<and> run_posted a1 = Some a2 \<and>
    link_queue_enqueue_callback a2 = Some (packet, a3) \<and>
    link_queue_dequeue_callback (PacketView (encode packet))
      (the (AttachChannel 65 64 BASIC DataPipelineManager)) = Some b'"
proof -
  have "pipeline_reach sample_attached"
    unfolding pipeline_reach_def using attach [OF sample_pipeline(1)] by blast
  then show ?thesis
    using pipeline_basic_sdu_delivered [of sample_attached 64 "Sender 64 65 BASIC 0" "BasicModeDataController 64 65" 65 "[1, 2]"
        "the (AttachChannel 65 64 BASIC DataPipelineManager)" "Sender 65 64 BASIC 0" "BasicModeDataController 65 64"]
      fifo_ok_init(2)
    by (fastforce simp: sample_attached_def AttachChannel_def DataPipelineManager_def Sender_def try_register_dequeue_def
        BasicModeDataController_def)
qed


text \<open>A channel that is detached between the callback that dequeues an SDU and the posted task that
  hands it to the data controller leaves a task with a dangling pointer: running it aborts.\<close>

theorem posted_sdu_outlives_controller:
  "\<exists>p. DetachChannel 64 sample_posted = Some p \<and> posted p = [(64, 0, [1, 2])] \<and> run_posted p = None"
  by (simp add: DetachChannel_def sample_posted_def run_posted_def dequeue_callback_def sample_pipeline_defs)

text \<open>A configuration that goes back to basic mode is ignored.  The sender never records the mode it
  was configured with, so in every reachable state a configuration with basic mode leaves the
  channel with the data controller it has.\<close>

theorem configuration_to_basic_ignored:
  assumes "pipeline_reach p" "sender_map p cid = Some s" "retransmission_and_flow_control_mode config = L2CAP_BASIC"
  shows "\<exists>p'. pm_UpdateClassicConfiguration cid config p = Some p' \<and> sender_map p' = sender_map p"
proof -
  have "sender_mode s = L2CAP_BASIC"
    using pipeline_ok_Some [OF pipeline_reach_ok [OF assms(1)] assms(2)] by (simp add: sender_ok_def)
  with assms(2,3) show ?thesis
    by (simp add: pm_UpdateClassicConfiguration_def s_UpdateClassicConfiguration_def map_upd_triv)
qed

theorem configuration_to_basic_ignored_witness:
  "\<exists>p s p' opt. pipeline_reach p \<and> sender_map p 64 = Some s \<and> (\<exists>c. sender_controller s = ErtmMode c) \<and>
     pm_UpdateClassicConfiguration 64 \<lparr>config_state = CONFIGURED, retransmission_and_flow_control_mode = L2CAP_BASIC,
       local_retransmission_and_flow_control = opt, remote_retransmission_and_flow_control = opt,
       fcs_type = NO_FCS\<rparr> p = Some p' \<and> sender_map p' = sender_map p"
proof -
  let ?p = "the (AttachChannel 64 65 ERTM DataPipelineManager)"
  have p: "AttachChannel 64 65 ERTM DataPipelineManager = Some ?p" "sender_map ?p 64 = Some (Sender 64 65 ERTM 0)"
    by (simp_all add: AttachChannel_def DataPipelineManager_def)
  then have r: "pipeline_reach ?p" unfolding pipeline_reach_def using attach by blast
  have "\<exists>c. sender_controller (Sender 64 65 ERTM 0) = ErtmMode c"
    by (simp add: Sender_def try_register_dequeue_def)
  moreover define opt :: RetransmissionAndFlowControlConfigurationOption where
    "opt = \<lparr>rfc_mode = L2CAP_BASIC, tx_window_size = 0, max_transmit = 0, retransmission_time_out = 0,
       monitor_time_out = 0, maximum_pdu_size = 0\<rparr>"
  moreover obtain p' where "pm_UpdateClassicConfiguration 64 \<lparr>config_state = CONFIGURED,
      retransmission_and_flow_control_mode = L2CAP_BASIC, local_retransmission_and_flow_control = opt,
      remote_retransmission_and_flow_control = opt, fcs_type = NO_FCS\<rparr> ?p = Some p'" "sender_map p' = sender_map ?p"
    using configuration_to_basic_ignored [OF r p(2), of "\<lparr>config_state = CONFIGURED,
      retransmission_and_flow_control_mode = L2CAP_BASIC, local_retransmission_and_flow_control = opt,
      remote_retransmission_and_flow_control = opt, fcs_type = NO_FCS\<rparr>"] by auto
  ultimately show ?thesis using r p(2) by blast
qed

text \<open>The delivery of a packet that was kept until its channel is attached.\<close>

definition replay :: "packet_view \<Rightarrow> pipeline \<Rightarrow> pipeline option" where
  "replay packet p =
     (case BasicFrameView packet of None \<Rightarrow> Some p
      | Some (cid, _) \<Rightarrow> (case GetDataController cid p of None \<Rightarrow> Some p | Some _ \<Rightarrow> run_controller cid (Pdu packet) p))"

lemma fold_apply_effect_buffered:
  "fold apply_effect es (p\<lparr>buffered_packets := vs\<rparr>) = (fold apply_effect es p)\<lparr>buffered_packets := vs\<rparr>"
proof (induction es arbitrary: p)
  case (Cons e es)
  have "apply_effect e (p\<lparr>buffered_packets := vs\<rparr>) = (apply_effect e p)\<lparr>buffered_packets := vs\<rparr>" by (cases e) simp_all
  then show ?case by (simp add: Cons)
qed simp

lemma run_controller_buffered:
  "run_controller cid e (p\<lparr>buffered_packets := vs\<rparr>) = map_option (\<lambda>p. p\<lparr>buffered_packets := vs\<rparr>) (run_controller cid e p)"
proof -
  have "p\<lparr>buffered_packets := vs, sender_map := m\<rparr> = p\<lparr>sender_map := m, buffered_packets := vs\<rparr>" for m by simp
  then have "fold apply_effect es (p\<lparr>buffered_packets := vs, sender_map := m\<rparr>) =
      (fold apply_effect es (p\<lparr>sender_map := m\<rparr>))\<lparr>buffered_packets := vs\<rparr>" for es m
    by (simp only: fold_apply_effect_buffered)
  note buffered = this
  show ?thesis
  proof (cases "sender_map p cid")
    case None
    then show ?thesis by (simp add: run_controller_def)
  next
    case (Some s)
    then show ?thesis
      by (cases "dc_handle e (sender_controller s)") (simp_all add: run_controller_def buffered)
  qed
qed

lemma check_loop_replay:
  "list_all (\<lambda>v. BasicFrameView v \<noteq> None) vs \<Longrightarrow>
   check_loop vs (p\<lparr>buffered_packets := ws\<rparr>) = foldM replay vs (p\<lparr>buffered_packets := []\<rparr>)"
proof (induction vs arbitrary: p ws)
  case (Cons v vs)
  then obtain cid pl where v: "BasicFrameView v = Some (cid, pl)" by auto
  show ?case
  proof (cases "sender_map p cid")
    case None
    with v Cons show ?thesis by (simp add: replay_def GetDataController_def)
  next
    case (Some s)
    have "Option.bind (run_controller cid (Pdu v) (p\<lparr>buffered_packets := vs\<rparr>)) (check_loop vs) =
        Option.bind (run_controller cid (Pdu v) (p\<lparr>buffered_packets := []\<rparr>)) (foldM replay vs)"
      using Cons by (cases "run_controller cid (Pdu v) p") (auto simp: run_controller_buffered)
    moreover have "replay v (p\<lparr>buffered_packets := []\<rparr>) = run_controller cid (Pdu v) (p\<lparr>buffered_packets := []\<rparr>)"
      using v Some by (simp add: replay_def GetDataController_def)
    ultimately show ?thesis using v Some by (simp add: GetDataController_def)
  qed
qed simp



end
