(* ===== verification/Channels.thy ===== *)
theory Channels
  imports L2cap_Basics
begin

text \<open>
  The channels of a link and their books: DynamicChannelImpl and DynamicChannelAllocator
  (l2cap/internal), FixedChannelImpl (l2cap/classic/internal), FixedChannelAllocator
  (l2cap/internal) and the two service managers (l2cap/classic/internal).

  A \<open>std::unordered_map\<close> that is iterated is an association list with distinct keys.  Its order
  is unspecified in C++; the lemmas on the searches below do not depend on it.  A callback is a
  number, and the callbacks that ran are listed with their argument.  The search for a free channel
  identifier is a \<open>partial_function\<close>: its loop condition is always true.
\<close>

type_synonym ErrorCode = u8

subsection \<open>DynamicChannelImpl\<close>

record dynamic_channel =
  dyn_psm :: Psm
  dyn_cid :: Cid
  dyn_remote_cid :: Cid
  dyn_has_link :: bool
  dyn_on_close :: "nat option"
  dyn_closed :: bool
  dyn_close_reason :: ErrorCode
  local_initiated :: bool
  dyn_invoked :: "(nat \<times> ErrorCode) list"

definition DynamicChannelImpl :: "Psm \<Rightarrow> Cid \<Rightarrow> Cid \<Rightarrow> dynamic_channel option" where
  "DynamicChannelImpl psm cid remote_cid = do {
     ASSERT (0 < cid);
     ASSERT (0 < remote_cid);
     Some \<lparr>dyn_psm = psm, dyn_cid = cid, dyn_remote_cid = remote_cid, dyn_has_link = True, dyn_on_close = None,
       dyn_closed = False, dyn_close_reason = 0, local_initiated = False, dyn_invoked = []\<rparr> }"

definition dyn_RegisterOnCloseCallback :: "nat \<Rightarrow> dynamic_channel \<Rightarrow> dynamic_channel option" where
  "dyn_RegisterOnCloseCallback callback ch = do {
     ASSERT (dyn_on_close ch = None);
     Some (if dyn_closed ch then ch\<lparr>dyn_invoked := dyn_invoked ch @ [(callback, dyn_close_reason ch)]\<rparr>
           else ch\<lparr>dyn_on_close := Some callback\<rparr>) }"

text \<open>The identifiers for which Close asks the link to disconnect, if any.\<close>

definition dyn_Close :: "dynamic_channel \<Rightarrow> (Cid \<times> Cid) option" where
  "dyn_Close ch = (if \<not> dyn_has_link ch then None else Some (dyn_cid ch, dyn_remote_cid ch))"

definition dyn_OnClosed :: "ErrorCode \<Rightarrow> dynamic_channel \<Rightarrow> dynamic_channel option" where
  "dyn_OnClosed status ch = do {
     ASSERT (\<not> dyn_closed ch);
     let ch = ch\<lparr>dyn_closed := True, dyn_close_reason := status, dyn_has_link := False\<rparr>;
     let ch = (case dyn_on_close ch of None \<Rightarrow> ch
               | Some callback \<Rightarrow> ch\<lparr>dyn_invoked := dyn_invoked ch @ [(callback, status)]\<rparr>);
     Some (ch\<lparr>dyn_on_close := None\<rparr>) }"

subsection \<open>DynamicChannelAllocator\<close>

record dyn_alloc =
  used_cid :: "Cid set"
  used_remote_cid :: "Cid set"
  dyn_channels :: "(Cid \<times> dynamic_channel) list"

definition DynamicChannelAllocator :: dyn_alloc where
  "DynamicChannelAllocator = \<lparr>used_cid = {}, used_remote_cid = {}, dyn_channels = []\<rparr>"

text \<open>The loop shared by AllocateChannel and ReserveChannel; the identifier wraps at 16 bits.\<close>

partial_function (option) search_cid :: "Cid set \<Rightarrow> Cid \<Rightarrow> Cid option" where
  "search_cid used cid =
     (if cid \<le> kLastDynamicChannel
      then if cid \<notin> used then Some cid else search_cid used (cid + 1)
      else Some cid)"

definition try_emplace :: "'k \<Rightarrow> 'v \<Rightarrow> ('k \<times> 'v) list \<Rightarrow> ('k \<times> 'v) list option" where
  "try_emplace k v xs = (if map_of xs k = None then Some (xs @ [(k, v)]) else None)"

text \<open>The identifier stands for the channel object; the inner \<open>None\<close> is the null pointer.\<close>

definition AllocateChannel :: "Psm \<Rightarrow> Cid \<Rightarrow> dyn_alloc \<Rightarrow> (Cid option \<times> dyn_alloc) option" where
  "AllocateChannel psm remote_cid a =
     (if remote_cid \<in> used_remote_cid a then Some (None, a)
      else do {
        cid \<leftarrow> search_cid (used_cid a) kFirstDynamicChannel;
        if kLastDynamicChannel < cid then Some (None, a)
        else do {
          ch \<leftarrow> DynamicChannelImpl psm cid remote_cid;
          chs \<leftarrow> try_emplace cid ch (dyn_channels a);
          Some (Some cid, a\<lparr>dyn_channels := chs, used_remote_cid := insert remote_cid (used_remote_cid a),
                            used_cid := insert cid (used_cid a)\<rparr>) } })"

definition AllocateReservedChannel :: "Cid \<Rightarrow> Psm \<Rightarrow> Cid \<Rightarrow> dyn_alloc \<Rightarrow> (Cid option \<times> dyn_alloc) option" where
  "AllocateReservedChannel reserved_cid psm remote_cid a =
     (if remote_cid \<in> used_remote_cid a then Some (None, a)
      else do {
        ch \<leftarrow> DynamicChannelImpl psm reserved_cid remote_cid;
        chs \<leftarrow> try_emplace reserved_cid ch (dyn_channels a);
        Some (Some reserved_cid, a\<lparr>dyn_channels := chs, used_remote_cid := insert remote_cid (used_remote_cid a)\<rparr>) })"

definition ReserveChannel :: "dyn_alloc \<Rightarrow> (Cid \<times> dyn_alloc) option" where
  "ReserveChannel a = do {
     cid \<leftarrow> search_cid (used_cid a) kFirstDynamicChannel;
     if kLastDynamicChannel < cid then Some (kInvalidCid, a)
     else Some (cid, a\<lparr>used_cid := insert cid (used_cid a)\<rparr>) }"

definition FindChannelByCid :: "Cid \<Rightarrow> dyn_alloc \<Rightarrow> dynamic_channel option" where
  "FindChannelByCid cid a = map_of (dyn_channels a) cid"

definition FreeChannel :: "Cid \<Rightarrow> dyn_alloc \<Rightarrow> dyn_alloc" where
  "FreeChannel cid a =
    (let a = a\<lparr>used_cid := used_cid a - {cid}\<rparr> in
     case FindChannelByCid cid a of None \<Rightarrow> a
     | Some channel \<Rightarrow>
       a\<lparr>used_remote_cid := used_remote_cid a - {dyn_remote_cid channel},
         dyn_channels := filter (\<lambda>(c, _). c \<noteq> cid) (dyn_channels a)\<rparr>)"

definition IsPsmUsed :: "Psm \<Rightarrow> dyn_alloc \<Rightarrow> bool" where
  "IsPsmUsed psm a \<longleftrightarrow> (\<exists>(_, channel)\<in>set (dyn_channels a). dyn_psm channel = psm)"

definition FindChannelByRemoteCid :: "Cid \<Rightarrow> dyn_alloc \<Rightarrow> dynamic_channel option" where
  "FindChannelByRemoteCid remote_cid a =
     map_option snd (List.find (\<lambda>(_, channel). dyn_remote_cid channel = remote_cid) (dyn_channels a))"

definition NumberOfChannels :: "dyn_alloc \<Rightarrow> nat" where
  "NumberOfChannels a = length (dyn_channels a)"

text \<open>Calling a method of the channel object.\<close>

definition update_channel :: "Cid \<Rightarrow> (dynamic_channel \<Rightarrow> dynamic_channel option) \<Rightarrow> dyn_alloc \<Rightarrow> dyn_alloc option" where
  "update_channel cid f a = do {
     ch \<leftarrow> FindChannelByCid cid a;
     ch \<leftarrow> f ch;
     Some (a\<lparr>dyn_channels := map (\<lambda>(c, x). if c = cid then (c, ch) else (c, x)) (dyn_channels a)\<rparr>) }"

fun dyn_close_all :: "ErrorCode \<Rightarrow> (Cid \<times> dynamic_channel) list \<Rightarrow> (Cid \<times> dynamic_channel) list option" where
  "dyn_close_all reason [] = Some []"
| "dyn_close_all reason ((c, ch) # chs) = do {
     ch \<leftarrow> dyn_OnClosed reason ch;
     chs \<leftarrow> dyn_close_all reason chs;
     Some ((c, ch) # chs) }"

definition dyn_OnAclDisconnected :: "ErrorCode \<Rightarrow> dyn_alloc \<Rightarrow> dyn_alloc option" where
  "dyn_OnAclDisconnected reason a = do {
     chs \<leftarrow> dyn_close_all reason (dyn_channels a);
     Some (a\<lparr>dyn_channels := chs\<rparr>) }"

subsection \<open>FixedChannelImpl\<close>

record fixed_channel =
  fix_cid :: Cid
  fix_has_link :: bool
  fix_on_close :: "nat option"
  acquired :: bool
  fix_closed :: bool
  fix_close_reason :: ErrorCode
  fix_invoked :: "(nat \<times> ErrorCode) list"

definition FixedChannelImpl :: "Cid \<Rightarrow> fixed_channel option" where
  "FixedChannelImpl cid = do {
     ASSERT (kFirstFixedChannel \<le> cid \<and> cid \<le> kLastFixedChannel);
     Some \<lparr>fix_cid = cid, fix_has_link = True, fix_on_close = None, acquired = False, fix_closed = False,
       fix_close_reason = 0, fix_invoked = []\<rparr> }"

definition fix_RegisterOnCloseCallback :: "nat \<Rightarrow> fixed_channel \<Rightarrow> fixed_channel option" where
  "fix_RegisterOnCloseCallback callback ch = do {
     ASSERT (fix_on_close ch = None);
     Some (if fix_closed ch then ch\<lparr>fix_invoked := fix_invoked ch @ [(callback, fix_close_reason ch)]\<rparr>
           else ch\<lparr>fix_on_close := Some callback\<rparr>) }"

definition fix_OnClosed :: "ErrorCode \<Rightarrow> fixed_channel \<Rightarrow> fixed_channel option" where
  "fix_OnClosed status ch = do {
     ASSERT (\<not> fix_closed ch);
     let ch = ch\<lparr>fix_closed := True, fix_close_reason := status, acquired := False, fix_has_link := False\<rparr>;
     Some (case fix_on_close ch of None \<Rightarrow> ch
           | Some callback \<Rightarrow> ch\<lparr>fix_invoked := fix_invoked ch @ [(callback, status)], fix_on_close := None\<rparr>) }"

text \<open>Acquire and Release; the second component says whether the link refreshes its count.\<close>

definition fix_Acquire :: "fixed_channel \<Rightarrow> (fixed_channel \<times> bool) option" where
  "fix_Acquire ch = do {
     ASSERT (fix_on_close ch \<noteq> None);
     if fix_closed ch then do { ASSERT (\<not> acquired ch); Some (ch, False) }
     else if acquired ch then Some (ch, False)
     else Some (ch\<lparr>acquired := True\<rparr>, True) }"

definition fix_Release :: "fixed_channel \<Rightarrow> (fixed_channel \<times> bool) option" where
  "fix_Release ch = do {
     ASSERT (fix_on_close ch \<noteq> None);
     if fix_closed ch then do { ASSERT (\<not> acquired ch); Some (ch, False) }
     else if \<not> acquired ch then Some (ch, False)
     else Some (ch\<lparr>acquired := False\<rparr>, True) }"

subsection \<open>FixedChannelAllocator\<close>

type_synonym fix_alloc = "(Cid \<times> fixed_channel) list"

definition IsChannelAllocated :: "Cid \<Rightarrow> fix_alloc \<Rightarrow> bool" where
  "IsChannelAllocated cid a \<longleftrightarrow> map_of a cid \<noteq> None"

definition fix_AllocateChannel :: "Cid \<Rightarrow> fix_alloc \<Rightarrow> fix_alloc option" where
  "fix_AllocateChannel cid a = do {
     ASSERT (\<not> IsChannelAllocated cid a);
     ASSERT (kFirstFixedChannel \<le> cid \<and> cid \<le> kLastFixedChannel);
     ch \<leftarrow> FixedChannelImpl cid;
     try_emplace cid ch a }"

definition fix_FreeChannel :: "Cid \<Rightarrow> fix_alloc \<Rightarrow> fix_alloc option" where
  "fix_FreeChannel cid a = do {
     ASSERT (IsChannelAllocated cid a);
     Some (filter (\<lambda>(c, _). c \<noteq> cid) a) }"

definition fix_FindChannel :: "Cid \<Rightarrow> fix_alloc \<Rightarrow> fixed_channel option" where
  "fix_FindChannel cid a = do {
     ASSERT (IsChannelAllocated cid a);
     map_of a cid }"

definition fix_NumberOfChannels :: "fix_alloc \<Rightarrow> nat" where
  "fix_NumberOfChannels a = length a"

fun fix_OnAclDisconnected :: "ErrorCode \<Rightarrow> fix_alloc \<Rightarrow> fix_alloc option" where
  "fix_OnAclDisconnected status [] = Some []"
| "fix_OnAclDisconnected status ((c, ch) # chs) = do {
     ch \<leftarrow> fix_OnClosed status ch;
     chs \<leftarrow> fix_OnAclDisconnected status chs;
     Some ((c, ch) # chs) }"

fun GetRefCount :: "fix_alloc \<Rightarrow> nat" where
  "GetRefCount [] = 0"
| "GetRefCount ((_, ch) # chs) = (if acquired ch then 1 else 0) + GetRefCount chs"

subsection \<open>Service managers\<close>

datatype SecurityPolicy =
  ENCRYPTED_TRANSPORT | AUTHENTICATED_ENCRYPTED_TRANSPORT | BEST | SDP_ONLY_NO_SECURITY

datatype channel_mode = MODE_BASIC | MODE_ERTM | MODE_ERTM_OPTIONAL

record DynamicChannelConfigurationOption =
  channel_mode :: channel_mode
  incoming_mtu :: Mtu
  minimal_remote_mtu :: Mtu

record dynamic_service =
  security_policy :: SecurityPolicy
  config_option :: DynamicChannelConfigurationOption

datatype RegistrationResult = REGISTERED | FAIL_DUPLICATE_SERVICE | FAIL_INVALID_SERVICE

type_synonym dynamic_services = "(Psm \<times> dynamic_service) list"

definition dsm_IsServiceRegistered :: "Psm \<Rightarrow> dynamic_services \<Rightarrow> bool" where
  "dsm_IsServiceRegistered psm m \<longleftrightarrow> map_of m psm \<noteq> None"

definition dsm_Register :: "Psm \<Rightarrow> dynamic_service \<Rightarrow> dynamic_services \<Rightarrow> RegistrationResult \<times> dynamic_services" where
  "dsm_Register psm service m =
     (if \<not> IsPsmValid psm then (FAIL_INVALID_SERVICE, m)
      else if dsm_IsServiceRegistered psm m then (FAIL_DUPLICATE_SERVICE, m)
      else (REGISTERED, m @ [(psm, service)]))"

text \<open>The first component says whether the callback runs.\<close>

definition dsm_Unregister :: "Psm \<Rightarrow> dynamic_services \<Rightarrow> bool \<times> dynamic_services" where
  "dsm_Unregister psm m =
     (if dsm_IsServiceRegistered psm m then (True, filter (\<lambda>(p, _). p \<noteq> psm) m) else (False, m))"

definition dsm_GetService :: "Psm \<Rightarrow> dynamic_services \<Rightarrow> dynamic_service option" where
  "dsm_GetService psm m = do {
     ASSERT (dsm_IsServiceRegistered psm m);
     map_of m psm }"

type_synonym fixed_services = "Cid list"

definition fsm_IsServiceRegistered :: "Cid \<Rightarrow> fixed_services \<Rightarrow> bool" where
  "fsm_IsServiceRegistered cid m \<longleftrightarrow> cid \<in> set m"

definition fsm_Register :: "Cid \<Rightarrow> fixed_services \<Rightarrow> RegistrationResult \<times> fixed_services" where
  "fsm_Register cid m =
     (if cid < kFirstFixedChannel \<or> kLastFixedChannel < cid \<or> cid = kClassicSignallingCid
      then (FAIL_INVALID_SERVICE, m)
      else if fsm_IsServiceRegistered cid m then (FAIL_DUPLICATE_SERVICE, m)
      else (REGISTERED, m @ [cid]))"

definition fsm_Unregister :: "Cid \<Rightarrow> fixed_services \<Rightarrow> bool \<times> fixed_services" where
  "fsm_Unregister cid m = (if fsm_IsServiceRegistered cid m then (True, filter (\<lambda>c. c \<noteq> cid) m) else (False, m))"

definition kConnectionlessCid :: Cid where
  "kConnectionlessCid = 2"

definition kSmpBrCid :: Cid where
  "kSmpBrCid = 7"

definition GetSupportedFixedChannelMask :: "fixed_services \<Rightarrow> 64 word" where
  "GetSupportedFixedChannelMask m =
     fold (\<lambda>cid result. if cid = kConnectionlessCid then result OR 0x04
                        else if cid = kSmpBrCid then result OR 0x80 else result)
       m 0x02"


subsection \<open>The search for a free identifier\<close>

lemmas cid_consts = kInvalidCid_def kFirstFixedChannel_def kLastFixedChannel_def kFirstDynamicChannel_def
  kLastDynamicChannel_def kClassicSignallingCid_def

lemma le_kLastDynamicChannel [simp]: "cid \<le> kLastDynamicChannel"
  using unat_u16_lt [of cid] by (simp add: kLastDynamicChannel_def word_le_nat_alt)

lemma not_kLastDynamicChannel_less [simp]: "\<not> kLastDynamicChannel < cid"
  by (simp add: not_less)

lemma search_cid_step: "search_cid used cid = (if cid \<notin> used then Some cid else search_cid used (cid + 1))"
  by (subst search_cid.simps) simp

lemma distance_Suc: "x \<noteq> cid \<Longrightarrow> unat (x - cid) = Suc (unat (x - (cid + 1)))" for x cid :: Cid
proof -
  assume "x \<noteq> cid"
  then have "x - cid \<noteq> 0" by simp
  then have "unat (x - cid - 1) = unat (x - cid) - 1" by (rule unat_minus_one)
  moreover have "0 < unat (x - cid)" using \<open>x - cid \<noteq> 0\<close> by (simp add: unat_gt_0)
  ultimately show ?thesis by (simp add: diff_diff_add [symmetric])
qed

text \<open>The result is the first free identifier in the cyclic order that starts at \<open>cid\<close>.\<close>

lemma search_cid_first:
  "x \<notin> used \<Longrightarrow> \<exists>c. search_cid used cid = Some c \<and> c \<notin> used \<and> unat (c - cid) \<le> unat (x - cid) \<and>
     (\<forall>y. unat (y - cid) < unat (c - cid) \<longrightarrow> y \<in> used)"
proof (induction "unat (x - cid)" arbitrary: cid)
  case 0
  then have "x = cid" by (simp add: unat_eq_zero)
  with "0.prems" show ?case by (subst search_cid_step) simp
next
  case (Suc n)
  show ?case
  proof (cases "cid \<in> used")
    case False
    then show ?thesis by (subst search_cid_step) simp
  next
    case True
    with Suc.prems have "x \<noteq> cid" by auto
    from distance_Suc [OF this] Suc.hyps(2) have "n = unat (x - (cid + 1))" by simp
    from Suc.hyps(1) [OF this Suc.prems] obtain c where
      c: "search_cid used (cid + 1) = Some c" "c \<notin> used" "unat (c - (cid + 1)) \<le> unat (x - (cid + 1))"
         "\<forall>y. unat (y - (cid + 1)) < unat (c - (cid + 1)) \<longrightarrow> y \<in> used" by blast
    have "c \<noteq> cid" using c(2) True by auto
    then have "unat (c - cid) \<le> unat (x - cid)"
      using c(3) distance_Suc [of c cid] distance_Suc [OF \<open>x \<noteq> cid\<close>] by simp
    moreover have "y \<in> used" if "unat (y - cid) < unat (c - cid)" for y
      using that c(4) True distance_Suc [of y cid] distance_Suc [OF \<open>c \<noteq> cid\<close>] by (cases "y = cid") auto
    moreover have "search_cid used cid = Some c" using c(1) True by (subst search_cid_step) simp
    ultimately show ?thesis using c(2) by blast
  qed
qed

lemma unat_sub_le: "cid \<le> x \<Longrightarrow> unat (x - cid) = unat x - unat cid" for x cid :: Cid
  by (simp add: unat_sub)

lemma search_dynamic:
  assumes "x \<notin> used" "kFirstDynamicChannel \<le> x"
  shows "\<exists>c. search_cid used kFirstDynamicChannel = Some c \<and> c \<notin> used \<and> kFirstDynamicChannel \<le> c \<and> c \<le> x"
proof -
  let ?f = "kFirstDynamicChannel"
  obtain c where c: "search_cid used ?f = Some c" "c \<notin> used" "unat (c - ?f) \<le> unat (x - ?f)"
    using search_cid_first [OF assms(1), of ?f] by blast
  have "unat (c - ?f) \<le> unat x - unat ?f" using c(3) unat_sub_le [OF assms(2)] by simp
  moreover have "unat ?f \<le> unat x" using assms(2) by (simp add: word_le_nat_alt)
  ultimately have "unat (c - ?f) + unat ?f \<le> unat x" by linarith
  then have "unat (c - ?f + ?f) = unat (c - ?f) + unat ?f"
    using unat_u16_lt [of x] by (simp only: unat_plus_if_size word_size) simp
  then have "unat c = unat (c - ?f) + unat ?f" by simp
  with \<open>unat (c - ?f) + unat ?f \<le> unat x\<close> have "?f \<le> c" "c \<le> x" by (simp_all add: word_le_nat_alt)
  with c show ?thesis by blast
qed

subsection \<open>The books of the allocator\<close>

definition alloc_ok :: "dyn_alloc \<Rightarrow> bool" where
  "alloc_ok a \<longleftrightarrow> distinct (map fst (dyn_channels a)) \<and>
     (\<forall>(c, ch)\<in>set (dyn_channels a). dyn_cid ch = c \<and> c \<in> used_cid a) \<and>
     distinct (map (dyn_remote_cid \<circ> snd) (dyn_channels a)) \<and>
     used_remote_cid a = set (map (dyn_remote_cid \<circ> snd) (dyn_channels a))"

locale channel_registry =
  fixes find :: "Cid \<Rightarrow> 'r \<Rightarrow> 'c option" and find_remote :: "Cid \<Rightarrow> 'r \<Rightarrow> 'c option"
    and free :: "Cid \<Rightarrow> 'r \<Rightarrow> 'r" and cid_of remote_of :: "'c \<Rightarrow> Cid" and invar :: "'r \<Rightarrow> bool"
  assumes find_cid: "invar r \<Longrightarrow> find c r = Some ch \<Longrightarrow> cid_of ch = c"
    and find_remote_iff: "invar r \<Longrightarrow> find_remote d r = Some ch \<longleftrightarrow> find (cid_of ch) r = Some ch \<and> remote_of ch = d"
    and invar_free: "invar r \<Longrightarrow> invar (free c r)"
    and find_free: "invar r \<Longrightarrow> find c' (free c r) = (if c' = c then None else find c' r)"
begin

text \<open>The two identifiers of a channel name the same channel, and a freed channel has none.\<close>

lemma remote_unique:
  "invar r \<Longrightarrow> find c r = Some ch \<Longrightarrow> find c' r = Some ch' \<Longrightarrow> remote_of ch = remote_of ch' \<Longrightarrow> c = c'"
proof -
  assume a: "invar r" "find c r = Some ch" "find c' r = Some ch'" "remote_of ch = remote_of ch'"
  then have "find_remote (remote_of ch) r = Some ch" "find_remote (remote_of ch) r = Some ch'"
    using find_remote_iff [of r] find_cid by auto
  then have "ch = ch'" by simp
  with find_cid [OF a(1,2)] find_cid [OF a(1,3)] show ?thesis by simp
qed

lemma find_remote_find: "invar r \<Longrightarrow> find c r = Some ch \<Longrightarrow> find_remote (remote_of ch) r = Some ch"
  using find_remote_iff find_cid by auto

lemma find_remote_free: "invar r \<Longrightarrow> find c r = Some ch \<Longrightarrow> find_remote (remote_of ch) (free c r) = None"
proof -
  assume a: "invar r" "find c r = Some ch"
  { fix ch' assume "find_remote (remote_of ch) (free c r) = Some ch'"
    then have f: "find (cid_of ch') (free c r) = Some ch'" "remote_of ch' = remote_of ch"
      using find_remote_iff [OF invar_free [OF a(1)]] by auto
    then have "cid_of ch' \<noteq> c" "find (cid_of ch') r = Some ch'"
      using find_free [OF a(1)] by (auto split: if_split_asm)
    with remote_unique [OF a(1) _ a(2)] f(2) have False by blast }
  then show ?thesis by (cases "find_remote (remote_of ch) (free c r)") auto
qed

end

lemma find_remote_channels:
  assumes "alloc_ok a"
  shows "FindChannelByRemoteCid r a = Some ch \<longleftrightarrow> (\<exists>c. (c, ch) \<in> set (dyn_channels a)) \<and> dyn_remote_cid ch = r"
proof -
  have "distinct (map (dyn_remote_cid \<circ> snd) xs) \<Longrightarrow>
      map_option snd (List.find (\<lambda>(_, channel). dyn_remote_cid channel = r) xs) = Some ch \<longleftrightarrow>
      (\<exists>c. (c, ch) \<in> set xs) \<and> dyn_remote_cid ch = r" for xs :: "(Cid \<times> dynamic_channel) list"
    by (induction xs) (auto split: prod.split, force+)
  with assms show ?thesis by (auto simp: FindChannelByRemoteCid_def alloc_ok_def)
qed

lemma map_of_filter_key: "map_of (filter (\<lambda>(c, _). c \<noteq> k) xs) c' = (if c' = k then None else map_of xs c')"
  by (induction xs) auto

lemma find_iff: "alloc_ok a \<Longrightarrow> FindChannelByCid c a = Some ch \<longleftrightarrow> (c, ch) \<in> set (dyn_channels a)"
  by (simp add: FindChannelByCid_def alloc_ok_def map_of_eq_Some_iff)

lemma FindChannelByCid_Free: "FindChannelByCid c' (FreeChannel c a) = (if c' = c then None else FindChannelByCid c' a)"
  by (auto simp: FreeChannel_def Let_def FindChannelByCid_def map_of_filter_key split: option.split)

lemma FreeChannel_ok: "alloc_ok a \<Longrightarrow> alloc_ok (FreeChannel c a)"
proof -
  assume ok: "alloc_ok a"
  let ?keep = "\<lambda>(d, _ :: dynamic_channel). d \<noteq> c"
  show ?thesis
  proof (cases "FindChannelByCid c a")
    case None
    then have "\<forall>(d, ch)\<in>set (dyn_channels a). d \<noteq> c"
      by (force simp: FindChannelByCid_def map_of_eq_None_iff)
    with None ok show ?thesis by (auto simp: FreeChannel_def FindChannelByCid_def alloc_ok_def)
  next
    case (Some ch)
    then have mem: "(c, ch) \<in> set (dyn_channels a)" using find_iff [OF ok] by blast
    have same: "(d, x) \<in> set (dyn_channels a) \<Longrightarrow> d \<noteq> c \<longleftrightarrow> dyn_remote_cid x \<noteq> dyn_remote_cid ch" for d x
    proof -
      assume x: "(d, x) \<in> set (dyn_channels a)"
      have inj: "inj_on (dyn_remote_cid \<circ> snd) (set (dyn_channels a))" "inj_on fst (set (dyn_channels a))"
        using ok by (auto simp: alloc_ok_def distinct_map)
      have "dyn_remote_cid x = dyn_remote_cid ch \<Longrightarrow> (d, x) = (c, ch)" "d = c \<Longrightarrow> (d, x) = (c, ch)"
        using inj_onD [OF inj(1) _ x mem] inj_onD [OF inj(2) _ x mem] by auto
      then show ?thesis by auto
    qed
    have "filter ?keep (dyn_channels a) =
        filter (\<lambda>p. (dyn_remote_cid \<circ> snd) p \<noteq> dyn_remote_cid ch) (dyn_channels a)"
    proof (rule filter_cong [OF refl])
      fix p assume "p \<in> set (dyn_channels a)"
      then show "?keep p = ((dyn_remote_cid \<circ> snd) p \<noteq> dyn_remote_cid ch)" using same [of "fst p" "snd p"] by (simp add: case_prod_unfold)
    qed
    then have "used_remote_cid a - {dyn_remote_cid ch} = set (map (dyn_remote_cid \<circ> snd) (filter ?keep (dyn_channels a)))"
      using ok by (auto simp: alloc_ok_def)
    moreover have "distinct (map fst (filter ?keep (dyn_channels a)))"
      "distinct (map (dyn_remote_cid \<circ> snd) (filter ?keep (dyn_channels a)))"
      using ok by (auto simp: alloc_ok_def distinct_map inj_on_def)
    ultimately show ?thesis
      using ok Some by (auto simp: FreeChannel_def Let_def FindChannelByCid_def alloc_ok_def)
  qed
qed

interpretation dyn: channel_registry FindChannelByCid FindChannelByRemoteCid FreeChannel dyn_cid dyn_remote_cid alloc_ok
proof
  fix r c ch assume ok: "alloc_ok r"
  show "FindChannelByCid c r = Some ch \<Longrightarrow> dyn_cid ch = c"
    using find_iff [OF ok] ok by (auto simp: alloc_ok_def)
  fix d
  have "(c, ch) \<in> set (dyn_channels r) \<Longrightarrow> dyn_cid ch = c" for c using ok by (auto simp: alloc_ok_def)
  then show "FindChannelByRemoteCid d r = Some ch \<longleftrightarrow> FindChannelByCid (dyn_cid ch) r = Some ch \<and> dyn_remote_cid ch = d"
    using find_remote_channels [OF ok] find_iff [OF ok] by blast
qed (simp_all add: FreeChannel_ok FindChannelByCid_Free)

lemma new_channel:
  "0 < cid \<Longrightarrow> 0 < r \<Longrightarrow> DynamicChannelImpl psm cid r = Some \<lparr>dyn_psm = psm, dyn_cid = cid, dyn_remote_cid = r,
     dyn_has_link = True, dyn_on_close = None, dyn_closed = False, dyn_close_reason = 0, local_initiated = False,
     dyn_invoked = []\<rparr>"
  by (simp add: DynamicChannelImpl_def)

lemma add_channel_ok:
  assumes "alloc_ok a" "dyn_cid ch = cid" "dyn_remote_cid ch \<notin> used_remote_cid a" "map_of (dyn_channels a) cid = None"
  shows "alloc_ok (a\<lparr>dyn_channels := dyn_channels a @ [(cid, ch)],
      used_remote_cid := insert (dyn_remote_cid ch) (used_remote_cid a), used_cid := insert cid (used_cid a)\<rparr>)"
  using assms by (auto simp: alloc_ok_def map_of_eq_None_iff)

subsection \<open>Properties\<close>

text \<open>C30: the search for a free channel identifier ends whenever one of the 65536 identifiers is free,
  although its loop condition is always true, and the result is the first free identifier in the
  cyclic order that starts where the search starts.\<close>

theorem search_cid_terminates:
  assumes "x \<notin> used"
  shows "\<exists>c. search_cid used cid = Some c \<and> c \<notin> used \<and> (\<forall>y. unat (y - cid) < unat (c - cid) \<longrightarrow> y \<in> used)"
  using search_cid_first [OF assms, of cid] by blast

theorem search_cid_terminates_witness:
  "\<exists>c. search_cid {64, 65} 64 = Some c \<and> c \<notin> {64, 65} \<and> (\<forall>y :: Cid. unat (y - 64) < unat (c - 64) \<longrightarrow> y \<in> {64, 65})"
  using search_cid_terminates [of "66 :: Cid" "{64, 65}" 64] by simp


definition sample_alloc :: dyn_alloc where
  "sample_alloc = DynamicChannelAllocator"


text \<open>When every dynamic identifier is used, the search wraps to the invalid identifier 0 instead of
  failing.  AllocateChannel then aborts on it, and ReserveChannel hands it out and marks it used.\<close>

theorem allocator_exhausted:
  assumes "{c. kFirstDynamicChannel \<le> c} \<subseteq> used_cid a" "0 \<notin> used_cid a" "remote_cid \<notin> used_remote_cid a"
  shows "AllocateChannel psm remote_cid a = None \<and>
    ReserveChannel a = Some (kInvalidCid, a\<lparr>used_cid := insert kInvalidCid (used_cid a)\<rparr>)"
proof -
  let ?f = "kFirstDynamicChannel"
  obtain c where c: "search_cid (used_cid a) ?f = Some c" "c \<notin> used_cid a" "unat (c - ?f) \<le> unat (0 - ?f)"
    using search_cid_first [OF assms(2), of ?f] by blast
  have "\<not> ?f \<le> c" using c(2) assms(1) by auto
  then have lt: "unat c < 64" by (simp add: cid_consts word_le_nat_alt)
  have f: "unat (0 - ?f) = 65472" by (simp add: cid_consts)
  have "unat (c - ?f) = 65472 + unat c"
    using lt by (simp add: cid_consts unat_sub_if_size word_size)
  with c(3) f have "c = 0" by (simp add: unat_eq_zero)
  with c(1) assms(3) show ?thesis
    by (simp add: AllocateChannel_def ReserveChannel_def DynamicChannelImpl_def kInvalidCid_def)
qed

theorem allocator_exhausted_witness:
  "AllocateChannel 1 70 (DynamicChannelAllocator\<lparr>used_cid := {c. kFirstDynamicChannel \<le> c}\<rparr>) = None"
proof -
  have "(0 :: Cid) \<notin> {c. kFirstDynamicChannel \<le> c}" by (simp add: cid_consts)
  then show ?thesis
    using allocator_exhausted [of "DynamicChannelAllocator\<lparr>used_cid := {c. kFirstDynamicChannel \<le> c}\<rparr>" 70 1]
    by (simp add: DynamicChannelAllocator_def)
qed

text \<open>C32: the close callback of a channel runs exactly once with the reason of the closing, whether it is
  registered before or after the channel is closed; closing a channel twice aborts.  This holds
  for dynamic and for fixed channels.\<close>

theorem close_callback_runs_once:
  assumes "\<not> dyn_closed ch" "dyn_on_close ch = None" "dyn_invoked ch = []"
    and "\<not> fix_closed fc" "fix_on_close fc = None" "fix_invoked fc = []"
  shows "map_option dyn_invoked (Option.bind (dyn_RegisterOnCloseCallback k ch) (dyn_OnClosed r)) = Some [(k, r)] \<and>
    map_option dyn_invoked (Option.bind (dyn_OnClosed r ch) (dyn_RegisterOnCloseCallback k)) = Some [(k, r)] \<and>
    Option.bind (dyn_OnClosed r ch) (dyn_OnClosed r') = None \<and>
    map_option fix_invoked (Option.bind (fix_RegisterOnCloseCallback k fc) (fix_OnClosed r)) = Some [(k, r)] \<and>
    map_option fix_invoked (Option.bind (fix_OnClosed r fc) (fix_RegisterOnCloseCallback k)) = Some [(k, r)] \<and>
    Option.bind (fix_OnClosed r fc) (fix_OnClosed r') = None"
  using assms by (simp add: dyn_RegisterOnCloseCallback_def dyn_OnClosed_def fix_RegisterOnCloseCallback_def
      fix_OnClosed_def Let_def)

theorem close_callback_runs_once_witness:
  "map_option dyn_invoked (Option.bind (Option.bind (DynamicChannelImpl 1 64 65) (dyn_RegisterOnCloseCallback 5)) (dyn_OnClosed 8)) =
     Some [(5, 8)]"
proof -
  obtain ch where ch: "DynamicChannelImpl 1 64 65 = Some ch" "\<not> dyn_closed ch" "dyn_on_close ch = None" "dyn_invoked ch = []"
    by (simp add: DynamicChannelImpl_def)
  obtain fc where fc: "FixedChannelImpl 1 = Some fc" "\<not> fix_closed fc" "fix_on_close fc = None" "fix_invoked fc = []"
    by (simp add: FixedChannelImpl_def cid_consts)
  from close_callback_runs_once [OF ch(2-4) fc(2-4), of 5 8 9] ch(1) show ?thesis by simp
qed

end
