(* ===== verification/Control_Packets.thy ===== *)
theory Control_Packets
  imports L2cap_Packets
begin

text \<open>
  The commands of the classic signalling channel (l2cap/l2cap\_packets.pdl from \<open>CommandCode\<close> on)
  and the way a signalling packet is cut into commands
  (l2cap/classic/internal/signalling\_manager.cc, GetCommandsFromPacketView).

  The classes generated from the packet description are not in the repository.  As in
  \<open>L2cap_Packets\<close>, a view of a derived packet reads its fields after the header of its parent and a
  field without size runs to the end of the packet.  Enumerations the code compares with some of
  their values only are the words on the wire.  The parser of the list of configuration options
  is a parameter \<open>get_config\<close>.
\<close>

subsection \<open>Values\<close>

abbreviation CONNECTION_SUCCESS :: u16 where "CONNECTION_SUCCESS \<equiv> 0"
abbreviation CONNECTION_PENDING :: u16 where "CONNECTION_PENDING \<equiv> 1"
abbreviation PSM_NOT_SUPPORTED :: u16 where "PSM_NOT_SUPPORTED \<equiv> 2"
abbreviation SECURITY_BLOCK :: u16 where "SECURITY_BLOCK \<equiv> 3"
abbreviation NO_RESOURCES_AVAILABLE :: u16 where "NO_RESOURCES_AVAILABLE \<equiv> 4"
abbreviation INVALID_CID :: u16 where "INVALID_CID \<equiv> 6"

abbreviation NO_FURTHER_INFORMATION_AVAILABLE :: u16 where "NO_FURTHER_INFORMATION_AVAILABLE \<equiv> 0"

abbreviation CONFIG_SUCCESS :: u16 where "CONFIG_SUCCESS \<equiv> 0"
abbreviation UNACCEPTABLE_PARAMETERS :: u16 where "UNACCEPTABLE_PARAMETERS \<equiv> 1"
abbreviation UNKNOWN_OPTIONS :: u16 where "UNKNOWN_OPTIONS \<equiv> 3"
abbreviation CONFIG_PENDING :: u16 where "CONFIG_PENDING \<equiv> 4"

abbreviation CONNECTIONLESS_MTU :: u16 where "CONNECTIONLESS_MTU \<equiv> 1"
abbreviation EXTENDED_FEATURES_SUPPORTED :: u16 where "EXTENDED_FEATURES_SUPPORTED \<equiv> 2"
abbreviation FIXED_CHANNELS_SUPPORTED :: u16 where "FIXED_CHANNELS_SUPPORTED \<equiv> 3"

datatype Continuation = CONTINUATION_END | CONTINUE

datatype ConfigurationOption =
    MtuConfigurationOption bool Mtu
  | FlushTimeoutConfigurationOption bool u16
  | RetransmissionOption bool RetransmissionAndFlowControlConfigurationOption
  | FrameCheckSequenceOption bool FcsType
  | OtherConfigurationOption bool u8 bytes

datatype control =
    CommandReject u8 u16 bytes
  | ConnectionRequest u8 Psm Cid
  | ConnectionResponse u8 Cid Cid u16 u16
  | ConfigurationRequest u8 Cid Continuation "ConfigurationOption list"
  | ConfigurationResponse u8 Cid Continuation u16 "ConfigurationOption list"
  | DisconnectionRequest u8 Cid Cid
  | DisconnectionResponse u8 Cid Cid
  | EchoRequest u8 bytes
  | EchoResponse u8 bytes
  | InformationRequest u8 u16
  | InformationResponse u8 u16 u16 bytes
  | OtherCommand u8 u8 bytes

subsection \<open>Builders\<close>

fun mode_byte :: "RetransmissionAndFlowControlModeOption \<Rightarrow> u8" where
  "mode_byte L2CAP_BASIC = 0"
| "mode_byte RETRANSMISSION = 1"
| "mode_byte FLOW_CONTROL = 2"
| "mode_byte ENHANCED_RETRANSMISSION = 3"
| "mode_byte STREAMING = 4"
| "mode_byte (OTHER_MODE m) = m"

fun fcs_byte :: "FcsType \<Rightarrow> u8" where
  "fcs_byte NO_FCS = 0"
| "fcs_byte FCS_DEFAULT = 1"
| "fcs_byte (FCS_OTHER b) = b"

definition option_header :: "bool \<Rightarrow> u8 \<Rightarrow> bytes \<Rightarrow> bytes" where
  "option_header hint type body = [type OR (if hint then 0x80 else 0), word_of_nat (length body)] @ body"

fun encode_option :: "ConfigurationOption \<Rightarrow> bytes" where
  "encode_option (MtuConfigurationOption hint mtu) = option_header hint 1 (le16 mtu)"
| "encode_option (FlushTimeoutConfigurationOption hint t) = option_header hint 2 (le16 t)"
| "encode_option (RetransmissionOption hint rfc) = option_header hint 4
     ([mode_byte (rfc_mode rfc), tx_window_size rfc, max_transmit rfc] @ le16 (retransmission_time_out rfc) @
      le16 (monitor_time_out rfc) @ le16 (maximum_pdu_size rfc))"
| "encode_option (FrameCheckSequenceOption hint t) = option_header hint 5 [fcs_byte t]"
| "encode_option (OtherConfigurationOption hint type body) = option_header hint type body"

fun command_code :: "control \<Rightarrow> u8" where
  "command_code (CommandReject _ _ _) = 1"
| "command_code (ConnectionRequest _ _ _) = 2"
| "command_code (ConnectionResponse _ _ _ _ _) = 3"
| "command_code (ConfigurationRequest _ _ _ _) = 4"
| "command_code (ConfigurationResponse _ _ _ _ _) = 5"
| "command_code (DisconnectionRequest _ _ _) = 6"
| "command_code (DisconnectionResponse _ _ _) = 7"
| "command_code (EchoRequest _ _) = 8"
| "command_code (EchoResponse _ _) = 9"
| "command_code (InformationRequest _ _) = 10"
| "command_code (InformationResponse _ _ _ _) = 11"
| "command_code (OtherCommand code _ _) = code"

fun command_id :: "control \<Rightarrow> u8" where
  "command_id (CommandReject i _ _) = i"
| "command_id (ConnectionRequest i _ _) = i"
| "command_id (ConnectionResponse i _ _ _ _) = i"
| "command_id (ConfigurationRequest i _ _ _) = i"
| "command_id (ConfigurationResponse i _ _ _ _) = i"
| "command_id (DisconnectionRequest i _ _) = i"
| "command_id (DisconnectionResponse i _ _) = i"
| "command_id (EchoRequest i _) = i"
| "command_id (EchoResponse i _) = i"
| "command_id (InformationRequest i _) = i"
| "command_id (InformationResponse i _ _ _) = i"
| "command_id (OtherCommand _ i _) = i"

definition continuation_bytes :: "Continuation \<Rightarrow> bytes" where
  "continuation_bytes c = [if c = CONTINUE then 1 else 0, 0]"

fun control_payload :: "control \<Rightarrow> bytes" where
  "control_payload (CommandReject _ reason body) = le16 reason @ body"
| "control_payload (ConnectionRequest _ psm source_cid) = le16 psm @ le16 source_cid"
| "control_payload (ConnectionResponse _ destination_cid source_cid result status) =
     le16 destination_cid @ le16 source_cid @ le16 result @ le16 status"
| "control_payload (ConfigurationRequest _ destination_cid c config) =
     le16 destination_cid @ continuation_bytes c @ concat (map encode_option config)"
| "control_payload (ConfigurationResponse _ source_cid c result config) =
     le16 source_cid @ continuation_bytes c @ le16 result @ concat (map encode_option config)"
| "control_payload (DisconnectionRequest _ destination_cid source_cid) = le16 destination_cid @ le16 source_cid"
| "control_payload (DisconnectionResponse _ destination_cid source_cid) = le16 destination_cid @ le16 source_cid"
| "control_payload (EchoRequest _ payload) = payload"
| "control_payload (EchoResponse _ payload) = payload"
| "control_payload (InformationRequest _ info_type) = le16 info_type"
| "control_payload (InformationResponse _ info_type result body) = le16 info_type @ le16 result @ body"
| "control_payload (OtherCommand _ _ payload) = payload"

definition encode_control :: "control \<Rightarrow> bytes" where
  "encode_control c =
     [command_code c, command_id c] @ le16 (size_u16 (length (control_payload c))) @ control_payload c"

subsection \<open>Views\<close>

text \<open>ControlView: the size of the payload, if the view is valid.\<close>

definition ControlView :: "bytes \<Rightarrow> nat option" where
  "ControlView bs =
    (if length bs < 4 then None
     else let size = unat (of_le16 (bs ! 2) (bs ! 3)) in
       if length bs < 4 + size then None else Some size)"

text \<open>The loop of GetCommandsFromPacketView: the sub-view of each command runs to the end of the packet.\<close>

function get_commands :: "bytes \<Rightarrow> bytes list option" where
  "get_commands bs =
    (if bs = [] then Some []
     else case ControlView bs of None \<Rightarrow> None
       | Some n \<Rightarrow> map_option (Cons bs) (get_commands (drop (4 + n) bs)))"
  by pat_completeness auto
termination
  by (relation "measure length") (auto simp: ControlView_def)

declare get_commands.simps [simp del]

definition GetCommandsFromPacketView :: "packet_view \<Rightarrow> bytes list" where
  "GetCommandsFromPacketView packet = (case get_commands (bytes_of packet) of None \<Rightarrow> [] | Some cs \<Rightarrow> cs)"

definition word_at :: "bytes \<Rightarrow> nat \<Rightarrow> u16" where
  "word_at bs k = of_le16 (bs ! k) (bs ! Suc k)"

text \<open>
  The view of one command; \<open>None\<close> when the view of its kind is not valid.
\<close>

definition command_view :: "(bytes \<Rightarrow> ConfigurationOption list) \<Rightarrow> bytes \<Rightarrow> control option" where
  "command_view get_config bs =
    (let n = length bs; code = bs ! 0; i = bs ! 1;
         c = (if bit (bs ! 6) 0 then CONTINUE else CONTINUATION_END)
     in if code = 1 then if n < 6 then None else Some (CommandReject i (word_at bs 4) (drop 6 bs))
        else if code = 2 then if n < 8 then None else Some (ConnectionRequest i (word_at bs 4) (word_at bs 6))
        else if code = 3 then if n < 12 then None
          else Some (ConnectionResponse i (word_at bs 4) (word_at bs 6) (word_at bs 8) (word_at bs 10))
        else if code = 4 then if n < 8 then None
          else Some (ConfigurationRequest i (word_at bs 4) c (get_config (drop 8 bs)))
        else if code = 5 then if n < 10 then None
          else Some (ConfigurationResponse i (word_at bs 4) c (word_at bs 8) (get_config (drop 10 bs)))
        else if code = 6 then if n < 8 then None else Some (DisconnectionRequest i (word_at bs 4) (word_at bs 6))
        else if code = 7 then if n < 8 then None else Some (DisconnectionResponse i (word_at bs 4) (word_at bs 6))
        else if code = 8 then Some (EchoRequest i (drop 4 bs))
        else if code = 9 then Some (EchoResponse i (drop 4 bs))
        else if code = 10 then if n < 6 then None else Some (InformationRequest i (word_at bs 4))
        else if code = 11 then if n < 8 then None
          else Some (InformationResponse i (word_at bs 4) (word_at bs 6) (drop 8 bs))
        else Some (OtherCommand code i (drop 4 bs)))"

subsection \<open>Round trips\<close>

lemma length_encode_control [simp]: "length (encode_control c) = 4 + length (control_payload c)"
  by (simp add: encode_control_def)

lemma word_at_le16: "length pre = k \<Longrightarrow> word_at (pre @ le16 w @ post) k = w"
proof -
  assume "length pre = k"
  then have "(pre @ le16 w @ post) ! k = ucast w" "(pre @ le16 w @ post) ! Suc k = ucast (drop_bit 8 w)"
    by (simp_all add: le16_def nth_append)
  then show ?thesis by (simp add: word_at_def of_le16_le16)
qed

lemma word_at_append: "Suc k < length xs \<Longrightarrow> word_at (xs @ ys) k = word_at xs k"
  by (simp add: word_at_def nth_append)

text \<open>Commands that fit the size field, and commands whose fields do not run to the end of the packet.\<close>

fun wf_control :: "control \<Rightarrow> bool" where
  "wf_control (OtherCommand code i payload) \<longleftrightarrow> (\<forall>k\<in>{1..11}. code \<noteq> k) \<and> length payload < 65536"
| "wf_control c \<longleftrightarrow> length (control_payload c) < 65536"

fun fixed_size :: "control \<Rightarrow> bool" where
  "fixed_size (ConnectionRequest _ _ _) = True"
| "fixed_size (ConnectionResponse _ _ _ _ _) = True"
| "fixed_size (DisconnectionRequest _ _ _) = True"
| "fixed_size (DisconnectionResponse _ _ _) = True"
| "fixed_size (InformationRequest _ _) = True"
| "fixed_size _ = False"

lemma wf_control_size: "wf_control c \<Longrightarrow> length (control_payload c) < 65536"
  by (cases c) auto

lemma ControlView_encode: "wf_control c \<Longrightarrow> ControlView (encode_control c @ rest) = Some (length (control_payload c))"
proof -
  assume "wf_control c"
  then have "unat (size_u16 (length (control_payload c))) = length (control_payload c)"
    by (intro unat_size_u16 wf_control_size)
  moreover have "of_le16 ((encode_control c @ rest) ! 2) ((encode_control c @ rest) ! 3) = size_u16 (length (control_payload c))"
    by (simp add: encode_control_def le16_def of_le16_le16 numeral_2_eq_2 numeral_3_eq_3)
  ultimately show ?thesis by (simp add: ControlView_def)
qed

lemma get_commands_encode:
  "wf_control c \<Longrightarrow> get_commands (encode_control c @ rest) = map_option (Cons (encode_control c @ rest)) (get_commands rest)"
proof -
  assume "wf_control c"
  moreover have "encode_control c \<noteq> []" by (simp add: encode_control_def)
  ultimately show ?thesis by (subst get_commands.simps) (simp add: ControlView_encode)
qed

definition header :: "control \<Rightarrow> bytes" where
  "header c = [command_code c, command_id c] @ le16 (size_u16 (length (control_payload c)))"

lemma encode_control_split: "encode_control c @ rest = header c @ control_payload c @ rest"
  by (simp add: encode_control_def header_def)

lemma length_header [simp]: "length (header c) = 4"
  by (simp add: header_def)

lemma header_nth [simp]: "(header c @ xs) ! 0 = command_code c" "(header c @ xs) ! Suc 0 = command_id c"
  by (simp_all add: header_def)

lemma word_at_header:
  "word_at (header c @ le16 a @ xs) 4 = a" "word_at (header c @ le16 a @ le16 b @ xs) 6 = b"
  "word_at (header c @ le16 a @ le16 b @ le16 d @ xs) 8 = d"
  "word_at (header c @ le16 a @ le16 b @ le16 d @ le16 e @ xs) 10 = e"
  using word_at_le16 [of "header c" 4 a xs] word_at_le16 [of "header c @ le16 a" 6 b xs]
    word_at_le16 [of "header c @ le16 a @ le16 b" 8 d xs] word_at_le16 [of "header c @ le16 a @ le16 b @ le16 d" 10 e xs]
  by simp_all

lemma command_view_fixed:
  "fixed_size c \<Longrightarrow> command_view get_config (encode_control c @ rest) = Some c"
  unfolding encode_control_split
  by (cases c) (simp_all add: command_view_def Let_def word_at_header)

lemma continuation_facts:
  "(header c @ le16 a @ continuation_bytes k @ xs) ! 6 = (if k = CONTINUE then 1 else 0)"
  "word_at (header c @ le16 a @ continuation_bytes k @ le16 r @ xs) 8 = r"
  using word_at_le16 [of "header c @ le16 a @ continuation_bytes k" 8 r xs]
  by (simp_all add: continuation_bytes_def nth_append)

text \<open>What the parser of the options has to do for a command.\<close>

fun options_parsed :: "(bytes \<Rightarrow> ConfigurationOption list) \<Rightarrow> control \<Rightarrow> bool" where
  "options_parsed get_config (ConfigurationRequest _ _ _ config) \<longleftrightarrow> get_config (concat (map encode_option config)) = config"
| "options_parsed get_config (ConfigurationResponse _ _ _ _ config) \<longleftrightarrow> get_config (concat (map encode_option config)) = config"
| "options_parsed get_config c = True"

lemma command_view_single:
  assumes "wf_control c" "options_parsed get_config c"
  shows "command_view get_config (encode_control c) = Some c"
proof -
  have e: "encode_control c = header c @ control_payload c" using encode_control_split [of c "[]"] by simp
  have ce: "k = CONTINUE \<or> k = CONTINUATION_END" for k by (cases k) auto
  show ?thesis
  proof (cases "fixed_size c")
    case True
    from command_view_fixed [OF this, of get_config "[]"] show ?thesis by simp
  next
    case False
    then show ?thesis
    proof (cases c)
      case (ConfigurationRequest i d k config)
      then show ?thesis
        using assms(2) ce [of k] unfolding e
        by (auto simp: command_view_def Let_def word_at_header continuation_facts) (simp_all add: continuation_bytes_def)
    next
      case (ConfigurationResponse i d k r config)
      then show ?thesis
        using assms(2) ce [of k] unfolding e
        by (auto simp: command_view_def Let_def word_at_header continuation_facts) (simp_all add: continuation_bytes_def)
    next
      case (OtherCommand code i payload)
      then have "code \<notin> {1, 2, 3, 4, 5, 6, 7, 8, 9, 10, 11}" using assms(1) by auto
      with OtherCommand show ?thesis unfolding e by (simp add: command_view_def Let_def)
    qed (use e in \<open>auto simp: command_view_def Let_def word_at_header\<close>)
  qed
qed



text \<open>C24: several commands of fixed size in one packet are all found, in order.\<close>

theorem command_list_roundtrip:
  assumes "\<forall>c\<in>set cs. wf_control c \<and> fixed_size c"
  shows "map (command_view get_config) (GetCommandsFromPacketView (PacketView (concat (map encode_control cs)))) = map Some cs"
proof -
  have "\<exists>xs. get_commands (concat (map encode_control cs)) = Some xs \<and> map (command_view get_config) xs = map Some cs"
    using assms
  proof (induction cs)
    case Nil
    then show ?case by (subst get_commands.simps) simp
  next
    case (Cons c cs)
    then show ?case by (auto simp: get_commands_encode command_view_fixed)
  qed
  then show ?thesis by (auto simp: GetCommandsFromPacketView_def)
qed

theorem command_list_roundtrip_witness:
  "map (command_view (\<lambda>_. [])) (GetCommandsFromPacketView (PacketView (concat (map encode_control
     [DisconnectionRequest 1 64 65, InformationRequest 2 2])))) = [Some (DisconnectionRequest 1 64 65), Some (InformationRequest 2 2)]"
  using command_list_roundtrip [of "[DisconnectionRequest 1 64 65, InformationRequest 2 2]" "\<lambda>_. []"] by simp

text \<open>The view of a command runs to the end of the packet.  An echo request that is followed by another
  command in the same packet is read with that command as part of its payload.\<close>

theorem echo_swallows_next_command:
  "map (command_view get_config) (GetCommandsFromPacketView (PacketView (concat (map encode_control
     [EchoRequest 1 [7], DisconnectionRequest 2 64 65])))) =
   [Some (EchoRequest 1 (7 # encode_control (DisconnectionRequest 2 64 65))), Some (DisconnectionRequest 2 64 65)]"
proof -
  let ?d = "DisconnectionRequest 2 64 65"
  have n: "get_commands [] = Some []" by (subst get_commands.simps) simp
  have "get_commands (encode_control ?d) = Some [encode_control ?d]"
    using get_commands_encode [of ?d "[]"] n by simp
  then have "get_commands (encode_control (EchoRequest 1 [7]) @ encode_control ?d) =
      Some [encode_control (EchoRequest 1 [7]) @ encode_control ?d, encode_control ?d]"
    by (simp add: get_commands_encode)
  moreover have "command_view get_config (encode_control ?d) = Some ?d" by (rule command_view_single) simp_all
  moreover have "command_view get_config (encode_control (EchoRequest 1 [7]) @ encode_control ?d) =
      Some (EchoRequest 1 (7 # encode_control ?d))"
    unfolding encode_control_split by (simp add: command_view_def Let_def)
  ultimately show ?thesis by (simp add: GetCommandsFromPacketView_def)
qed

end
