(* ===== verification/Classic_Link.thy ===== *)
theory Classic_Link
  imports Pipeline Channels Control_Packets "HOL-Library.AList"
begin

text \<open>
  One classic ACL link (system/gd/l2cap/classic/internal/link.cc) and its signalling manager
  (signalling\_manager.cc).  The two objects call each other, so one state holds both: the record
  \<open>classic_signalling\<close> has the members of ClassicSignallingManager, and \<open>classic_link\<close> extends it by
  those of Link, with the allocators, the data pipeline and the service managers of the other theories.

  What leaves the two objects is recorded in order: the commands in the buffer in front of the
  signalling channel, and in \<open>link_log\<close> the callbacks of users and services, the requests to the
  security module, the calls on the ACL connection and the calls on the link manager.  The security
  module answers later: \<open>on_security_result_for_outgoing\<close> and \<open>on_security_result_for_incoming\<close> are
  entry points of their own.

  A handler that returns \<open>None\<close> has aborted: a failing ASSERT, a null pointer or an empty callback.
\<close>

subsection \<open>State\<close>

datatype CommandCode =
  CONNECTION_REQUEST | CONFIGURATION_REQUEST | DISCONNECTION_REQUEST | ECHO_REQUEST | INFORMATION_REQUEST | NO_COMMAND

record PendingCommand =
  signal_id :: SignalId
  pending_code :: CommandCode
  pending_psm :: Psm
  source_cid :: Cid
  destination_cid :: Cid
  info_type :: u16
  pending_config :: "ConfigurationOption list"

datatype SecurityEnforcementType = LINK_KEY | ENCRYPTION

datatype ConnectionResultCode =
    RESULT_SUCCESS | FAIL_NO_SERVICE_REGISTERED | FAIL_HCI_ERROR | FAIL_L2CAP_ERROR
  | FAIL_REMOTE_NOT_SUPPORT | FAIL_SECURITY_BLOCK

record ConnectionResult =
  connection_result_code :: ConnectionResultCode
  hci_error :: ErrorCode
  l2cap_connection_response_result :: u16

text \<open>
  The two callbacks of a pending connection belong to one user, a number; \<open>None\<close> after they have been
  moved out of the structure.
\<close>

record PendingDynamicChannelConnection =
  conn_callbacks :: "nat option"
  conn_configuration :: DynamicChannelConfigurationOption

datatype manager_call =
    ManagerOnAuthenticationComplete ErrorCode
  | ManagerOnEncryptionChange u8
  | ManagerOnReadClockOffset u16
  | ManagerOnModeChange ErrorCode u8 u16
  | ManagerOnSniffSubrating ErrorCode u16 u16 u16 u16
  | ManagerOnRoleChange ErrorCode u8
  | ManagerOnDisconnect ErrorCode
  | ManagerOnReadRemoteVersionInformation ErrorCode u8 u16 u16
  | ManagerOnReadRemoteSupportedFeatures "64 word"
  | ManagerOnReadRemoteExtendedFeatures u8 u8 "64 word"
  | ManagerOnPendingPacketChange int

datatype link_event =
    OpenCallback nat Cid
  | FailCallback nat ConnectionResult
  | ServiceOpen Psm Cid
  | EnforceOutgoing SecurityPolicy Psm Cid
  | EnforceIncoming SecurityPolicy Psm Cid SignalId
  | AclDisconnect u8
  | SetConnectionEncryption
  | AuthenticationRequested
  | AclReadRemoteVersionInformation
  | AclReadRemoteSupportedFeatures
  | AclReadRemoteExtendedFeatures u8
  | AclReadClockOffset
  | Manager manager_call

record classic_signalling =
  sig_buffer :: "control enqueue_buffer option"
  pending_commands :: "PendingCommand list"
  command_just_sent :: PendingCommand
  sig_alarm :: alarm
  next_signal_id :: SignalId
  channel_configuration :: "Cid \<Rightarrow> ChannelConfigurationState option"

record classic_link = classic_signalling +
  fixed_channels :: fix_alloc
  dynamic_channels :: dyn_alloc
  data_pipeline :: pipeline
  services :: dynamic_services
  fixed_service_map :: fixed_services
  pending_connections :: "(Cid \<times> PendingDynamicChannelConnection) list"
  idle_alarm :: alarm
  remote_connectionless_mtu :: Mtu
  link_role :: u8
  remote_extended_feature_received :: bool
  remote_supports_ertm :: bool
  remote_supports_fcs :: bool
  encryption_enabled :: u8
  pending_dynamic_psm_list :: "Psm list"
  pending_dynamic_channel_callback_list :: "PendingDynamicChannelConnection list"
  pending_outgoing_configuration_request_list :: "Cid list"
  used_by_security_module :: bool
  has_requested_authentication :: bool
  encryption_change_listener :: "(Cid \<times> Psm) list"
  remaining_packets_to_be_sent :: int
  link_log :: "link_event list"

definition log_event :: "link_event \<Rightarrow> classic_link \<Rightarrow> classic_link" where
  "log_event e s = s\<lparr>link_log := link_log s @ [e]\<rparr>"

definition kTimeout :: nat where
  "kTimeout = 3000"

definition GetClassicLinkIdleDisconnectTimeout :: nat where
  "GetClassicLinkIdleDisconnectTimeout = 20000"

text \<open>hci::EncryptionEnabled::OFF and hci::DisconnectReason::REMOTE\_USER\_TERMINATED\_CONNECTION.\<close>

abbreviation ENCRYPTION_OFF :: u8 where "ENCRYPTION_OFF \<equiv> 0"
abbreviation REMOTE_USER_TERMINATED_CONNECTION :: u8 where "REMOTE_USER_TERMINATED_CONNECTION \<equiv> 0x13"

text \<open>What \<open>channel_configuration_[cid]\<close> inserts when there is no entry.\<close>

definition default_rfc :: RetransmissionAndFlowControlConfigurationOption where
  "default_rfc = \<lparr>rfc_mode = L2CAP_BASIC, tx_window_size = 0, max_transmit = 0, retransmission_time_out = 0,
     monitor_time_out = 0, maximum_pdu_size = 0\<rparr>"

definition default_configuration :: ChannelConfigurationState where
  "default_configuration = \<lparr>config_state = WAIT_CONFIG_REQ_RSP, retransmission_and_flow_control_mode = L2CAP_BASIC,
     local_retransmission_and_flow_control = default_rfc, remote_retransmission_and_flow_control = default_rfc,
     fcs_type = FCS_DEFAULT\<rparr>"

definition configuration_of :: "Cid \<Rightarrow> classic_link \<Rightarrow> ChannelConfigurationState" where
  "configuration_of cid s =
     (case channel_configuration s cid of None \<Rightarrow> default_configuration | Some conf \<Rightarrow> conf)"

definition set_configuration :: "Cid \<Rightarrow> ChannelConfigurationState \<Rightarrow> classic_link \<Rightarrow> classic_link" where
  "set_configuration cid conf s = s\<lparr>channel_configuration := (channel_configuration s)(cid \<mapsto> conf)\<rparr>"

definition erase_configuration :: "Cid \<Rightarrow> classic_link \<Rightarrow> classic_link" where
  "erase_configuration cid s = s\<lparr>channel_configuration := (channel_configuration s)(cid := None)\<rparr>"

subsection \<open>Sending commands\<close>

definition sig_Enqueue :: "control \<Rightarrow> classic_link \<Rightarrow> classic_link option" where
  "sig_Enqueue c s =
     (case sig_buffer s of None \<Rightarrow> None | Some b \<Rightarrow> Some (s\<lparr>sig_buffer := Some (eb_Enqueue c b)\<rparr>))"

definition send_request :: "control \<Rightarrow> classic_link \<Rightarrow> classic_link option" where
  "send_request c s = do {
     s \<leftarrow> sig_Enqueue c s;
     Some (s\<lparr>sig_alarm := Alarm_Schedule kTimeout (sig_alarm s)\<rparr>) }"

definition handle_send_next_command :: "classic_link \<Rightarrow> classic_link option" where
  "handle_send_next_command s =
    (let s = s\<lparr>command_just_sent := (command_just_sent s)\<lparr>signal_id := kInvalidSignalId\<rparr>\<rparr> in
     case pending_commands s of [] \<Rightarrow> Some s
     | c # cs \<Rightarrow>
       let s = s\<lparr>command_just_sent := c\<lparr>pending_config := []\<rparr>, pending_commands := cs\<rparr>; i = sig_value (signal_id c) in
       (case pending_code c of
          CONNECTION_REQUEST \<Rightarrow> send_request (ConnectionRequest i (pending_psm c) (source_cid c)) s
        | CONFIGURATION_REQUEST \<Rightarrow>
            send_request (ConfigurationRequest i (destination_cid c) CONTINUATION_END (pending_config c)) s
        | DISCONNECTION_REQUEST \<Rightarrow> send_request (DisconnectionRequest i (destination_cid c) (source_cid c)) s
        | INFORMATION_REQUEST \<Rightarrow> send_request (InformationRequest i (info_type c)) s
        | _ \<Rightarrow> Some s))"

text \<open>What the four operations that create a command share: a fresh identifier, and sending it when nothing is pending.\<close>

definition push_command :: "(SignalId \<Rightarrow> PendingCommand) \<Rightarrow> classic_link \<Rightarrow> classic_link option" where
  "push_command command s =
    (let s = s\<lparr>pending_commands := pending_commands s @ [command (next_signal_id s)],
               next_signal_id := sig_inc (next_signal_id s)\<rparr>
     in if signal_id (command_just_sent s) = kInvalidSignalId then handle_send_next_command s else Some s)"

definition send_configuration_request :: "Cid \<Rightarrow> ConfigurationOption list \<Rightarrow> classic_link \<Rightarrow> classic_link option" where
  "send_configuration_request remote_cid config =
     push_command (\<lambda>i. \<lparr>signal_id = i, pending_code = CONFIGURATION_REQUEST, pending_psm = 0, source_cid = 0,
       destination_cid = remote_cid, info_type = 0, pending_config = config\<rparr>)"

definition sm_SendDisconnectionRequest :: "Cid \<Rightarrow> Cid \<Rightarrow> classic_link \<Rightarrow> classic_link option" where
  "sm_SendDisconnectionRequest local_cid remote_cid =
     push_command (\<lambda>i. \<lparr>signal_id = i, pending_code = DISCONNECTION_REQUEST, pending_psm = 0, source_cid = local_cid,
       destination_cid = remote_cid, info_type = 0, pending_config = []\<rparr>)"

definition sm_SendInformationRequest :: "u16 \<Rightarrow> classic_link \<Rightarrow> classic_link option" where
  "sm_SendInformationRequest type =
     push_command (\<lambda>i. \<lparr>signal_id = i, pending_code = INFORMATION_REQUEST, pending_psm = 0, source_cid = 0,
       destination_cid = 0, info_type = type, pending_config = []\<rparr>)"

definition SendEchoRequest :: "bytes \<Rightarrow> classic_link \<Rightarrow> classic_link option" where
  "SendEchoRequest payload s = Some s"

definition CancelAlarm :: "classic_link \<Rightarrow> classic_link" where
  "CancelAlarm s = s\<lparr>sig_alarm := Alarm_Cancel (sig_alarm s)\<rparr>"

definition sm_SendConnectionRequest :: "Psm \<Rightarrow> Cid \<Rightarrow> classic_link \<Rightarrow> classic_link option" where
  "sm_SendConnectionRequest psm local_cid s = do {
     service \<leftarrow> dsm_GetService psm (services s);
     Some (log_event (EnforceOutgoing (security_policy service) psm local_cid) s) }"

definition send_connection_response :: "SignalId \<Rightarrow> Cid \<Rightarrow> Cid \<Rightarrow> u16 \<Rightarrow> u16 \<Rightarrow> classic_link \<Rightarrow> classic_link option" where
  "send_connection_response i remote_cid local_cid result status =
     sig_Enqueue (ConnectionResponse (sig_value i) local_cid remote_cid result status)"

subsection \<open>The link: references, pending connections, channels\<close>

definition RefreshRefCount :: "classic_link \<Rightarrow> classic_link" where
  "RefreshRefCount s =
    (let ref_count = GetRefCount (fixed_channels s) + NumberOfChannels (dynamic_channels s) +
                     (if used_by_security_module s then 1 else 0)
     in if 0 < ref_count then s\<lparr>idle_alarm := Alarm_Cancel (idle_alarm s)\<rparr>
        else s\<lparr>idle_alarm := Alarm_Schedule GetClassicLinkIdleDisconnectTimeout (idle_alarm s)\<rparr>)"

definition AcquireSecurityHold :: "classic_link \<Rightarrow> classic_link" where
  "AcquireSecurityHold s = RefreshRefCount (s\<lparr>used_by_security_module := True\<rparr>)"

definition ReleaseSecurityHold :: "classic_link \<Rightarrow> classic_link" where
  "ReleaseSecurityHold s = RefreshRefCount (s\<lparr>used_by_security_module := False\<rparr>)"

definition link_Disconnect :: "classic_link \<Rightarrow> classic_link" where
  "link_Disconnect s = log_event (AclDisconnect REMOTE_USER_TERMINATED_CONNECTION) s"

definition link_ReadRemoteVersionInformation :: "classic_link \<Rightarrow> classic_link" where
  "link_ReadRemoteVersionInformation s = log_event AclReadRemoteVersionInformation s"

definition link_ReadRemoteSupportedFeatures :: "classic_link \<Rightarrow> classic_link" where
  "link_ReadRemoteSupportedFeatures s = log_event AclReadRemoteSupportedFeatures s"

definition link_ReadRemoteExtendedFeatures :: "u8 \<Rightarrow> classic_link \<Rightarrow> classic_link" where
  "link_ReadRemoteExtendedFeatures page_number s = log_event (AclReadRemoteExtendedFeatures page_number) s"

definition link_ReadClockOffset :: "classic_link \<Rightarrow> classic_link" where
  "link_ReadClockOffset s = log_event AclReadClockOffset s"

definition IsAuthenticated :: "classic_link \<Rightarrow> bool" where
  "IsAuthenticated s \<longleftrightarrow> encryption_enabled s \<noteq> ENCRYPTION_OFF"

definition Encrypt :: "classic_link \<Rightarrow> classic_link" where
  "Encrypt s = (if encryption_enabled s = ENCRYPTION_OFF then log_event SetConnectionEncryption s else s)"

definition Authenticate :: "classic_link \<Rightarrow> classic_link" where
  "Authenticate s =
     (if \<not> IsAuthenticated s \<and> \<not> has_requested_authentication s
      then log_event AuthenticationRequested (s\<lparr>has_requested_authentication := True\<rparr>) else s)"

definition AllocateFixedChannel :: "Cid \<Rightarrow> classic_link \<Rightarrow> classic_link option" where
  "AllocateFixedChannel cid s = do {
     fixed \<leftarrow> fix_AllocateChannel cid (fixed_channels s);
     p \<leftarrow> AttachChannel cid cid BASIC (data_pipeline s);
     Some (s\<lparr>fixed_channels := fixed, data_pipeline := p\<rparr>) }"

definition IsFixedChannelAllocated :: "Cid \<Rightarrow> classic_link \<Rightarrow> bool" where
  "IsFixedChannelAllocated cid s = IsChannelAllocated cid (fixed_channels s)"

definition ReserveDynamicChannel :: "classic_link \<Rightarrow> (Cid \<times> classic_link) option" where
  "ReserveDynamicChannel s = do {
     (cid, a) \<leftarrow> ReserveChannel (dynamic_channels s);
     Some (cid, s\<lparr>dynamic_channels := a\<rparr>) }"

definition free_dynamic :: "Cid \<Rightarrow> classic_link \<Rightarrow> classic_link" where
  "free_dynamic cid s = s\<lparr>dynamic_channels := FreeChannel cid (dynamic_channels s)\<rparr>"

definition invoke_fail :: "PendingDynamicChannelConnection \<Rightarrow> ConnectionResult \<Rightarrow> classic_link \<Rightarrow> classic_link option" where
  "invoke_fail conn result s =
     (case conn_callbacks conn of None \<Rightarrow> None | Some u \<Rightarrow> Some (log_event (FailCallback u result) s))"

definition erase_pending :: "Cid \<Rightarrow> classic_link \<Rightarrow> classic_link" where
  "erase_pending cid s = s\<lparr>pending_connections := filter (\<lambda>(c, _). c \<noteq> cid) (pending_connections s)\<rparr>"

definition NotifyChannelCreation :: "Cid \<Rightarrow> classic_link \<Rightarrow> classic_link option" where
  "NotifyChannelCreation cid s = do {
     conn \<leftarrow> map_of (pending_connections s) cid;
     s \<leftarrow> (case conn_callbacks conn of None \<Rightarrow> None | Some u \<Rightarrow> Some (log_event (OpenCallback u cid) s));
     Some (erase_pending cid s) }"

definition NotifyChannelFail :: "Cid \<Rightarrow> ConnectionResult \<Rightarrow> classic_link \<Rightarrow> classic_link option" where
  "NotifyChannelFail cid result s = do {
     conn \<leftarrow> map_of (pending_connections s) cid;
     s \<leftarrow> invoke_fail conn result s;
     Some (erase_pending cid s) }"

definition OnOutgoingConnectionRequestFail :: "Cid \<Rightarrow> ConnectionResult \<Rightarrow> classic_link \<Rightarrow> classic_link option" where
  "OnOutgoingConnectionRequestFail local_cid result s = do {
     s \<leftarrow> (if map_of (pending_connections s) local_cid \<noteq> None then NotifyChannelFail local_cid result s else Some s);
     Some (free_dynamic local_cid s) }"

definition GetConfigurationForInitialConfiguration :: "Cid \<Rightarrow> classic_link \<Rightarrow> DynamicChannelConfigurationOption option" where
  "GetConfigurationForInitialConfiguration cid s = map_option conn_configuration (map_of (pending_connections s) cid)"

text \<open>Both return the identifier of the new channel; \<open>AllocateReservedDynamicChannel\<close> dereferences it unchecked.\<close>

definition AllocateDynamicChannel :: "Psm \<Rightarrow> Cid \<Rightarrow> classic_link \<Rightarrow> (Cid option \<times> classic_link) option" where
  "AllocateDynamicChannel psm remote_cid s = do {
     (channel, a) \<leftarrow> AllocateChannel psm remote_cid (dynamic_channels s);
     (case channel of None \<Rightarrow> Some (None, s\<lparr>dynamic_channels := a\<rparr>)
      | Some cid \<Rightarrow> do {
          let s = RefreshRefCount (s\<lparr>dynamic_channels := a\<rparr>);
          a \<leftarrow> update_channel cid (\<lambda>ch. Some (ch\<lparr>local_initiated := False\<rparr>)) (dynamic_channels s);
          Some (Some cid, s\<lparr>dynamic_channels := a\<rparr>) }) }"

definition AllocateReservedDynamicChannel :: "Cid \<Rightarrow> Psm \<Rightarrow> Cid \<Rightarrow> classic_link \<Rightarrow> (Cid option \<times> classic_link) option" where
  "AllocateReservedDynamicChannel reserved_cid psm remote_cid s = do {
     (channel, a) \<leftarrow> AllocateReservedChannel reserved_cid psm remote_cid (dynamic_channels s);
     let s = s\<lparr>dynamic_channels := a\<rparr>;
     let s = (if channel \<noteq> None then RefreshRefCount s else s);
     cid \<leftarrow> channel;
     a \<leftarrow> update_channel cid (\<lambda>ch. Some (ch\<lparr>local_initiated := True\<rparr>)) (dynamic_channels s);
     Some (Some cid, s\<lparr>dynamic_channels := a\<rparr>) }"

definition FreeDynamicChannel :: "Cid \<Rightarrow> classic_link \<Rightarrow> classic_link" where
  "FreeDynamicChannel cid s =
     (if FindChannelByCid cid (dynamic_channels s) = None then s else RefreshRefCount (free_dynamic cid s))"

subsection \<open>Outgoing connections\<close>

definition connection_result :: "ConnectionResultCode \<Rightarrow> u16 \<Rightarrow> ConnectionResult" where
  "connection_result code response =
     \<lparr>connection_result_code = code, hci_error = 0, l2cap_connection_response_result = response\<rparr>"

definition on_security_result_for_outgoing ::
    "SecurityEnforcementType \<Rightarrow> Psm \<Rightarrow> Cid \<Rightarrow> bool \<Rightarrow> classic_link \<Rightarrow> classic_link option" where
  "on_security_result_for_outgoing type psm local_cid result s =
     (if sig_buffer s = None then Some s
      else if \<not> result then
        OnOutgoingConnectionRequestFail local_cid (connection_result FAIL_SECURITY_BLOCK NO_RESOURCES_AVAILABLE) s
      else do {
        s \<leftarrow> (if type = LINK_KEY \<and> \<not> IsAuthenticated s then do {
                service \<leftarrow> dsm_GetService psm (services s);
                Some (if security_policy service \<noteq> SDP_ONLY_NO_SECURITY then Encrypt s else s) }
              else Some s);
        push_command (\<lambda>i. \<lparr>signal_id = i, pending_code = CONNECTION_REQUEST, pending_psm = psm,
          source_cid = local_cid, destination_cid = 0, info_type = 0, pending_config = []\<rparr>) s })"

definition link_SendConnectionRequest ::
    "Psm \<Rightarrow> Cid \<Rightarrow> PendingDynamicChannelConnection \<Rightarrow> classic_link \<Rightarrow> classic_link option" where
  "link_SendConnectionRequest psm local_cid conn s =
     (if channel_mode (conn_configuration conn) = MODE_ERTM \<and> \<not> remote_extended_feature_received s then
        Some (free_dynamic local_cid
          (s\<lparr>pending_dynamic_psm_list := pending_dynamic_psm_list s @ [psm],
             pending_dynamic_channel_callback_list := pending_dynamic_channel_callback_list s @ [conn]\<rparr>))
      else if channel_mode (conn_configuration conn) = MODE_ERTM \<and> \<not> remote_supports_ertm s then do {
        s \<leftarrow> invoke_fail conn (connection_result FAIL_REMOTE_NOT_SUPPORT CONNECTION_SUCCESS) s;
        Some (free_dynamic local_cid s) }
      else
        sm_SendConnectionRequest psm local_cid
          (s\<lparr>pending_connections := AList.update local_cid conn (pending_connections s)\<rparr>))"

definition SetPendingDynamicChannels ::
    "Psm list \<Rightarrow> PendingDynamicChannelConnection list \<Rightarrow> classic_link \<Rightarrow> classic_link option" where
  "SetPendingDynamicChannels psm_list callback_list s = do {
     ASSERT (length psm_list = length callback_list);
     Some (s\<lparr>pending_dynamic_psm_list := psm_list, pending_dynamic_channel_callback_list := callback_list\<rparr>) }"

text \<open>The loop over the two lists; \<open>i\<close> is the position of both iterators.  The callbacks are moved out of the list.\<close>

definition take_callbacks :: "nat \<Rightarrow> classic_link \<Rightarrow> classic_link" where
  "take_callbacks i s = s\<lparr>pending_dynamic_channel_callback_list :=
     (pending_dynamic_channel_callback_list s)
       [i := (pending_dynamic_channel_callback_list s ! i)\<lparr>conn_callbacks := None\<rparr>]\<rparr>"

definition connect_pending :: "nat \<Rightarrow> classic_link \<Rightarrow> classic_link option" where
  "connect_pending i s = do {
     ASSERT (i < length (pending_dynamic_channel_callback_list s));
     let conn = pending_dynamic_channel_callback_list s ! i;
     (local_cid, s) \<leftarrow> ReserveDynamicChannel (take_callbacks i s);
     link_SendConnectionRequest (pending_dynamic_psm_list s ! i) local_cid conn s }"

partial_function (option) connect_loop :: "nat \<Rightarrow> classic_link \<Rightarrow> classic_link option" where
  "connect_loop i s =
     (if i < length (pending_dynamic_psm_list s) then do { s \<leftarrow> connect_pending i s; connect_loop (Suc i) s }
      else Some s)"

definition connect_to_pending_dynamic_channels :: "classic_link \<Rightarrow> classic_link option" where
  "connect_to_pending_dynamic_channels s = connect_loop 0 s"

subsection \<open>Configuration requests\<close>

definition initial_rfc :: "channel_mode \<Rightarrow> RetransmissionAndFlowControlConfigurationOption" where
  "initial_rfc mode =
     (case mode of MODE_BASIC \<Rightarrow> default_rfc
      | _ \<Rightarrow> \<lparr>rfc_mode = ENHANCED_RETRANSMISSION, tx_window_size = 10, max_transmit = 20,
             retransmission_time_out = 2000, monitor_time_out = 12000, maximum_pdu_size = 1010\<rparr>)"

definition initial_options :: "DynamicChannelConfigurationOption \<Rightarrow> FcsType \<Rightarrow> ConfigurationOption list" where
  "initial_options initial_config fcs =
     MtuConfigurationOption False (incoming_mtu initial_config) #
     (if channel_mode initial_config \<noteq> MODE_BASIC
      then [RetransmissionOption False (initial_rfc (channel_mode initial_config)), FrameCheckSequenceOption False fcs]
      else [])"

definition SendInitialConfigRequest :: "Cid \<Rightarrow> classic_link \<Rightarrow> classic_link option" where
  "SendInitialConfigRequest local_cid s = do {
     channel \<leftarrow> FindChannelByCid local_cid (dynamic_channels s);
     service \<leftarrow> dsm_GetService (dyn_psm channel) (services s);
     let initial_config = config_option service;
     let fcs = (if remote_supports_fcs s then FCS_DEFAULT else NO_FCS);
     let rfc = initial_rfc (channel_mode initial_config);
     let s = set_configuration local_cid ((configuration_of local_cid s)\<lparr>fcs_type := fcs,
       retransmission_and_flow_control_mode := rfc_mode rfc, local_retransmission_and_flow_control := rfc\<rparr>) s;
     send_configuration_request (dyn_remote_cid channel) (initial_options initial_config fcs) s }"

definition send_pending_configuration_requests :: "classic_link \<Rightarrow> classic_link option" where
  "send_pending_configuration_requests s = do {
     s \<leftarrow> foldM SendInitialConfigRequest (pending_outgoing_configuration_request_list s) s;
     Some (s\<lparr>pending_outgoing_configuration_request_list := []\<rparr>) }"

definition SendInitialConfigRequestOrQueue :: "Cid \<Rightarrow> classic_link \<Rightarrow> classic_link option" where
  "SendInitialConfigRequestOrQueue local_cid s =
     (if remote_extended_feature_received s then SendInitialConfigRequest local_cid s
      else Some (s\<lparr>pending_outgoing_configuration_request_list :=
                     pending_outgoing_configuration_request_list s @ [local_cid]\<rparr>))"

definition OnRemoteExtendedFeatureReceived :: "bool \<Rightarrow> bool \<Rightarrow> classic_link \<Rightarrow> classic_link option" where
  "OnRemoteExtendedFeatureReceived ertm_supported fcs_supported s = do {
     let s = s\<lparr>remote_supports_ertm := ertm_supported, remote_supports_fcs := fcs_supported,
               remote_extended_feature_received := True\<rparr>;
     s \<leftarrow> connect_to_pending_dynamic_channels s;
     send_pending_configuration_requests s }"

subsection \<open>Handlers of the signalling manager\<close>

definition OnCommandReject :: "SignalId \<Rightarrow> classic_link \<Rightarrow> classic_link option" where
  "OnCommandReject i s =
     (if signal_id (command_just_sent s) \<noteq> i then Some s
      else do {
        s \<leftarrow> (if pending_code (command_just_sent s) = INFORMATION_REQUEST \<and>
                 info_type (command_just_sent s) = EXTENDED_FEATURES_SUPPORTED
              then OnRemoteExtendedFeatureReceived False False s else Some s);
        handle_send_next_command (CancelAlarm s) })"

definition OnConnectionRequest :: "SignalId \<Rightarrow> Psm \<Rightarrow> Cid \<Rightarrow> classic_link \<Rightarrow> classic_link option" where
  "OnConnectionRequest i psm remote_cid s =
     (if \<not> IsPsmValid psm then
        send_connection_response i remote_cid kInvalidCid PSM_NOT_SUPPORTED NO_FURTHER_INFORMATION_AVAILABLE s
      else if remote_cid = kInvalidCid then
        send_connection_response i remote_cid kInvalidCid INVALID_CID NO_FURTHER_INFORMATION_AVAILABLE s
      else if \<not> dsm_IsServiceRegistered psm (services s) then
        send_connection_response i remote_cid kInvalidCid PSM_NOT_SUPPORTED NO_FURTHER_INFORMATION_AVAILABLE s
      else do {
        service \<leftarrow> dsm_GetService psm (services s);
        Some (log_event (EnforceIncoming (security_policy service) psm remote_cid i) s) })"

definition on_security_result_for_incoming ::
    "Psm \<Rightarrow> Cid \<Rightarrow> SignalId \<Rightarrow> bool \<Rightarrow> classic_link \<Rightarrow> classic_link option" where
  "on_security_result_for_incoming psm remote_cid i result s =
     (if sig_buffer s = None then Some s
      else do {
        s \<leftarrow> (if \<not> result then do {
                s \<leftarrow> send_connection_response i remote_cid 0 SECURITY_BLOCK NO_FURTHER_INFORMATION_AVAILABLE s;
                OnOutgoingConnectionRequestFail 0 (connection_result FAIL_SECURITY_BLOCK NO_RESOURCES_AVAILABLE) s }
              else Some s);
        (new_channel, s) \<leftarrow> AllocateDynamicChannel psm remote_cid s;
        (case new_channel of None \<Rightarrow> Some s
         | Some cid \<Rightarrow> do {
             s \<leftarrow> send_connection_response i remote_cid cid CONNECTION_SUCCESS NO_FURTHER_INFORMATION_AVAILABLE s;
             SendInitialConfigRequestOrQueue cid s }) })"

definition expects :: "SignalId \<Rightarrow> CommandCode \<Rightarrow> classic_link \<Rightarrow> bool" where
  "expects i code s \<longleftrightarrow> signal_id (command_just_sent s) = i \<and> pending_code (command_just_sent s) = code"

definition OnConnectionResponse :: "SignalId \<Rightarrow> Cid \<Rightarrow> Cid \<Rightarrow> u16 \<Rightarrow> u16 \<Rightarrow> classic_link \<Rightarrow> classic_link option" where
  "OnConnectionResponse i remote_cid cid result status s =
     (if \<not> expects i CONNECTION_REQUEST s then Some s
      else if source_cid (command_just_sent s) \<noteq> cid then handle_send_next_command s
      else if result = CONNECTION_PENDING then Some (s\<lparr>sig_alarm := Alarm_Schedule kTimeout (sig_alarm s)\<rparr>)
      else let s = CancelAlarm (s\<lparr>command_just_sent := (command_just_sent s)\<lparr>signal_id := kInvalidSignalId\<rparr>\<rparr>) in
        if result \<noteq> CONNECTION_SUCCESS then do {
          s \<leftarrow> OnOutgoingConnectionRequestFail cid (connection_result FAIL_L2CAP_ERROR result) s;
          handle_send_next_command s }
        else do {
          (new_channel, s) \<leftarrow> AllocateReservedDynamicChannel cid (pending_psm (command_just_sent s)) remote_cid s;
          (case new_channel of
             None \<Rightarrow> do {
               s \<leftarrow> OnOutgoingConnectionRequestFail cid (connection_result FAIL_L2CAP_ERROR NO_RESOURCES_AVAILABLE) s;
               handle_send_next_command s }
           | Some _ \<Rightarrow> SendInitialConfigRequestOrQueue cid s) })"

text \<open>The end of the configuration, on either path: the user is told and the channel joins the data pipeline.\<close>

definition channel_configured ::
    "Cid \<Rightarrow> dynamic_channel \<Rightarrow> ChannelConfigurationState \<Rightarrow> classic_link \<Rightarrow> classic_link option" where
  "channel_configured cid channel conf s = do {
     s \<leftarrow> (if local_initiated channel then NotifyChannelCreation cid s
           else do {
             service \<leftarrow> dsm_GetService (dyn_psm channel) (services s);
             Some (log_event (ServiceOpen (dyn_psm channel) cid) s) });
     let conf = conf\<lparr>config_state := CONFIGURED\<rparr>;
     let s = set_configuration cid conf s;
     p \<leftarrow> AttachChannel cid (dyn_remote_cid channel) BASIC (data_pipeline s);
     p \<leftarrow> pm_UpdateClassicConfiguration cid conf p;
     Some (s\<lparr>data_pipeline := p\<rparr>) }"

record request_answer =
  req_configuration :: ChannelConfigurationState
  rsp_options :: "ConfigurationOption list"
  rsp_result :: u16
  remote_rfc_mode :: RetransmissionAndFlowControlModeOption

definition fill_time_outs :: "RetransmissionAndFlowControlConfigurationOption \<Rightarrow> RetransmissionAndFlowControlConfigurationOption" where
  "fill_time_outs rfc =
     (if rfc_mode rfc = ENHANCED_RETRANSMISSION then
        let rfc = (if retransmission_time_out rfc = 0 then rfc\<lparr>retransmission_time_out := 2000\<rparr> else rfc)
        in if monitor_time_out rfc = 0 then rfc\<lparr>monitor_time_out := 12000\<rparr> else rfc
      else rfc)"

text \<open>The loop over the options of a request; the first component is False at an option that has to be understood.\<close>

fun request_loop :: "Mtu \<Rightarrow> ConfigurationOption list \<Rightarrow> request_answer \<Rightarrow> bool \<times> request_answer" where
  "request_loop minimal [] a = (True, a)"
| "request_loop minimal (MtuConfigurationOption hint mtu # options) a =
     request_loop minimal options
       (if mtu < minimal
        then a\<lparr>rsp_result := UNACCEPTABLE_PARAMETERS, rsp_options := rsp_options a @ [MtuConfigurationOption hint minimal]\<rparr>
        else a\<lparr>rsp_options := rsp_options a @ [MtuConfigurationOption hint mtu]\<rparr>)"
| "request_loop minimal (FlushTimeoutConfigurationOption hint t # options) a =
     request_loop minimal options (a\<lparr>rsp_options := rsp_options a @ [FlushTimeoutConfigurationOption hint t]\<rparr>)"
| "request_loop minimal (RetransmissionOption hint rfc # options) a =
    (let rfc = fill_time_outs rfc in
     request_loop minimal options
       (a\<lparr>remote_rfc_mode := rfc_mode rfc,
          req_configuration := (req_configuration a)\<lparr>remote_retransmission_and_flow_control := rfc,
            retransmission_and_flow_control_mode := rfc_mode rfc\<rparr>,
          rsp_options := rsp_options a @ [RetransmissionOption hint rfc]\<rparr>))"
| "request_loop minimal (FrameCheckSequenceOption hint t # options) a = request_loop minimal options a"
| "request_loop minimal (OtherConfigurationOption hint type body # options) a =
     (if \<not> hint then (False, a) else request_loop minimal options a)"

definition OnConfigurationRequest ::
    "SignalId \<Rightarrow> Cid \<Rightarrow> Continuation \<Rightarrow> ConfigurationOption list \<Rightarrow> classic_link \<Rightarrow> classic_link option" where
  "OnConfigurationRequest i cid is_continuation options s =
     (case FindChannelByCid cid (dynamic_channels s) of None \<Rightarrow> Some s
      | Some channel \<Rightarrow> do {
          service \<leftarrow> dsm_GetService (dyn_psm channel) (services s);
          let (understood, a) = request_loop (minimal_remote_mtu (config_option service)) options
            \<lparr>req_configuration = configuration_of cid s, rsp_options = [], rsp_result = CONFIG_SUCCESS,
             remote_rfc_mode = L2CAP_BASIC\<rparr>;
          let conf = req_configuration a;
          let s = set_configuration cid conf s;
          if \<not> understood then
            sig_Enqueue (ConfigurationResponse (sig_value i) (dyn_remote_cid channel) is_continuation UNKNOWN_OPTIONS []) s
          else if remote_rfc_mode a = L2CAP_BASIC \<and> channel_mode (config_option service) = MODE_ERTM then
            sm_SendDisconnectionRequest (dyn_cid channel) (dyn_remote_cid channel) s
          else do {
            s \<leftarrow> (case config_state conf of
                   WAIT_CONFIG_REQ \<Rightarrow> channel_configured cid channel conf s
                 | WAIT_CONFIG_REQ_RSP \<Rightarrow> Some (set_configuration cid (conf\<lparr>config_state := WAIT_CONFIG_RSP\<rparr>) s)
                 | _ \<Rightarrow> Some s);
            sig_Enqueue (ConfigurationResponse (sig_value i) (dyn_remote_cid channel) is_continuation
              (rsp_result a) (rsp_options a)) s } })"

datatype negotiation_end = Negotiated | DisconnectChannel | Unsupported

record negotiation =
  neg_configuration :: ChannelConfigurationState
  negotiation_config :: "ConfigurationOption list"
  can_negotiate :: bool

text \<open>The loop of negotiate\_configuration; \<open>service\<close> is what GetService gives for the channel, \<open>None\<close> when it aborts.\<close>

fun negotiate_loop ::
    "dynamic_service option \<Rightarrow> ConfigurationOption list \<Rightarrow> negotiation \<Rightarrow> (negotiation_end \<times> negotiation) option" where
  "negotiate_loop service [] n = Some (Negotiated, n)"
| "negotiate_loop service (MtuConfigurationOption hint mtu # options) n =
     negotiate_loop service options
       (n\<lparr>negotiation_config := negotiation_config n @ [MtuConfigurationOption False kDefaultClassicMtu], can_negotiate := True\<rparr>)"
| "negotiate_loop service (FrameCheckSequenceOption hint t # options) n =
     negotiate_loop service options (n\<lparr>can_negotiate := True\<rparr>)"
| "negotiate_loop service (FlushTimeoutConfigurationOption hint t # options) n =
     negotiate_loop service options (n\<lparr>can_negotiate := True\<rparr>)"
| "negotiate_loop service (RetransmissionOption hint rfc # options) n =
     (if rfc_mode rfc = ENHANCED_RETRANSMISSION then
        negotiate_loop service options
          (n\<lparr>neg_configuration := (neg_configuration n)\<lparr>retransmission_and_flow_control_mode := rfc_mode rfc,
               local_retransmission_and_flow_control := rfc\<rparr>,
             negotiation_config := negotiation_config n @ [RetransmissionOption hint rfc]\<rparr>)
      else if rfc_mode rfc = L2CAP_BASIC then do {
        sv \<leftarrow> service;
        (case channel_mode (config_option sv) of
           MODE_ERTM \<Rightarrow> Some (DisconnectChannel, n)
         | MODE_ERTM_OPTIONAL \<Rightarrow>
             negotiate_loop service options
               (n\<lparr>can_negotiate := True, negotiation_config := negotiation_config n @ [RetransmissionOption hint rfc]\<rparr>)
         | MODE_BASIC \<Rightarrow> negotiate_loop service options n) }
      else Some (DisconnectChannel, n))"
| "negotiate_loop service (OtherConfigurationOption hint type body # options) n = Some (Unsupported, n)"

definition negotiate_configuration :: "Cid \<Rightarrow> ConfigurationOption list \<Rightarrow> classic_link \<Rightarrow> classic_link option" where
  "negotiate_configuration cid options s = do {
     channel \<leftarrow> FindChannelByCid cid (dynamic_channels s);
     (end, n) \<leftarrow> negotiate_loop (dsm_GetService (dyn_psm channel) (services s)) options
       \<lparr>neg_configuration = configuration_of (dyn_cid channel) s, negotiation_config = [], can_negotiate = False\<rparr>;
     let s = set_configuration (dyn_cid channel) (neg_configuration n) s;
     (case end of
        Unsupported \<Rightarrow> Some s
      | DisconnectChannel \<Rightarrow> sm_SendDisconnectionRequest (dyn_cid channel) (dyn_remote_cid channel) s
      | Negotiated \<Rightarrow>
          if can_negotiate n then send_configuration_request (dyn_remote_cid channel) (negotiation_config n) s
          else Some s) }"

text \<open>The loop over the options of a successful response.\<close>

datatype response_end = Accepted | ModeMismatch | UnsupportedOption

fun response_loop ::
    "ConfigurationOption list \<Rightarrow> ChannelConfigurationState \<Rightarrow> response_end \<times> ChannelConfigurationState" where
  "response_loop [] conf = (Accepted, conf)"
| "response_loop (MtuConfigurationOption hint mtu # options) conf = response_loop options conf"
| "response_loop (FlushTimeoutConfigurationOption hint t # options) conf = response_loop options conf"
| "response_loop (RetransmissionOption hint rfc # options) conf =
     (if retransmission_and_flow_control_mode conf \<noteq> rfc_mode rfc then (ModeMismatch, conf)
      else response_loop options (conf\<lparr>local_retransmission_and_flow_control := rfc\<rparr>))"
| "response_loop (FrameCheckSequenceOption hint t # options) conf = response_loop options (conf\<lparr>fcs_type := t\<rparr>)"
| "response_loop (OtherConfigurationOption hint type body # options) conf = (UnsupportedOption, conf)"

definition OnConfigurationResponse ::
    "SignalId \<Rightarrow> Cid \<Rightarrow> Continuation \<Rightarrow> u16 \<Rightarrow> ConfigurationOption list \<Rightarrow> classic_link \<Rightarrow> classic_link option" where
  "OnConfigurationResponse i cid is_continuation result options s =
     (if \<not> expects i CONFIGURATION_REQUEST s then Some s
      else case FindChannelByCid cid (dynamic_channels s) of None \<Rightarrow> handle_send_next_command s
      | Some channel \<Rightarrow>
        if result = CONFIG_PENDING then Some (s\<lparr>sig_alarm := Alarm_Schedule kTimeout (sig_alarm s)\<rparr>)
        else if result = UNACCEPTABLE_PARAMETERS then do {
          s \<leftarrow> negotiate_configuration cid options (CancelAlarm s);
          handle_send_next_command s }
        else if result \<noteq> CONFIG_SUCCESS then handle_send_next_command (CancelAlarm s)
        else do {
          let (end, conf) = response_loop options (configuration_of (dyn_cid channel) s);
          let s = set_configuration (dyn_cid channel) conf s;
          s \<leftarrow> (case end of
                 UnsupportedOption \<Rightarrow> Some s
               | ModeMismatch \<Rightarrow> sm_SendDisconnectionRequest cid (dyn_remote_cid channel) s
               | Accepted \<Rightarrow>
                   (case config_state conf of
                      WAIT_CONFIG_RSP \<Rightarrow> channel_configured cid channel conf s
                    | WAIT_CONFIG_REQ_RSP \<Rightarrow>
                        Some (set_configuration (dyn_cid channel) (conf\<lparr>config_state := WAIT_CONFIG_REQ\<rparr>) s)
                    | _ \<Rightarrow> Some s));
          handle_send_next_command (CancelAlarm s) })"

text \<open>What both sides of a disconnection do with the channel.\<close>

definition disconnect_channel :: "Cid \<Rightarrow> dynamic_channel \<Rightarrow> classic_link \<Rightarrow> classic_link option" where
  "disconnect_channel cid channel s = do {
     a \<leftarrow> update_channel cid (dyn_OnClosed 0) (dynamic_channels s);
     let s = s\<lparr>dynamic_channels := a\<rparr>;
     let conf = configuration_of cid s;
     let s = set_configuration cid conf s;
     s \<leftarrow> (if config_state conf = CONFIGURED
           then map_option (\<lambda>p. s\<lparr>data_pipeline := p\<rparr>) (DetachChannel cid (data_pipeline s)) else Some s);
     Some (FreeDynamicChannel cid s) }"

definition OnDisconnectionRequest :: "SignalId \<Rightarrow> Cid \<Rightarrow> Cid \<Rightarrow> classic_link \<Rightarrow> classic_link option" where
  "OnDisconnectionRequest i cid remote_cid s =
     (case FindChannelByCid cid (dynamic_channels s) of None \<Rightarrow> Some s
      | Some channel \<Rightarrow> do {
          s \<leftarrow> sig_Enqueue (DisconnectionResponse (sig_value i) cid remote_cid) s;
          s \<leftarrow> disconnect_channel cid channel s;
          Some (erase_configuration cid s) })"

definition OnDisconnectionResponse :: "SignalId \<Rightarrow> Cid \<Rightarrow> Cid \<Rightarrow> classic_link \<Rightarrow> classic_link option" where
  "OnDisconnectionResponse i remote_cid cid s =
     (if \<not> expects i DISCONNECTION_REQUEST s then Some s
      else let s = CancelAlarm s in
        case FindChannelByCid cid (dynamic_channels s) of None \<Rightarrow> handle_send_next_command s
        | Some channel \<Rightarrow> do {
            s \<leftarrow> disconnect_channel cid channel s;
            s \<leftarrow> handle_send_next_command s;
            Some (erase_configuration cid s) })"

definition OnEchoRequest :: "SignalId \<Rightarrow> bytes \<Rightarrow> classic_link \<Rightarrow> classic_link option" where
  "OnEchoRequest i packet s = sig_Enqueue (EchoResponse (sig_value i) packet) s"

definition OnEchoResponse :: "SignalId \<Rightarrow> bytes \<Rightarrow> classic_link \<Rightarrow> classic_link option" where
  "OnEchoResponse i packet s =
     (if \<not> expects i ECHO_REQUEST s then Some s else handle_send_next_command (CancelAlarm s))"

definition le64 :: "64 word \<Rightarrow> bytes" where
  "le64 w = map (\<lambda>k. ucast (drop_bit (8 * k) w)) [0..<8]"

text \<open>The feature mask has the bits for ERTM, FCS and fixed channels.\<close>

definition OnInformationRequest :: "SignalId \<Rightarrow> u16 \<Rightarrow> classic_link \<Rightarrow> classic_link option" where
  "OnInformationRequest i type s =
     (if type = CONNECTIONLESS_MTU then
        sig_Enqueue (InformationResponse (sig_value i) CONNECTIONLESS_MTU 0 (le16 kDefaultClassicMtu)) s
      else if type = EXTENDED_FEATURES_SUPPORTED then
        sig_Enqueue (InformationResponse (sig_value i) EXTENDED_FEATURES_SUPPORTED 0 [0xa8, 0, 0, 0]) s
      else if type = FIXED_CHANNELS_SUPPORTED then
        sig_Enqueue (InformationResponse (sig_value i) FIXED_CHANNELS_SUPPORTED 0
          (le64 (GetSupportedFixedChannelMask (fixed_service_map s)))) s
      else Some s)"

definition OnInformationResponse :: "SignalId \<Rightarrow> u16 \<Rightarrow> bytes \<Rightarrow> classic_link \<Rightarrow> classic_link option" where
  "OnInformationResponse i type body s =
     (if \<not> expects i INFORMATION_REQUEST s then Some s
      else if type = CONNECTIONLESS_MTU \<and> length body < 2 \<or> type = EXTENDED_FEATURES_SUPPORTED \<and> length body < 4 \<or>
              type = FIXED_CHANNELS_SUPPORTED \<and> length body < 8 then Some s
      else do {
        s \<leftarrow> (if type = CONNECTIONLESS_MTU then Some (s\<lparr>remote_connectionless_mtu := of_le16 (body ! 0) (body ! 1)\<rparr>)
              else if type = EXTENDED_FEATURES_SUPPORTED
              then OnRemoteExtendedFeatureReceived (bit (body ! 0) 3) (bit (body ! 0) 5) s
              else Some s);
        handle_send_next_command (CancelAlarm s) })"

text \<open>The codes of the credit based commands, which are ignored.\<close>

definition credit_based_codes :: "u8 set" where
  "credit_based_codes = {0x16, 0x17, 0x18, 0x19, 0x1a}"

fun handle_command :: "control \<Rightarrow> classic_link \<Rightarrow> classic_link option" where
  "handle_command (CommandReject i reason body) = OnCommandReject (SignalId i)"
| "handle_command (ConnectionRequest i psm scid) = OnConnectionRequest (SignalId i) psm scid"
| "handle_command (ConnectionResponse i dcid scid result status) =
     OnConnectionResponse (SignalId i) dcid scid result status"
| "handle_command (ConfigurationRequest i dcid c options) = OnConfigurationRequest (SignalId i) dcid c options"
| "handle_command (ConfigurationResponse i scid c result options) =
     OnConfigurationResponse (SignalId i) scid c result options"
| "handle_command (DisconnectionRequest i dcid scid) = OnDisconnectionRequest (SignalId i) dcid scid"
| "handle_command (DisconnectionResponse i dcid scid) = OnDisconnectionResponse (SignalId i) dcid scid"
| "handle_command (EchoRequest i payload) = OnEchoRequest (SignalId i) payload"
| "handle_command (EchoResponse i payload) = OnEchoResponse (SignalId i) payload"
| "handle_command (InformationRequest i type) = OnInformationRequest (SignalId i) type"
| "handle_command (InformationResponse i type result body) = OnInformationResponse (SignalId i) type body"
| "handle_command (OtherCommand code i payload) =
     (if code \<in> credit_based_codes then Some else sig_Enqueue (CommandReject i 0 []))"

definition handle_one_command :: "(bytes \<Rightarrow> ConfigurationOption list) \<Rightarrow> bytes \<Rightarrow> classic_link \<Rightarrow> classic_link option" where
  "handle_one_command get_config bs s =
     (if ControlView bs = None then Some s
      else case command_view get_config bs of None \<Rightarrow> Some s | Some c \<Rightarrow> handle_command c s)"

text \<open>on\_incoming\_packet, with the packet the queue of the signalling channel hands out.\<close>

definition on_incoming_packet :: "(bytes \<Rightarrow> ConfigurationOption list) \<Rightarrow> packet_view \<Rightarrow> classic_link \<Rightarrow> classic_link option" where
  "on_incoming_packet get_config packet s =
     foldM (handle_one_command get_config) (GetCommandsFromPacketView packet) s"

definition on_command_timeout :: "classic_link \<Rightarrow> classic_link option" where
  "on_command_timeout s =
     (if signal_id (command_just_sent s) = kInvalidSignalId then Some s
      else if pending_code (command_just_sent s) = CONFIGURATION_REQUEST then do {
        channel \<leftarrow> FindChannelByRemoteCid (destination_cid (command_just_sent s)) (dynamic_channels s);
        sm_SendDisconnectionRequest (dyn_cid channel) (dyn_remote_cid channel) s }
      else do {
        s \<leftarrow> (if pending_code (command_just_sent s) = CONNECTION_REQUEST then
                OnOutgoingConnectionRequestFail (source_cid (command_just_sent s))
                  (connection_result FAIL_L2CAP_ERROR NO_RESOURCES_AVAILABLE) s
              else if pending_code (command_just_sent s) = INFORMATION_REQUEST \<and>
                      info_type (command_just_sent s) = EXTENDED_FEATURES_SUPPORTED
              then OnRemoteExtendedFeatureReceived False False s
              else Some s);
        handle_send_next_command s })"

text \<open>The alarm of the signalling manager runs out, and so does the idle alarm of the link.\<close>

definition sig_alarm_fires :: "classic_link \<Rightarrow> classic_link option" where
  "sig_alarm_fires s = (case sig_alarm s of None \<Rightarrow> Some s | Some _ \<Rightarrow> on_command_timeout (s\<lparr>sig_alarm := None\<rparr>))"

definition idle_alarm_fires :: "classic_link \<Rightarrow> classic_link" where
  "idle_alarm_fires s = (case idle_alarm s of None \<Rightarrow> s | Some _ \<Rightarrow> link_Disconnect (s\<lparr>idle_alarm := None\<rparr>))"

subsection \<open>The life of the link\<close>

definition ClassicSignallingManager :: "classic_link \<Rightarrow> classic_link option" where
  "ClassicSignallingManager s =
     map_option (\<lambda>s. s\<lparr>sig_buffer := Some EnqueueBuffer\<rparr>) (AllocateFixedChannel kClassicSignallingCid s)"

definition delete_signalling_manager :: "classic_link \<Rightarrow> classic_link" where
  "delete_signalling_manager s = (CancelAlarm s)\<lparr>sig_buffer := None\<rparr>"

definition Link :: "dynamic_services \<Rightarrow> fixed_services \<Rightarrow> classic_link option" where
  "Link dynamic_service_manager fixed_service_manager = do {
     s \<leftarrow> ClassicSignallingManager
       \<lparr>sig_buffer = None, pending_commands = [],
        command_just_sent = \<lparr>signal_id = kInvalidSignalId, pending_code = NO_COMMAND, pending_psm = 0, source_cid = 0,
          destination_cid = 0, info_type = 0, pending_config = []\<rparr>,
        sig_alarm = None, next_signal_id = kInitialSignalId, channel_configuration = (\<lambda>_. None),
        fixed_channels = [], dynamic_channels = DynamicChannelAllocator, data_pipeline = DataPipelineManager,
        services = dynamic_service_manager, fixed_service_map = fixed_service_manager, pending_connections = [],
        idle_alarm = None, remote_connectionless_mtu = kMinimumClassicMtu, link_role = 0,
        remote_extended_feature_received = False, remote_supports_ertm = False, remote_supports_fcs = False,
        encryption_enabled = ENCRYPTION_OFF, pending_dynamic_psm_list = [],
        pending_dynamic_channel_callback_list = [], pending_outgoing_configuration_request_list = [],
        used_by_security_module = False, has_requested_authentication = False, encryption_change_listener = [],
        remaining_packets_to_be_sent = 0, link_log = []\<rparr>;
     Some (s\<lparr>idle_alarm := Alarm_Schedule GetClassicLinkIdleDisconnectTimeout (idle_alarm s)\<rparr>) }"

text \<open>The loop that empties the map of pending connections.\<close>

fun fail_pending :: "ConnectionResult \<Rightarrow> (Cid \<times> PendingDynamicChannelConnection) list \<Rightarrow> classic_link \<Rightarrow> classic_link option" where
  "fail_pending result [] s = Some (s\<lparr>pending_connections := []\<rparr>)"
| "fail_pending result ((cid, conn) # conns) s = do {
     s \<leftarrow> invoke_fail conn result s;
     fail_pending result conns s }"

definition OnAclDisconnected :: "ErrorCode \<Rightarrow> classic_link \<Rightarrow> classic_link option" where
  "OnAclDisconnected status s = do {
     let s = CancelAlarm s;
     fixed \<leftarrow> fix_OnAclDisconnected status (fixed_channels s);
     a \<leftarrow> dyn_OnAclDisconnected status (dynamic_channels s);
     fail_pending \<lparr>connection_result_code = FAIL_HCI_ERROR, hci_error = status,
         l2cap_connection_response_result = CONNECTION_SUCCESS\<rparr>
       (pending_connections s) (s\<lparr>fixed_channels := fixed, dynamic_channels := a\<rparr>) }"

definition OnDisconnection :: "ErrorCode \<Rightarrow> classic_link \<Rightarrow> classic_link option" where
  "OnDisconnection reason s = map_option (log_event (Manager (ManagerOnDisconnect reason))) (OnAclDisconnected reason s)"

definition OnEncryptionChange :: "u8 \<Rightarrow> classic_link \<Rightarrow> classic_link option" where
  "OnEncryptionChange enabled s =
    (let s = log_event (Manager (ManagerOnEncryptionChange enabled)) (s\<lparr>encryption_enabled := enabled\<rparr>) in
     foldM (\<lambda>(cid, psm). on_security_result_for_outgoing ENCRYPTION psm cid (enabled \<noteq> ENCRYPTION_OFF))
       (encryption_change_listener s) s)"

definition AddEncryptionChangeListener :: "Cid \<Rightarrow> Psm \<Rightarrow> classic_link \<Rightarrow> classic_link" where
  "AddEncryptionChangeListener cid psm s =
     s\<lparr>encryption_change_listener := encryption_change_listener s @ [(cid, psm)]\<rparr>"

definition link_OnPendingPacketChange :: "Cid \<Rightarrow> bool \<Rightarrow> classic_link \<Rightarrow> classic_link" where
  "link_OnPendingPacketChange local_cid has_packet s =
    (let n = (if has_packet then remaining_packets_to_be_sent s + 1 else remaining_packets_to_be_sent s - 1) in
     log_event (Manager (ManagerOnPendingPacketChange n)) (s\<lparr>remaining_packets_to_be_sent := n\<rparr>))"

definition link_SetChannelTxPriority :: "Cid \<Rightarrow> bool \<Rightarrow> classic_link \<Rightarrow> classic_link option" where
  "link_SetChannelTxPriority local_cid high_priority s =
     map_option (\<lambda>p. s\<lparr>data_pipeline := p\<rparr>) (pm_SetChannelTxPriority local_cid high_priority (data_pipeline s))"

definition OnRoleChange :: "ErrorCode \<Rightarrow> u8 \<Rightarrow> classic_link \<Rightarrow> classic_link" where
  "OnRoleChange status new_role s = log_event (Manager (ManagerOnRoleChange status new_role)) (s\<lparr>link_role := new_role\<rparr>)"

definition OnRoleDiscoveryComplete :: "u8 \<Rightarrow> classic_link \<Rightarrow> classic_link" where
  "OnRoleDiscoveryComplete current_role s = s\<lparr>link_role := current_role\<rparr>"

definition OnAuthenticationComplete :: "ErrorCode \<Rightarrow> classic_link \<Rightarrow> classic_link" where
  "OnAuthenticationComplete status = log_event (Manager (ManagerOnAuthenticationComplete status))"

definition OnReadClockOffsetComplete :: "u16 \<Rightarrow> classic_link \<Rightarrow> classic_link" where
  "OnReadClockOffsetComplete clock_offset = log_event (Manager (ManagerOnReadClockOffset clock_offset))"

definition OnModeChange :: "ErrorCode \<Rightarrow> u8 \<Rightarrow> u16 \<Rightarrow> classic_link \<Rightarrow> classic_link" where
  "OnModeChange status current_mode interval = log_event (Manager (ManagerOnModeChange status current_mode interval))"

definition OnSniffSubrating :: "ErrorCode \<Rightarrow> u16 \<Rightarrow> u16 \<Rightarrow> u16 \<Rightarrow> u16 \<Rightarrow> classic_link \<Rightarrow> classic_link" where
  "OnSniffSubrating status tx_latency rx_latency remote_timeout local_timeout =
     log_event (Manager (ManagerOnSniffSubrating status tx_latency rx_latency remote_timeout local_timeout))"

definition OnReadRemoteVersionInformationComplete :: "ErrorCode \<Rightarrow> u8 \<Rightarrow> u16 \<Rightarrow> u16 \<Rightarrow> classic_link \<Rightarrow> classic_link" where
  "OnReadRemoteVersionInformationComplete status lmp_version manufacturer_name sub_version =
     log_event (Manager (ManagerOnReadRemoteVersionInformation status lmp_version manufacturer_name sub_version))"

definition OnReadRemoteSupportedFeaturesComplete :: "64 word \<Rightarrow> classic_link \<Rightarrow> classic_link" where
  "OnReadRemoteSupportedFeaturesComplete features = log_event (Manager (ManagerOnReadRemoteSupportedFeatures features))"

definition OnReadRemoteExtendedFeaturesComplete :: "u8 \<Rightarrow> u8 \<Rightarrow> 64 word \<Rightarrow> classic_link \<Rightarrow> classic_link" where
  "OnReadRemoteExtendedFeaturesComplete page_number max_page_number features =
     log_event (Manager (ManagerOnReadRemoteExtendedFeatures page_number max_page_number features))"

text \<open>The calls of the data pipeline on its link.\<close>

fun handle_link_call :: "link_call \<Rightarrow> classic_link \<Rightarrow> classic_link option" where
  "handle_link_call (LinkSendDisconnectionRequest local_cid remote_cid) s = sm_SendDisconnectionRequest local_cid remote_cid s"
| "handle_link_call (LinkSendLeCredit local_cid credit) s = Some s"
| "handle_link_call (OnPendingPacketChange local_cid has_packet) s = Some (link_OnPendingPacketChange local_cid has_packet s)"

text \<open>Acquire and Release of a fixed channel, and Close of a dynamic one.\<close>

definition fixed_channel_hold :: "bool \<Rightarrow> Cid \<Rightarrow> classic_link \<Rightarrow> classic_link option" where
  "fixed_channel_hold acquire cid s = do {
     ch \<leftarrow> fix_FindChannel cid (fixed_channels s);
     (ch, refresh) \<leftarrow> (if acquire then fix_Acquire ch else fix_Release ch);
     let s = s\<lparr>fixed_channels := map (\<lambda>(c, x). if c = cid then (c, ch) else (c, x)) (fixed_channels s)\<rparr>;
     Some (if refresh then RefreshRefCount s else s) }"

definition close_dynamic_channel :: "Cid \<Rightarrow> classic_link \<Rightarrow> classic_link option" where
  "close_dynamic_channel cid s = do {
     channel \<leftarrow> FindChannelByCid cid (dynamic_channels s);
     (case dyn_Close channel of None \<Rightarrow> Some s
      | Some (local_cid, remote_cid) \<Rightarrow> sm_SendDisconnectionRequest local_cid remote_cid s) }"

end
