(* ===== verification/Classic_Invariants.thy ===== *)
theory Classic_Invariants
  imports Classic_Link
begin

text \<open>
  Runs of a classic link and how invariants of them are proved.  \<open>link_handle\<close> takes one input of the
  link: a command of the peer, an alarm, an answer of the security module, a call of a user, of the
  link manager or of the ACL connection, a change of the registered services, or a step of the data
  pipeline.

  The locale \<open>link_step_invariant\<close> lists the operations the handlers are built from, and
  \<open>link_invariant\<close> those that end a command; whatever they keep, every input keeps.  Invariants of the
  signalling queue and invariants of the data side need only a part of the list: \<open>data_invariant\<close>
  (Classic\_Books) and \<open>queue_invariant\<close> (Classic\_Signalling) discharge the rest.
\<close>

subsection \<open>Inputs\<close>

datatype pipeline_input =
    PipeDequeue Cid bytes
  | PipePosted
  | PipeSend
  | PipeReceive packet_view
  | PipeReplay
  | PipeController Cid dc_event

fun pipeline_handle :: "pipeline_input \<Rightarrow> pipeline \<Rightarrow> pipeline option" where
  "pipeline_handle (PipeDequeue cid packet) p = dequeue_callback cid packet p"
| "pipeline_handle PipePosted p = run_posted p"
| "pipeline_handle PipeSend p = map_option snd (link_queue_enqueue_callback p)"
| "pipeline_handle (PipeReceive packet) p = link_queue_dequeue_callback packet p"
| "pipeline_handle PipeReplay p = check_buffered_packets p"
| "pipeline_handle (PipeController cid e) p = run_controller cid e p"

text \<open>The callbacks of the ACL connection that the link only passes on, and its calls that only read.\<close>

datatype acl_event =
    RoleDiscovered u8
  | AuthenticationCompleted ErrorCode
  | ClockOffsetRead u16
  | ModeChanged ErrorCode u8 u16
  | SniffSubrated ErrorCode u16 u16 u16 u16
  | VersionRead ErrorCode u8 u16 u16
  | SupportedFeaturesRead "64 word"
  | ExtendedFeaturesRead u8 u8 "64 word"

fun handle_acl_event :: "acl_event \<Rightarrow> classic_link \<Rightarrow> classic_link" where
  "handle_acl_event (RoleDiscovered role) s = OnRoleDiscoveryComplete role s"
| "handle_acl_event (AuthenticationCompleted status) s = OnAuthenticationComplete status s"
| "handle_acl_event (ClockOffsetRead offset) s = OnReadClockOffsetComplete offset s"
| "handle_acl_event (ModeChanged status mode interval) s = OnModeChange status mode interval s"
| "handle_acl_event (SniffSubrated status tx rx remote local) s = OnSniffSubrating status tx rx remote local s"
| "handle_acl_event (VersionRead status version manufacturer sub) s =
     OnReadRemoteVersionInformationComplete status version manufacturer sub s"
| "handle_acl_event (SupportedFeaturesRead features) s = OnReadRemoteSupportedFeaturesComplete features s"
| "handle_acl_event (ExtendedFeaturesRead page max_page features) s =
     OnReadRemoteExtendedFeaturesComplete page max_page features s"

datatype acl_read = ReadVersion | ReadSupportedFeatures | ReadExtendedFeatures u8 | ReadClock

fun handle_acl_read :: "acl_read \<Rightarrow> classic_link \<Rightarrow> classic_link" where
  "handle_acl_read ReadVersion s = link_ReadRemoteVersionInformation s"
| "handle_acl_read ReadSupportedFeatures s = link_ReadRemoteSupportedFeatures s"
| "handle_acl_read (ReadExtendedFeatures page) s = link_ReadRemoteExtendedFeatures page s"
| "handle_acl_read ReadClock s = link_ReadClockOffset s"

datatype link_input =
    Command control
  | SendCommand
  | CommandTimeout
  | IdleTimeout
  | SecurityOutgoing Psm Cid bool
  | SecurityIncoming Psm Cid SignalId bool
  | EncryptionChanged u8
  | Connect Psm PendingDynamicChannelConnection
  | PendingChannels "Psm list" "PendingDynamicChannelConnection list"
  | CloseChannel Cid
  | RequestInformation u16
  | SecurityHold bool
  | FixedHold bool Cid
  | FixedChannel Cid
  | TxPriority Cid bool
  | RoleChanged ErrorCode u8
  | EnsureAuthenticated
  | EnsureEncrypted
  | Pipe pipeline_input
  | LinkCalls
  | AclDisconnected ErrorCode
  | AclEvent acl_event
  | AclRead acl_read
  | DisconnectLink
  | ServicesChanged dynamic_services fixed_services
  | ListenForEncryption Cid Psm

text \<open>The queue of the signalling channel takes the next command out of the buffer.\<close>

definition send_command :: "classic_link \<Rightarrow> classic_link option" where
  "send_command s =
     (case sig_buffer s of None \<Rightarrow> Some s
      | Some b \<Rightarrow>
        if enqueue_registered b
        then map_option (\<lambda>(c, b, _). s\<lparr>sig_buffer := Some b\<rparr>) (eb_enqueue_callback b) else Some s)"

fun link_handle :: "link_input \<Rightarrow> classic_link \<Rightarrow> classic_link option" where
  "link_handle (Command c) s = handle_command c s"
| "link_handle SendCommand s = send_command s"
| "link_handle CommandTimeout s = sig_alarm_fires s"
| "link_handle IdleTimeout s = Some (idle_alarm_fires s)"
| "link_handle (SecurityOutgoing psm cid result) s = on_security_result_for_outgoing LINK_KEY psm cid result s"
| "link_handle (SecurityIncoming psm cid i result) s = on_security_result_for_incoming psm cid i result s"
| "link_handle (EncryptionChanged enabled) s = OnEncryptionChange enabled s"
| "link_handle (Connect psm conn) s = do {
     (cid, s) \<leftarrow> ReserveDynamicChannel s;
     link_SendConnectionRequest psm cid conn s }"
| "link_handle (PendingChannels psms conns) s = SetPendingDynamicChannels psms conns s"
| "link_handle (CloseChannel cid) s = close_dynamic_channel cid s"
| "link_handle (RequestInformation type) s = sm_SendInformationRequest type s"
| "link_handle (SecurityHold hold) s = Some (if hold then AcquireSecurityHold s else ReleaseSecurityHold s)"
| "link_handle (FixedHold acquire cid) s = fixed_channel_hold acquire cid s"
| "link_handle (FixedChannel cid) s = AllocateFixedChannel cid s"
| "link_handle (TxPriority cid high) s = link_SetChannelTxPriority cid high s"
| "link_handle (RoleChanged status role) s = Some (OnRoleChange status role s)"
| "link_handle EnsureAuthenticated s = Some (Authenticate s)"
| "link_handle EnsureEncrypted s = Some (Encrypt s)"
| "link_handle (Pipe e) s = map_option (\<lambda>p. s\<lparr>data_pipeline := p\<rparr>) (pipeline_handle e (data_pipeline s))"
| "link_handle LinkCalls s =
     foldM handle_link_call (link_calls (data_pipeline s)) (s\<lparr>data_pipeline := (data_pipeline s)\<lparr>link_calls := []\<rparr>\<rparr>)"
| "link_handle (AclDisconnected reason) s = OnDisconnection reason s"
| "link_handle (AclEvent e) s = Some (handle_acl_event e s)"
| "link_handle (AclRead r) s = Some (handle_acl_read r s)"
| "link_handle DisconnectLink s = Some (link_Disconnect s)"
| "link_handle (ServicesChanged dynamic fixed) s = Some (s\<lparr>services := dynamic, fixed_service_map := fixed\<rparr>)"
| "link_handle (ListenForEncryption cid psm) s = Some (AddEncryptionChangeListener cid psm s)"

text \<open>The inputs that may end the outstanding command, and those that ask for a connection.\<close>

fun is_answer :: "control \<Rightarrow> bool" where
  "is_answer (CommandReject i reason body) = True"
| "is_answer (ConnectionResponse i dcid scid result status) = True"
| "is_answer (ConfigurationResponse i scid c result options) = True"
| "is_answer (DisconnectionResponse i dcid scid) = True"
| "is_answer (EchoResponse i payload) = True"
| "is_answer (InformationResponse i type result body) = True"
| "is_answer _ = False"

fun ends_command :: "link_input \<Rightarrow> bool" where
  "ends_command (Command c) = is_answer c"
| "ends_command CommandTimeout = True"
| "ends_command (AclDisconnected reason) = True"
| "ends_command _ = False"

fun asks_connection :: "link_input \<Rightarrow> bool" where
  "asks_connection (Connect psm conn) = True"
| "asks_connection (PendingChannels psms conns) = True"
| "asks_connection _ = False"

definition link_reach :: "classic_link \<Rightarrow> bool" where
  "link_reach s \<longleftrightarrow> (\<exists>dynamic fixed start inputs. Link dynamic fixed = Some start \<and> foldM link_handle inputs start = Some s)"

lemma link_reach_induct [consumes 1, case_names start step]:
  assumes "link_reach s" and "\<And>dynamic fixed s. Link dynamic fixed = Some s \<Longrightarrow> P s"
    and "\<And>e s s'. P s \<Longrightarrow> link_handle e s = Some s' \<Longrightarrow> P s'"
  shows "P s"
  using assms foldM_invariant [where P = P and f = link_handle] unfolding link_reach_def by metis

subsection \<open>What the signalling operations change\<close>

text \<open>The state without the queue of commands: what is left is the data side of the link.\<close>

definition data_part :: "classic_link \<Rightarrow> classic_link" where
  "data_part s = s\<lparr>sig_buffer := None, pending_commands := [],
     command_just_sent := \<lparr>signal_id = kInvalidSignalId, pending_code = NO_COMMAND, pending_psm = 0, source_cid = 0,
       destination_cid = 0, info_type = 0, pending_config = []\<rparr>, sig_alarm := None, next_signal_id := kInitialSignalId\<rparr>"

lemma data_part_update [simp]:
  "data_part (s\<lparr>sig_buffer := b\<rparr>) = data_part s" "data_part (s\<lparr>sig_alarm := a\<rparr>) = data_part s"
  "data_part (s\<lparr>command_just_sent := c\<rparr>) = data_part s" "data_part (s\<lparr>pending_commands := cs\<rparr>) = data_part s"
  "data_part (s\<lparr>next_signal_id := i\<rparr>) = data_part s" "data_part (CancelAlarm s) = data_part s"
  by (simp_all add: data_part_def CancelAlarm_def)

lemma data_part_sig_Enqueue: "sig_Enqueue c s = Some s' \<Longrightarrow> data_part s' = data_part s"
  by (auto simp: sig_Enqueue_def split: option.splits)

lemma data_part_send: "send_command s = Some s' \<Longrightarrow> data_part s' = data_part s"
  by (auto simp: send_command_def split: option.splits if_splits)

lemma data_part_send_request: "send_request c s = Some s' \<Longrightarrow> data_part s' = data_part s"
  by (auto simp: send_request_def bind_eq_Some_conv dest: data_part_sig_Enqueue)

lemma data_part_next: "handle_send_next_command s = Some s' \<Longrightarrow> data_part s' = data_part s"
  by (auto simp: handle_send_next_command_def Let_def split: list.splits CommandCode.splits dest!: data_part_send_request)

lemma data_part_push: "push_command f s = Some s' \<Longrightarrow> data_part s' = data_part s"
  by (auto simp: push_command_def Let_def split: if_splits dest!: data_part_next)

lemma data_part_eqD:
  assumes "data_part s' = data_part s"
  shows "channel_configuration s' = channel_configuration s" "fixed_channels s' = fixed_channels s"
    "dynamic_channels s' = dynamic_channels s" "data_pipeline s' = data_pipeline s" "idle_alarm s' = idle_alarm s"
    "used_by_security_module s' = used_by_security_module s" "pending_connections s' = pending_connections s"
    "pending_dynamic_channel_callback_list s' = pending_dynamic_channel_callback_list s" "link_log s' = link_log s"
    "services s' = services s" "remote_extended_feature_received s' = remote_extended_feature_received s"
    "remote_supports_fcs s' = remote_supports_fcs s"
    "pending_dynamic_psm_list s' = pending_dynamic_psm_list s"
    "pending_outgoing_configuration_request_list s' = pending_outgoing_configuration_request_list s"
  using assms by (auto simp: data_part_def dest: arg_cong [of _ _ channel_configuration] arg_cong [of _ _ fixed_channels]
      arg_cong [of _ _ dynamic_channels] arg_cong [of _ _ data_pipeline] arg_cong [of _ _ idle_alarm]
      arg_cong [of _ _ used_by_security_module] arg_cong [of _ _ pending_connections]
      arg_cong [of _ _ pending_dynamic_channel_callback_list] arg_cong [of _ _ link_log] arg_cong [of _ _ services]
      arg_cong [of _ _ remote_extended_feature_received] arg_cong [of _ _ remote_supports_fcs]
      arg_cong [of _ _ pending_dynamic_psm_list] arg_cong [of _ _ pending_outgoing_configuration_request_list])

subsection \<open>Invariants of all inputs\<close>

definition sendable :: "(SignalId \<Rightarrow> PendingCommand) \<Rightarrow> bool" where
  "sendable f \<longleftrightarrow> (\<forall>i. signal_id (f i) = i \<and>
     pending_code (f i) \<in> {CONNECTION_REQUEST, CONFIGURATION_REQUEST, DISCONNECTION_REQUEST, INFORMATION_REQUEST})"

fun is_callback :: "link_event \<Rightarrow> bool" where
  "is_callback (OpenCallback u cid) = True"
| "is_callback (FailCallback u result) = True"
| "is_callback _ = False"

definition configured :: "ChannelConfigurationState \<Rightarrow> bool" where
  "configured conf \<longleftrightarrow> config_state conf = CONFIGURED"

text \<open>The steps of the pipeline keep the attached channels.\<close>

definition attached :: "pipeline \<Rightarrow> Cid \<Rightarrow> bool" where
  "attached p cid \<longleftrightarrow> sender_map p cid \<noteq> None"

lemma attached_fields [simp]:
  "attached (p\<lparr>buffered_packets := b\<rparr>) = attached p" "attached (p\<lparr>buffer_timer := a\<rparr>) = attached p"
  "attached (p\<lparr>posted := q\<rparr>) = attached p" "attached (p\<lparr>link_calls := l\<rparr>) = attached p"
  "attached (p\<lparr>scheduler := f\<rparr>) = attached p"
  by (simp_all add: attached_def fun_eq_iff)

lemma attached_update: "sender_map p cid = Some t \<Longrightarrow> sender_map p' = (sender_map p)(cid \<mapsto> t') \<Longrightarrow> attached p' = attached p"
  by (auto simp: attached_def fun_eq_iff)

lemma attached_run_controller: "run_controller cid e p = Some p' \<Longrightarrow> attached p' = attached p"
  by (auto simp: run_controller_def bind_eq_Some_conv fold_apply_effect split: option.splits intro!: attached_update)

lemma attached_check_loop: "check_loop packets p = Some p' \<Longrightarrow> attached p' = attached p"
proof (induction packets arbitrary: p)
  case (Cons packet packets)
  let ?p = "p\<lparr>buffered_packets := packets\<rparr>"
  show ?case
  proof (cases "BasicFrameView packet")
    case None
    with Cons.prems show ?thesis by auto
  next
    case (Some f)
    show ?thesis
    proof (cases "GetDataController (fst f) ?p")
      case None
      with Some Cons.prems have "check_loop packets ?p = Some p'" by (simp add: case_prod_unfold)
      from Cons.IH [OF this] show ?thesis by simp
    next
      case (Some c)
      with \<open>BasicFrameView packet = Some f\<close> Cons.prems obtain q
        where q: "run_controller (fst f) (Pdu packet) ?p = Some q" "check_loop packets q = Some p'"
        by (auto simp: case_prod_unfold bind_eq_Some_conv)
      from Cons.IH [OF q(2)] attached_run_controller [OF q(1)] show ?thesis by simp
    qed
  qed
qed auto

lemma attached_run_posted: "run_posted p = Some p' \<Longrightarrow> attached p' = attached p"
  by (auto simp: run_posted_def bind_eq_Some_conv split: list.splits dest!: attached_run_controller)

lemma attached_send: "link_queue_enqueue_callback p = Some (pdu, p') \<Longrightarrow> attached p' = attached p"
  by (auto simp: link_queue_enqueue_callback_def pm_OnPacketSent_def s_OnPacketSent_def bind_eq_Some_conv Let_def
      split: if_splits intro!: attached_update)

lemma attached_pipeline_handle: "pipeline_handle e p = Some p' \<Longrightarrow> attached p' = attached p"
proof (cases e)
  case (PipeReceive packet)
  then show "pipeline_handle e p = Some p' \<Longrightarrow> attached p' = attached p"
    by (auto simp: link_queue_dequeue_callback_def split: option.splits dest!: attached_run_controller)
next
  case PipeReplay
  then show "pipeline_handle e p = Some p' \<Longrightarrow> attached p' = attached p"
    by (auto simp: check_buffered_packets_def dest!: attached_check_loop)
qed (auto simp: dequeue_callback_def split: option.splits dest!: attached_run_controller attached_run_posted attached_send
    intro!: attached_update)

text \<open>The loops over configuration options leave the state of the configuration alone.\<close>

lemma request_loop_state:
  "config_state (req_configuration (snd (request_loop m options a))) = config_state (req_configuration a)"
  by (induction m options a rule: request_loop.induct) (simp_all add: Let_def)

lemma response_loop_state: "config_state (snd (response_loop options conf)) = config_state conf"
  by (induction options conf rule: response_loop.induct) simp_all

lemma third_mode: "m \<noteq> MODE_BASIC \<Longrightarrow> m \<noteq> MODE_ERTM \<Longrightarrow> m = MODE_ERTM_OPTIONAL"
  by (cases m) simp_all

lemma third_end: "e \<noteq> Negotiated \<Longrightarrow> e \<noteq> DisconnectChannel \<Longrightarrow> e = Unsupported"
  by (cases e) simp_all

lemma negotiate_loop_state:
  "negotiate_loop service options n = Some (r, n') \<Longrightarrow>
     config_state (neg_configuration n') = config_state (neg_configuration n)"
  by (induction service options n rule: negotiate_loop.induct)
    (auto simp: bind_eq_Some_conv split: if_splits channel_mode.splits dest: third_mode)

lemma configuration_of_set [simp]:
  "configuration_of cid (set_configuration cid conf s) = conf"
  "cid' \<noteq> cid \<Longrightarrow> configuration_of cid' (set_configuration cid conf s) = configuration_of cid' s"
  by (simp_all add: configuration_of_def set_configuration_def)

lemma set_configuration_fields [simp]:
  "dynamic_channels (set_configuration cid conf s) = dynamic_channels s"
  by (simp add: set_configuration_def)

lemma erase_next: "handle_send_next_command (erase_configuration cid s) =
    map_option (erase_configuration cid) (handle_send_next_command s)"
  by (auto simp: handle_send_next_command_def erase_configuration_def send_request_def sig_Enqueue_def Let_def
      split: list.splits CommandCode.splits option.splits)

locale link_step_invariant =
  fixes P :: "classic_link \<Rightarrow> bool"
  assumes enqueue: "sig_Enqueue c s = Some s' \<Longrightarrow> P s \<Longrightarrow> P s'"
    and push: "push_command f s = Some s' \<Longrightarrow> sendable f \<Longrightarrow> P s \<Longrightarrow> P s'"
    and send: "send_command s = Some s' \<Longrightarrow> P s \<Longrightarrow> P s'"
    and log: "P s \<Longrightarrow> \<not> is_callback e \<Longrightarrow> P (log_event e s)"
    and features: "P s \<Longrightarrow> P (s\<lparr>remote_supports_ertm := x, remote_supports_fcs := y, remote_extended_feature_received := True\<rparr>)"
    and queued_requests: "P s \<Longrightarrow> P (s\<lparr>pending_outgoing_configuration_request_list := cids\<rparr>)"
    and encryption: "P s \<Longrightarrow> P (s\<lparr>encryption_enabled := e8\<rparr>)"
    and authentication: "P s \<Longrightarrow> P (s\<lparr>has_requested_authentication := True\<rparr>)"
    and role: "P s \<Longrightarrow> P (s\<lparr>link_role := r\<rparr>)"
    and service_managers: "P s \<Longrightarrow> P (s\<lparr>services := dynamic, fixed_service_map := fixed\<rparr>)"
    and listeners: "P s \<Longrightarrow> P (s\<lparr>encryption_change_listener := ls\<rparr>)"
    and packets: "P s \<Longrightarrow> P (s\<lparr>remaining_packets_to_be_sent := n\<rparr>)"
    and idle: "P s \<Longrightarrow> P (s\<lparr>idle_alarm := None\<rparr>)"
    and reserve: "ReserveDynamicChannel s = Some (cid, s') \<Longrightarrow> P s \<Longrightarrow> P s'"
    and request_failed: "OnOutgoingConnectionRequestFail cid result s = Some s' \<Longrightarrow> P s \<Longrightarrow> P s'"
    and allocate: "AllocateDynamicChannel psm rcid s = Some (new, s') \<Longrightarrow> P s \<Longrightarrow> P s'"
    and connect_pending: "connect_pending k s = Some s' \<Longrightarrow> P s \<Longrightarrow> P s'"
    and configure: "P s \<Longrightarrow> configured conf = configured (configuration_of cid s) \<Longrightarrow> P (set_configuration cid conf s)"
    and configured: "FindChannelByCid cid (dynamic_channels s) = Some ch \<Longrightarrow>
      \<not> configured (configuration_of cid s) \<Longrightarrow> channel_configured cid ch conf s = Some s' \<Longrightarrow> P s \<Longrightarrow> P s'"
    and close: "disconnect_channel cid ch s = Some s' \<Longrightarrow> FindChannelByCid cid (dynamic_channels s) = Some ch \<Longrightarrow> P s \<Longrightarrow>
      P (erase_configuration cid s')"
    and hold: "P s \<Longrightarrow> P (AcquireSecurityHold s)" "P s \<Longrightarrow> P (ReleaseSecurityHold s)"
    and fixed_hold: "fixed_channel_hold acquire cid s = Some s' \<Longrightarrow> P s \<Longrightarrow> P s'"
    and fixed: "AllocateFixedChannel cid s = Some s' \<Longrightarrow> P s \<Longrightarrow> P s'"
    and pipeline: "P s \<Longrightarrow> attached p = attached (data_pipeline s) \<Longrightarrow> P (s\<lparr>data_pipeline := p\<rparr>)"
begin

lemma requests:
  "send_configuration_request rcid config s = Some s' \<Longrightarrow> P s \<Longrightarrow> P s'"
  "sm_SendDisconnectionRequest cid rcid s = Some s' \<Longrightarrow> P s \<Longrightarrow> P s'"
  "sm_SendInformationRequest type s = Some s' \<Longrightarrow> P s \<Longrightarrow> P s'"
  unfolding send_configuration_request_def sm_SendDisconnectionRequest_def sm_SendInformationRequest_def
  by (auto elim!: push simp: sendable_def)

lemma connection_response: "send_connection_response i rcid cid result status s = Some s' \<Longrightarrow> P s \<Longrightarrow> P s'"
  unfolding send_connection_response_def by (rule enqueue)

lemma initial_request: "SendInitialConfigRequest cid s = Some s' \<Longrightarrow> P s \<Longrightarrow> P s'"
  unfolding SendInitialConfigRequest_def Let_def bind_eq_Some_conv
  by (elim exE conjE, erule requests, rule configure) (simp_all add: configured_def)

lemma initial_request_or_queue: "SendInitialConfigRequestOrQueue cid s = Some s' \<Longrightarrow> P s \<Longrightarrow> P s'"
  by (auto simp: SendInitialConfigRequestOrQueue_def split: if_splits intro: initial_request queued_requests)

lemma pending_requests: "send_pending_configuration_requests s = Some s' \<Longrightarrow> P s \<Longrightarrow> P s'"
  using foldM_invariant [where P = P and f = SendInitialConfigRequest] initial_request
  by (fastforce simp: send_pending_configuration_requests_def bind_eq_Some_conv intro: queued_requests)

lemma connect_loop: "connect_loop k s = Some s' \<Longrightarrow> P s \<longrightarrow> P s'"
proof (induction rule: connect_loop.raw_induct [rotated, consumes 1])
  case (1 loop k s s')
  then show ?case by (auto simp: bind_eq_Some_conv split: if_splits) (blast intro: connect_pending)
qed

lemma features_received: "OnRemoteExtendedFeatureReceived e f s = Some s' \<Longrightarrow> P s \<Longrightarrow> P s'"
  by (auto simp: OnRemoteExtendedFeatureReceived_def connect_to_pending_dynamic_channels_def bind_eq_Some_conv Let_def
      dest!: connect_loop intro: features pending_requests)

lemma encrypt: "P s \<Longrightarrow> P (Encrypt s)"
  by (simp add: Encrypt_def log)

lemma outgoing: "on_security_result_for_outgoing type psm cid result s = Some s' \<Longrightarrow> P s \<Longrightarrow> P s'"
  by (auto simp: on_security_result_for_outgoing_def bind_eq_Some_conv sendable_def
      split: if_splits intro: encrypt elim!: request_failed push)

lemma incoming: "on_security_result_for_incoming psm rcid i result s = Some s' \<Longrightarrow> P s \<Longrightarrow> P s'"
  by (auto simp: on_security_result_for_incoming_def bind_eq_Some_conv split: if_splits option.splits)
    (blast intro: allocate request_failed connection_response initial_request_or_queue)+

lemma connection_request: "OnConnectionRequest i psm rcid s = Some s' \<Longrightarrow> P s \<Longrightarrow> P s'"
  by (auto simp: OnConnectionRequest_def bind_eq_Some_conv split: if_splits intro: log elim!: connection_response)

lemma configuration_request: "OnConfigurationRequest i cid c options s = Some s' \<Longrightarrow> P s \<Longrightarrow> P s'"
proof (cases "FindChannelByCid cid (dynamic_channels s)")
  case None
  then show "OnConfigurationRequest i cid c options s = Some s' \<Longrightarrow> P s \<Longrightarrow> P s'"
    by (simp add: OnConfigurationRequest_def)
next
  case (Some ch)
  assume a: "OnConfigurationRequest i cid c options s = Some s'" "P s"
  obtain service where service: "dsm_GetService (dyn_psm ch) (services s) = Some service"
    using a(1) Some by (auto simp: OnConfigurationRequest_def bind_eq_Some_conv)
  obtain u x where x: "request_loop (minimal_remote_mtu (config_option service)) options
      \<lparr>req_configuration = configuration_of cid s, rsp_options = [], rsp_result = CONFIG_SUCCESS,
       remote_rfc_mode = L2CAP_BASIC\<rparr> = (u, x)" by fastforce
  then have state: "config_state (req_configuration x) = config_state (configuration_of cid s)"
    using request_loop_state [of "minimal_remote_mtu (config_option service)" options
        "\<lparr>req_configuration = configuration_of cid s, rsp_options = [], rsp_result = CONFIG_SUCCESS,
          remote_rfc_mode = L2CAP_BASIC\<rparr>"] by simp
  let ?s = "set_configuration cid (req_configuration x) s"
  have P: "P ?s" using a(2) state by (auto intro: configure simp: configured_def)
  have "P (set_configuration cid ((req_configuration x)\<lparr>config_state := WAIT_CONFIG_RSP\<rparr>) ?s)"
    if "config_state (req_configuration x) = WAIT_CONFIG_REQ_RSP" using P that by (auto intro!: configure simp: configured_def)
  moreover have "P t" if "channel_configured cid ch (req_configuration x) ?s = Some t"
      "config_state (req_configuration x) = WAIT_CONFIG_REQ" for t
    using P that Some by (auto elim!: configured [rotated 2] simp: configured_def)
  ultimately show "P s'"
    using a(1) P Some service x
    by (auto simp: OnConfigurationRequest_def bind_eq_Some_conv Let_def split: if_splits ConfigState.splits
        elim!: enqueue requests)
qed

lemma negotiate: "negotiate_configuration cid options s = Some s' \<Longrightarrow> P s \<Longrightarrow> P s'"
  by (auto simp: negotiate_configuration_def bind_eq_Some_conv Let_def configured_def
      split: negotiation_end.splits if_splits dest!: negotiate_loop_state dest: third_end
      intro!: configure elim!: requests)

lemma disconnection_request: "OnDisconnectionRequest i cid rcid s = Some s' \<Longrightarrow> P s \<Longrightarrow> P s'"
proof -
  have "P (erase_configuration cid u)"
    if "P s" "FindChannelByCid cid (dynamic_channels s) = Some ch" "sig_Enqueue x s = Some t" "disconnect_channel cid ch t = Some u"
    for ch x t u
  proof -
    have "dynamic_channels t = dynamic_channels s" using that(3) by (auto simp: sig_Enqueue_def split: option.splits)
    then show ?thesis using close [OF that(4)] that(2) enqueue [OF that(3,1)] by simp
  qed
  then show "OnDisconnectionRequest i cid rcid s = Some s' \<Longrightarrow> P s \<Longrightarrow> P s'"
    by (auto simp: OnDisconnectionRequest_def bind_eq_Some_conv split: option.splits)
qed

lemma information_request: "OnInformationRequest i type s = Some s' \<Longrightarrow> P s \<Longrightarrow> P s'"
  by (auto simp: OnInformationRequest_def split: if_splits elim!: enqueue)

lemma encryption_change: "OnEncryptionChange e s = Some s' \<Longrightarrow> P s \<Longrightarrow> P s'"
proof -
  assume a: "OnEncryptionChange e s = Some s'" "P s"
  have "P (log_event (Manager (ManagerOnEncryptionChange e)) (s\<lparr>encryption_enabled := e\<rparr>))"
    using a(2) by (auto intro: log encryption)
  then show "P s'"
    by (rule foldM_invariant [OF a(1) [unfolded OnEncryptionChange_def Let_def]]) (auto elim: outgoing)
qed

lemma calls: "foldM handle_link_call cs s = Some s' \<Longrightarrow> P s \<Longrightarrow> P s'"
proof (erule foldM_invariant [where P = P])
  show "P s \<Longrightarrow> handle_link_call c s = Some s' \<Longrightarrow> P s'" for c s s'
    by (cases c) (auto simp: link_OnPendingPacketChange_def Let_def intro: requests log packets)
qed

lemma close_dynamic: "close_dynamic_channel cid s = Some s' \<Longrightarrow> P s \<Longrightarrow> P s'"
  by (auto simp: close_dynamic_channel_def bind_eq_Some_conv split: option.splits elim!: requests)

lemma command_step: "handle_command c s = Some s' \<Longrightarrow> \<not> is_answer c \<Longrightarrow> P s \<Longrightarrow> P s'"
  by (cases c) (auto simp: OnEchoRequest_def split: if_splits
      elim!: connection_request configuration_request disconnection_request information_request enqueue)

lemma acl_event: "P s \<Longrightarrow> P (handle_acl_event e s)" "P s \<Longrightarrow> P (handle_acl_read r s)"
  by (cases e, auto simp: OnRoleDiscoveryComplete_def OnAuthenticationComplete_def OnReadClockOffsetComplete_def OnModeChange_def
      OnSniffSubrating_def OnReadRemoteVersionInformationComplete_def OnReadRemoteSupportedFeaturesComplete_def
      OnReadRemoteExtendedFeaturesComplete_def intro: log role)
    (cases r, auto simp: link_ReadRemoteVersionInformation_def link_ReadRemoteSupportedFeatures_def
      link_ReadRemoteExtendedFeatures_def link_ReadClockOffset_def intro: log)

lemma step: "link_handle e s = Some s' \<Longrightarrow> \<not> ends_command e \<Longrightarrow> \<not> asks_connection e \<Longrightarrow> P s \<Longrightarrow> P s'"
proof (cases e)
  case LinkCalls
  then show "link_handle e s = Some s' \<Longrightarrow> P s \<Longrightarrow> P s'"
    using calls pipeline [of s "(data_pipeline s)\<lparr>link_calls := []\<rparr>"] by simp
next
  case (Pipe x)
  then show "link_handle e s = Some s' \<Longrightarrow> P s \<Longrightarrow> P s'"
    by (auto dest!: attached_pipeline_handle intro!: pipeline)
next
  case IdleTimeout
  then show "link_handle e s = Some s' \<Longrightarrow> P s \<Longrightarrow> P s'"
    by (auto simp: idle_alarm_fires_def link_Disconnect_def intro: log idle split: option.splits)
next
  case EnsureAuthenticated
  then show "link_handle e s = Some s' \<Longrightarrow> P s \<Longrightarrow> P s'"
    using log [of "s\<lparr>has_requested_authentication := True\<rparr>" AuthenticationRequested] authentication [of s]
    by (auto simp: Authenticate_def)
next
  case (TxPriority cid high)
  then show "link_handle e s = Some s' \<Longrightarrow> P s \<Longrightarrow> P s'"
    by (auto simp: link_SetChannelTxPriority_def pm_SetChannelTxPriority_def intro!: pipeline)
qed (auto simp: OnRoleChange_def link_Disconnect_def AddEncryptionChangeListener_def
    intro: hold log role encrypt acl_event service_managers listeners
    elim!: command_step send outgoing incoming encryption_change close_dynamic requests fixed_hold fixed)

end

text \<open>
  The answers of the peer and the alarm end the outstanding command; they also cancel or set the alarm.
\<close>

locale link_invariant = link_step_invariant +
  assumes next_command: "handle_send_next_command s = Some s' \<Longrightarrow> P s \<Longrightarrow> P s'"
    and alarm: "P s \<Longrightarrow> P (s\<lparr>sig_alarm := a\<rparr>)"
    and forget: "P s \<Longrightarrow> P (s\<lparr>command_just_sent := (command_just_sent s)\<lparr>signal_id := kInvalidSignalId\<rparr>\<rparr>)"
    and connectionless_mtu: "P s \<Longrightarrow> P (s\<lparr>remote_connectionless_mtu := m\<rparr>)"
    and allocate_reserved: "AllocateReservedDynamicChannel cid psm rcid s = Some (new, s') \<Longrightarrow> P s \<Longrightarrow> P s'"
    and keys: "P s \<Longrightarrow> FindChannelByCid cid (dynamic_channels s) = Some ch \<Longrightarrow> dyn_cid ch = cid"
    and disconnected: "OnAclDisconnected status s = Some s' \<Longrightarrow> P s \<Longrightarrow> P s'"
begin

lemma cancel: "P s \<Longrightarrow> P (CancelAlarm s)"
  unfolding CancelAlarm_def by (rule alarm)

lemma command_reject: "OnCommandReject i s = Some s' \<Longrightarrow> P s \<Longrightarrow> P s'"
  by (auto simp: OnCommandReject_def bind_eq_Some_conv split: if_splits)
    (blast intro: cancel next_command features_received)+

lemma connection_answer: "OnConnectionResponse i rcid cid result status s = Some s' \<Longrightarrow> P s \<Longrightarrow> P s'"
  unfolding OnConnectionResponse_def Let_def
  by (auto simp: bind_eq_Some_conv simp del: Alarm_simps split: if_splits option.splits)
    (blast intro: alarm forget cancel next_command request_failed allocate_reserved initial_request_or_queue)+

lemma configuration_answer: "OnConfigurationResponse i cid c result options s = Some s' \<Longrightarrow> P s \<Longrightarrow> P s'"
proof (cases "FindChannelByCid cid (dynamic_channels s)")
  case None
  then show "OnConfigurationResponse i cid c result options s = Some s' \<Longrightarrow> P s \<Longrightarrow> P s'"
    by (auto simp: OnConfigurationResponse_def split: if_splits intro: next_command)
next
  case (Some ch)
  assume a: "OnConfigurationResponse i cid c result options s = Some s'" "P s"
  have cid: "dyn_cid ch = cid" using keys [OF a(2) Some] .
  obtain r conf where r: "response_loop options (configuration_of cid s) = (r, conf)" by fastforce
  then have state: "config_state conf = config_state (configuration_of cid s)"
    using response_loop_state [of options "configuration_of cid s"] by simp
  let ?s = "set_configuration cid conf s"
  have P: "P ?s" using a(2) state by (auto intro: configure simp: configured_def)
  have "P (set_configuration cid (conf\<lparr>config_state := WAIT_CONFIG_REQ\<rparr>) ?s)"
    if "config_state conf = WAIT_CONFIG_REQ_RSP" using P that by (auto intro!: configure simp: configured_def)
  moreover have "P t" if "channel_configured cid ch conf ?s = Some t" "config_state conf = WAIT_CONFIG_RSP" for t
    using P that Some by (auto elim!: configured [rotated 2] simp: configured_def)
  moreover have "P t" if "negotiate_configuration cid options (CancelAlarm s) = Some t" for t
    using that cancel [OF a(2)] by (rule negotiate)
  ultimately show "P s'"
    using a P Some r cid
    by (auto simp: OnConfigurationResponse_def bind_eq_Some_conv Let_def
        split: if_splits ConfigState.splits response_end.splits intro: alarm elim!: next_command requests intro!: cancel)
qed

lemma disconnection_answer: "OnDisconnectionResponse i rcid cid s = Some s' \<Longrightarrow> P s \<Longrightarrow> P s'"
proof -
  have "P (erase_configuration cid u)"
    if "P s" "FindChannelByCid cid (dynamic_channels (CancelAlarm s)) = Some ch" "disconnect_channel cid ch (CancelAlarm s) = Some t"
      "handle_send_next_command t = Some u" for ch t u
  proof -
    have "P (erase_configuration cid t)" using close [OF that(3,2)] cancel [OF that(1)] by simp
    then show ?thesis using that(4) next_command [of "erase_configuration cid t"] by (simp add: erase_next)
  qed
  then show "OnDisconnectionResponse i rcid cid s = Some s' \<Longrightarrow> P s \<Longrightarrow> P s'"
    by (auto simp: OnDisconnectionResponse_def bind_eq_Some_conv Let_def split: option.splits if_splits
        intro: cancel next_command)
qed

lemma information_answer: "OnInformationResponse i type body s = Some s' \<Longrightarrow> P s \<Longrightarrow> P s'"
  by (auto simp: OnInformationResponse_def bind_eq_Some_conv split: if_splits elim!: next_command features_received
      intro!: cancel connectionless_mtu)

lemma command: "handle_command c s = Some s' \<Longrightarrow> P s \<Longrightarrow> P s'"
proof (cases "is_answer c")
  case True
  then show "handle_command c s = Some s' \<Longrightarrow> P s \<Longrightarrow> P s'"
    by (cases c) (auto simp: OnEchoResponse_def split: if_splits elim!: command_reject connection_answer
        configuration_answer disconnection_answer information_answer next_command intro!: cancel)
qed (rule command_step)

lemma timeout: "sig_alarm_fires s = Some s' \<Longrightarrow> P s \<Longrightarrow> P s'"
  by (auto simp: sig_alarm_fires_def on_command_timeout_def bind_eq_Some_conv split: option.splits if_splits
      elim!: next_command features_received request_failed requests intro!: alarm)

lemma handle_other: "link_handle e s = Some s' \<Longrightarrow> \<not> asks_connection e \<Longrightarrow> P s \<Longrightarrow> P s'"
proof (cases "ends_command e")
  case True
  then show "link_handle e s = Some s' \<Longrightarrow> P s \<Longrightarrow> P s'"
    by (cases e) (auto simp: OnDisconnection_def intro: log elim!: command timeout disconnected)
qed (rule step)

end

locale link_run_invariant = link_invariant +
  assumes connect: "link_SendConnectionRequest psm cid conn s = Some s' \<Longrightarrow> P s \<Longrightarrow> P s'"
    and pending_channels: "SetPendingDynamicChannels psms conns s = Some s' \<Longrightarrow> P s \<Longrightarrow> P s'"
begin

lemma handle: "link_handle e s = Some s' \<Longrightarrow> P s \<Longrightarrow> P s'"
proof (cases "asks_connection e")
  case True
  then show "link_handle e s = Some s' \<Longrightarrow> P s \<Longrightarrow> P s'"
    by (cases e) (auto simp: bind_eq_Some_conv intro: pending_channels, blast intro: connect reserve)
qed (rule handle_other)

lemma reach:
  assumes "link_reach s" and "\<And>dynamic fixed s. Link dynamic fixed = Some s \<Longrightarrow> P s"
  shows "P s"
  using assms(1) by (induction rule: link_reach_induct) (auto intro: assms(2) handle)

end

end
