(* ===== verification/Classic_Books.thy ===== *)
theory Classic_Books
  imports Classic_Invariants
begin

text \<open>
  The data side of a classic link: what the operations do to the channel tables, the data pipeline
  and the idle alarm, and the invariants of every run: the tables are well formed, the channels of the
  pipeline are the fixed channels and the configured ones, and the idle alarm is never armed while the
  link is in use.
\<close>

subsection \<open>Invariants of the data side\<close>

definition core :: "classic_link \<Rightarrow> _" where
  "core s = (channel_configuration s, fixed_channels s, dynamic_channels s, data_pipeline s, idle_alarm s,
     used_by_security_module s, pending_connections s, pending_dynamic_channel_callback_list s,
     filter is_callback (link_log s))"

lemma core_data_part: "data_part s' = data_part s \<Longrightarrow> core s' = core s"
  unfolding core_def by (frule data_part_eqD(1), frule data_part_eqD(2), frule data_part_eqD(3), frule data_part_eqD(4),
      frule data_part_eqD(5), frule data_part_eqD(6), frule data_part_eqD(7), frule data_part_eqD(8),
      frule data_part_eqD(9)) simp

locale data_invariant =
  fixes P :: "classic_link \<Rightarrow> bool"
  assumes core: "core s' = core s \<Longrightarrow> P s \<Longrightarrow> P s'"
    and idle: "P s \<Longrightarrow> P (s\<lparr>idle_alarm := None\<rparr>)"
    and reserve: "ReserveDynamicChannel s = Some (cid, s') \<Longrightarrow> P s \<Longrightarrow> P s'"
    and request_failed: "OnOutgoingConnectionRequestFail cid result s = Some s' \<Longrightarrow> P s \<Longrightarrow> P s'"
    and allocate: "AllocateDynamicChannel psm rcid s = Some (new, s') \<Longrightarrow> P s \<Longrightarrow> P s'"
    and allocate_reserved: "AllocateReservedDynamicChannel cid psm rcid s = Some (new, s') \<Longrightarrow> P s \<Longrightarrow> P s'"
    and connect_pending: "connect_pending k s = Some s' \<Longrightarrow> P s \<Longrightarrow> P s'"
    and keys: "P s \<Longrightarrow> FindChannelByCid cid (dynamic_channels s) = Some ch \<Longrightarrow> dyn_cid ch = cid"
    and configure: "P s \<Longrightarrow> configured conf = configured (configuration_of cid s) \<Longrightarrow> P (set_configuration cid conf s)"
    and configured: "FindChannelByCid cid (dynamic_channels s) = Some ch \<Longrightarrow>
      \<not> configured (configuration_of cid s) \<Longrightarrow> channel_configured cid ch conf s = Some s' \<Longrightarrow> P s \<Longrightarrow> P s'"
    and close: "disconnect_channel cid ch s = Some s' \<Longrightarrow> FindChannelByCid cid (dynamic_channels s) = Some ch \<Longrightarrow> P s \<Longrightarrow>
      P (erase_configuration cid s')"
    and disconnected: "OnAclDisconnected status s = Some s' \<Longrightarrow> P s \<Longrightarrow> P s'"
    and hold: "P s \<Longrightarrow> P (AcquireSecurityHold s)" "P s \<Longrightarrow> P (ReleaseSecurityHold s)"
    and fixed_hold: "fixed_channel_hold acquire cid s = Some s' \<Longrightarrow> P s \<Longrightarrow> P s'"
    and fixed: "AllocateFixedChannel cid s = Some s' \<Longrightarrow> P s \<Longrightarrow> P s'"
    and pipeline: "P s \<Longrightarrow> attached p = attached (data_pipeline s) \<Longrightarrow> P (s\<lparr>data_pipeline := p\<rparr>)"
begin

lemma signalling: "data_part s' = data_part s \<Longrightarrow> P s \<Longrightarrow> P s'"
  by (rule core [OF core_data_part])

end

sublocale data_invariant < all: link_invariant
proof
  show "sig_Enqueue c s = Some s' \<Longrightarrow> P s \<Longrightarrow> P s'" for c s s'
    by (rule signalling [OF data_part_sig_Enqueue])
  show "push_command f s = Some s' \<Longrightarrow> sendable f \<Longrightarrow> P s \<Longrightarrow> P s'" for f s s'
    by (rule signalling [OF data_part_push])
  show "handle_send_next_command s = Some s' \<Longrightarrow> P s \<Longrightarrow> P s'" for s s'
    by (rule signalling [OF data_part_next])
  show "send_command s = Some s' \<Longrightarrow> P s \<Longrightarrow> P s'" for s s'
    by (rule signalling [OF data_part_send])
qed ((fact idle reserve request_failed allocate allocate_reserved connect_pending keys configure configured close
      disconnected hold fixed_hold fixed pipeline | (erule core [rotated], simp add: core_def log_event_def))+)

locale data_run_invariant = data_invariant +
  assumes connect: "link_SendConnectionRequest psm cid conn s = Some s' \<Longrightarrow> P s \<Longrightarrow> P s'"
    and pending_channels: "SetPendingDynamicChannels psms conns s = Some s' \<Longrightarrow> P s \<Longrightarrow> P s'"

sublocale data_run_invariant < run: link_run_invariant
  by unfold_locales (fact connect pending_channels)+

subsection \<open>What the operations change\<close>

lemma ASSERT_eq_Some [simp]: "ASSERT b = Some u \<longleftrightarrow> b"
  by (simp add: ASSERT_def)

text \<open>The part that connecting and failing to connect leave alone.\<close>

definition rest :: "classic_link \<Rightarrow> _" where
  "rest s = (channel_configuration s, fixed_channels s, data_pipeline s, idle_alarm s, used_by_security_module s)"

lemma rest_eqD:
  assumes "rest s' = rest s"
  shows "channel_configuration s' = channel_configuration s" "fixed_channels s' = fixed_channels s"
    "data_pipeline s' = data_pipeline s" "idle_alarm s' = idle_alarm s"
    "used_by_security_module s' = used_by_security_module s"
  using assms by (simp_all add: rest_def)

lemma effect_reserve:
  "ReserveDynamicChannel s = Some (cid, s') \<Longrightarrow> rest s' = rest s \<and>
     dyn_channels (dynamic_channels s') = dyn_channels (dynamic_channels s) \<and>
     used_remote_cid (dynamic_channels s') = used_remote_cid (dynamic_channels s)"
  by (auto simp: ReserveDynamicChannel_def ReserveChannel_def rest_def bind_eq_Some_conv split: if_splits)

lemma effect_request_failed:
  "OnOutgoingConnectionRequestFail cid result s = Some s' \<Longrightarrow>
     rest s' = rest s \<and> dynamic_channels s' = FreeChannel cid (dynamic_channels s)"
  by (auto simp: OnOutgoingConnectionRequestFail_def NotifyChannelFail_def invoke_fail_def erase_pending_def free_dynamic_def
      log_event_def rest_def bind_eq_Some_conv split: if_splits option.splits)

lemma effect_connect:
  "link_SendConnectionRequest psm cid conn s = Some s' \<Longrightarrow> rest s' = rest s \<and>
     (dynamic_channels s' = dynamic_channels s \<or> dynamic_channels s' = FreeChannel cid (dynamic_channels s))"
  by (auto simp: link_SendConnectionRequest_def sm_SendConnectionRequest_def invoke_fail_def free_dynamic_def log_event_def
      rest_def bind_eq_Some_conv split: if_splits option.splits)

lemma effect_connect_pending:
  assumes "connect_pending k s = Some s'"
  obtains cid a where "rest s' = rest s" "dyn_channels a = dyn_channels (dynamic_channels s)"
    "used_remote_cid a = used_remote_cid (dynamic_channels s)"
    "dynamic_channels s' = a \<or> dynamic_channels s' = FreeChannel cid a"
proof -
  obtain cid t conn where t: "ReserveDynamicChannel (take_callbacks k s) = Some (cid, t)"
    "link_SendConnectionRequest (pending_dynamic_psm_list t ! k) cid conn t = Some s'"
    using assms by (auto simp: connect_pending_def bind_eq_Some_conv)
  have "rest (take_callbacks k s) = rest s" "dynamic_channels (take_callbacks k s) = dynamic_channels s"
    by (simp_all add: take_callbacks_def rest_def)
  then show ?thesis using effect_reserve [OF t(1)] effect_connect [OF t(2)] that by metis
qed

lemma refresh_fields [simp]:
  "channel_configuration (RefreshRefCount s) = channel_configuration s" "fixed_channels (RefreshRefCount s) = fixed_channels s"
  "dynamic_channels (RefreshRefCount s) = dynamic_channels s" "data_pipeline (RefreshRefCount s) = data_pipeline s"
  "used_by_security_module (RefreshRefCount s) = used_by_security_module s"
  by (simp_all add: RefreshRefCount_def Let_def)

lemma effect_allocate:
  "AllocateDynamicChannel psm rcid s = Some (new, s') \<Longrightarrow>
     channel_configuration s' = channel_configuration s \<and> fixed_channels s' = fixed_channels s \<and>
     data_pipeline s' = data_pipeline s \<and> used_by_security_module s' = used_by_security_module s"
  by (auto simp: AllocateDynamicChannel_def bind_eq_Some_conv Let_def split: option.splits)

lemma effect_allocate_reserved:
  "AllocateReservedDynamicChannel cid psm rcid s = Some (new, s') \<Longrightarrow>
     channel_configuration s' = channel_configuration s \<and> fixed_channels s' = fixed_channels s \<and>
     data_pipeline s' = data_pipeline s \<and> used_by_security_module s' = used_by_security_module s"
  by (auto simp: AllocateReservedDynamicChannel_def bind_eq_Some_conv Let_def split: if_splits)

lemma effect_configured:
  "channel_configured cid ch conf s = Some s' \<Longrightarrow> fixed_channels s' = fixed_channels s \<and>
     dynamic_channels s' = dynamic_channels s \<and> idle_alarm s' = idle_alarm s \<and>
     used_by_security_module s' = used_by_security_module s \<and>
     channel_configuration s' = (channel_configuration s)(cid \<mapsto> conf\<lparr>config_state := CONFIGURED\<rparr>) \<and>
     \<not> attached (data_pipeline s) cid \<and> attached (data_pipeline s') = (attached (data_pipeline s))(cid := True)"
  by (auto simp: channel_configured_def NotifyChannelCreation_def log_event_def erase_pending_def set_configuration_def
      AttachChannel_def pm_UpdateClassicConfiguration_def attached_def fun_eq_iff bind_eq_Some_conv Let_def
      split: if_splits option.splits)

lemma FreeDynamicChannel_fields [simp]:
  "channel_configuration (FreeDynamicChannel cid s) = channel_configuration s"
  "fixed_channels (FreeDynamicChannel cid s) = fixed_channels s" "data_pipeline (FreeDynamicChannel cid s) = data_pipeline s"
  "used_by_security_module (FreeDynamicChannel cid s) = used_by_security_module s"
  by (simp_all add: FreeDynamicChannel_def free_dynamic_def)

lemma attached_detach: "DetachChannel cid p = Some p' \<Longrightarrow> attached p cid \<and> attached p' = (attached p)(cid := False)"
  by (auto simp: DetachChannel_def attached_def fun_eq_iff bind_eq_Some_conv Let_def)

lemma effect_close:
  assumes "disconnect_channel cid ch s = Some s'"
  obtains a p where "update_channel cid (dyn_OnClosed 0) (dynamic_channels s) = Some a"
    "if configured (configuration_of cid s) then DetachChannel cid (data_pipeline s) = Some p else p = data_pipeline s"
    "s' = FreeDynamicChannel cid ((set_configuration cid (configuration_of cid s) (s\<lparr>dynamic_channels := a\<rparr>))\<lparr>data_pipeline := p\<rparr>)"
proof -
  obtain a where a: "update_channel cid (dyn_OnClosed 0) (dynamic_channels s) = Some a"
    using assms by (auto simp: disconnect_channel_def bind_eq_Some_conv)
  have c: "configuration_of cid (s\<lparr>dynamic_channels := a\<rparr>) = configuration_of cid s" by (simp add: configuration_of_def)
  show ?thesis
  proof (cases "configured (configuration_of cid s)")
    case True
    then obtain p where "DetachChannel cid (data_pipeline s) = Some p"
      "s' = FreeDynamicChannel cid ((set_configuration cid (configuration_of cid s) (s\<lparr>dynamic_channels := a\<rparr>))\<lparr>data_pipeline := p\<rparr>)"
      using assms a c by (auto simp: disconnect_channel_def configured_def set_configuration_def bind_eq_Some_conv)
    then show ?thesis using that a True by simp
  next
    case False
    then have "s' = FreeDynamicChannel cid (set_configuration cid (configuration_of cid s) (s\<lparr>dynamic_channels := a\<rparr>))"
      using assms a c by (auto simp: disconnect_channel_def configured_def bind_eq_Some_conv)
    then show ?thesis using that [of a "data_pipeline s"] a False by (simp add: set_configuration_def)
  qed
qed

lemma effect_fixed:
  "AllocateFixedChannel cid s = Some s' \<Longrightarrow> dynamic_channels s' = dynamic_channels s \<and> idle_alarm s' = idle_alarm s \<and>
     channel_configuration s' = channel_configuration s \<and> used_by_security_module s' = used_by_security_module s \<and>
     (\<exists>ch. fixed_channels s' = fixed_channels s @ [(cid, ch)] \<and> \<not> acquired ch \<and> \<not> fix_closed ch) \<and>
     map_of (fixed_channels s) cid = None \<and>
     \<not> attached (data_pipeline s) cid \<and> attached (data_pipeline s') = (attached (data_pipeline s))(cid := True)"
  by (auto simp: AllocateFixedChannel_def fix_AllocateChannel_def FixedChannelImpl_def try_emplace_def AttachChannel_def
      attached_def fun_eq_iff bind_eq_Some_conv split: if_splits)

subsection \<open>The tables of dynamic channels\<close>

text \<open>
  Every channel is entered under its own identifier, both identifiers are valid, no two channels share
  one, and the set of remote identifiers in use is that of the channels.
\<close>

definition books_ok :: "dyn_alloc \<Rightarrow> bool" where
  "books_ok a \<longleftrightarrow> distinct (map fst (dyn_channels a)) \<and>
     (\<forall>(c, ch)\<in>set (dyn_channels a). dyn_cid ch = c \<and> 0 < c \<and> 0 < dyn_remote_cid ch) \<and>
     distinct (map (dyn_remote_cid \<circ> snd) (dyn_channels a)) \<and>
     used_remote_cid a = set (map (dyn_remote_cid \<circ> snd) (dyn_channels a))"

lemma books_alloc_ok: "books_ok a \<Longrightarrow> alloc_ok (a\<lparr>used_cid := UNIV\<rparr>)"
  by (auto simp: books_ok_def alloc_ok_def)

lemma books_cong:
  "dyn_channels a' = dyn_channels a \<Longrightarrow> used_remote_cid a' = used_remote_cid a \<Longrightarrow> books_ok a' = books_ok a"
  by (simp add: books_ok_def)

lemma books_find:
  assumes "books_ok a" "FindChannelByCid c a = Some ch"
  shows "dyn_cid ch = c" "(c, ch) \<in> set (dyn_channels a)"
  using assms by (auto simp: books_ok_def FindChannelByCid_def dest: map_of_SomeD)

lemma free_channels: "dyn_channels (FreeChannel c a) = filter (\<lambda>(k, _). k \<noteq> c) (dyn_channels a)"
proof (cases "map_of (dyn_channels a) c")
  case None
  then have "filter (\<lambda>(k, _). k \<noteq> c) (dyn_channels a) = dyn_channels a"
    by (intro filter_True) (auto simp: map_of_eq_None_iff image_iff)
  with None show ?thesis by (simp add: FreeChannel_def Let_def FindChannelByCid_def)
qed (simp add: FreeChannel_def Let_def FindChannelByCid_def)

lemma books_free: "books_ok a \<Longrightarrow> books_ok (FreeChannel c a)"
proof -
  assume ok: "books_ok a"
  let ?b = "a\<lparr>used_cid := UNIV\<rparr>"
  have "alloc_ok (FreeChannel c ?b)" by (rule FreeChannel_ok [OF books_alloc_ok [OF ok]])
  moreover have "dyn_channels (FreeChannel c ?b) = dyn_channels (FreeChannel c a)"
    "used_remote_cid (FreeChannel c ?b) = used_remote_cid (FreeChannel c a)"
    by (simp_all add: FreeChannel_def Let_def FindChannelByCid_def split: option.splits)
  moreover have "set (dyn_channels (FreeChannel c a)) \<subseteq> set (dyn_channels a)" by (auto simp: free_channels)
  ultimately show ?thesis using ok by (auto simp: books_ok_def alloc_ok_def)
qed

lemma books_add:
  assumes "books_ok a" "dyn_cid ch = cid" "0 < cid" "0 < dyn_remote_cid ch" "dyn_remote_cid ch \<notin> used_remote_cid a"
    "map_of (dyn_channels a) cid = None" "dyn_channels b = dyn_channels a @ [(cid, ch)]"
    "used_remote_cid b = insert (dyn_remote_cid ch) (used_remote_cid a)"
  shows "books_ok b"
  using assms by (auto simp: books_ok_def map_of_eq_None_iff)

lemma books_update:
  assumes ok: "books_ok a" and up: "update_channel cid f a = Some b"
    and f: "\<And>ch ch'. f ch = Some ch' \<Longrightarrow> dyn_cid ch' = dyn_cid ch \<and> dyn_remote_cid ch' = dyn_remote_cid ch"
  shows "books_ok b"
proof -
  obtain ch ch' where ch: "FindChannelByCid cid a = Some ch" "f ch = Some ch'"
    and b: "b = a\<lparr>dyn_channels := map (\<lambda>(c, x). if c = cid then (c, ch') else (c, x)) (dyn_channels a)\<rparr>"
    using up by (auto simp: update_channel_def bind_eq_Some_conv)
  have same: "x = ch" if "(cid, x) \<in> set (dyn_channels a)" for x
    using that ok ch(1) by (auto simp: books_ok_def FindChannelByCid_def)
  have fst: "map fst (dyn_channels b) = map fst (dyn_channels a)" by (auto simp: b)
  have remote: "map (dyn_remote_cid \<circ> snd) (dyn_channels b) = map (dyn_remote_cid \<circ> snd) (dyn_channels a)"
    using same f [OF ch(2)] by (auto simp: b)
  have "\<forall>(c, x)\<in>set (dyn_channels b). dyn_cid x = c \<and> 0 < c \<and> 0 < dyn_remote_cid x"
    using ok f [OF ch(2)] books_find [OF ok ch(1)] by (auto simp: b books_ok_def split: if_splits)
  moreover have "used_remote_cid b = used_remote_cid a" by (simp add: b)
  ultimately show ?thesis using ok unfolding books_ok_def fst remote by simp
qed

lemma closed_same: "dyn_OnClosed reason ch = Some ch' \<Longrightarrow> dyn_cid ch' = dyn_cid ch \<and> dyn_remote_cid ch' = dyn_remote_cid ch"
  by (auto simp: dyn_OnClosed_def bind_eq_Some_conv Let_def split: option.splits)

lemma close_all_same:
  "dyn_close_all reason chs = Some chs' \<Longrightarrow>
     map (\<lambda>(c, ch). (c, dyn_cid ch, dyn_remote_cid ch)) chs' = map (\<lambda>(c, ch). (c, dyn_cid ch, dyn_remote_cid ch)) chs"
  by (induction reason chs arbitrary: chs' rule: dyn_close_all.induct)
    (auto simp: bind_eq_Some_conv dest: closed_same)

lemma books_as_table:
  "books_ok a \<longleftrightarrow> (let xs = map (\<lambda>(c, ch). (c, dyn_cid ch, dyn_remote_cid ch)) (dyn_channels a) in
     distinct (map fst xs) \<and> (\<forall>(c, d, r)\<in>set xs. d = c \<and> 0 < c \<and> 0 < r) \<and>
     distinct (map (\<lambda>(c, d, r). r) xs) \<and> used_remote_cid a = set (map (\<lambda>(c, d, r). r) xs))"
  by (simp add: books_ok_def Let_def comp_def case_prod_unfold image_image)

lemma books_disconnected: "books_ok a \<Longrightarrow> dyn_OnAclDisconnected reason a = Some b \<Longrightarrow> books_ok b"
proof -
  assume ok: "books_ok a" and b: "dyn_OnAclDisconnected reason a = Some b"
  have "map (\<lambda>(c, ch). (c, dyn_cid ch, dyn_remote_cid ch)) (dyn_channels b) =
      map (\<lambda>(c, ch). (c, dyn_cid ch, dyn_remote_cid ch)) (dyn_channels a)" "used_remote_cid b = used_remote_cid a"
    using b by (auto simp: dyn_OnAclDisconnected_def bind_eq_Some_conv dest!: close_all_same)
  then show ?thesis using ok unfolding books_as_table by (simp only:)
qed

lemma new_channelD:
  "DynamicChannelImpl psm cid rcid = Some ch \<Longrightarrow>
     dyn_cid ch = cid \<and> dyn_remote_cid ch = rcid \<and> 0 < cid \<and> 0 < rcid \<and> dyn_psm ch = psm \<and> \<not> dyn_closed ch"
  by (auto simp: DynamicChannelImpl_def bind_eq_Some_conv)

lemma books_allocate: "AllocateChannel psm rcid a = Some (new, b) \<Longrightarrow> books_ok a \<Longrightarrow> books_ok b"
  by (auto simp: AllocateChannel_def try_emplace_def bind_eq_Some_conv split: if_splits dest!: new_channelD elim!: books_add)

lemma books_allocate_reserved: "AllocateReservedChannel cid psm rcid a = Some (new, b) \<Longrightarrow> books_ok a \<Longrightarrow> books_ok b"
  by (auto simp: AllocateReservedChannel_def try_emplace_def bind_eq_Some_conv split: if_splits dest!: new_channelD
      elim!: books_add)

lemma books_mark:
  "update_channel cid (\<lambda>ch. Some (ch\<lparr>local_initiated := x\<rparr>)) a = Some b \<Longrightarrow> books_ok a \<Longrightarrow> books_ok b"
  by (rule books_update [where f = "\<lambda>ch. Some (ch\<lparr>local_initiated := x\<rparr>)"]) auto

lemma books_dynamic:
  "AllocateDynamicChannel psm rcid s = Some (new, s') \<Longrightarrow> books_ok (dynamic_channels s) \<Longrightarrow> books_ok (dynamic_channels s')"
  by (auto simp: AllocateDynamicChannel_def bind_eq_Some_conv Let_def split: option.splits dest!: books_allocate books_mark)

lemma books_reserved:
  "AllocateReservedDynamicChannel cid psm rcid s = Some (new, s') \<Longrightarrow> books_ok (dynamic_channels s) \<Longrightarrow>
     books_ok (dynamic_channels s')"
  by (auto simp: AllocateReservedDynamicChannel_def bind_eq_Some_conv Let_def split: if_splits
      dest!: books_allocate_reserved books_mark)

lemma books_FreeDynamicChannel: "books_ok (dynamic_channels s) \<Longrightarrow> books_ok (dynamic_channels (FreeDynamicChannel cid s))"
  by (simp add: FreeDynamicChannel_def free_dynamic_def books_free)

lemma effect_disconnected:
  assumes "OnAclDisconnected status s = Some s'"
  shows "fix_OnAclDisconnected status (fixed_channels s) = Some (fixed_channels s')"
    "dyn_OnAclDisconnected status (dynamic_channels s) = Some (dynamic_channels s')"
    "channel_configuration s' = channel_configuration s" "data_pipeline s' = data_pipeline s" "idle_alarm s' = idle_alarm s"
    "used_by_security_module s' = used_by_security_module s"
proof -
  have frame: "fixed_channels u = fixed_channels t \<and> dynamic_channels u = dynamic_channels t \<and>
      channel_configuration u = channel_configuration t \<and> data_pipeline u = data_pipeline t \<and> idle_alarm u = idle_alarm t \<and>
      used_by_security_module u = used_by_security_module t"
    if "fail_pending result conns t = Some u" for result conns t u
    using that by (induction result conns t rule: fail_pending.induct)
      (auto simp: invoke_fail_def log_event_def bind_eq_Some_conv split: option.splits)
  show "fix_OnAclDisconnected status (fixed_channels s) = Some (fixed_channels s')"
    "dyn_OnAclDisconnected status (dynamic_channels s) = Some (dynamic_channels s')"
    "channel_configuration s' = channel_configuration s" "data_pipeline s' = data_pipeline s" "idle_alarm s' = idle_alarm s"
    "used_by_security_module s' = used_by_security_module s"
    using assms by (auto simp: OnAclDisconnected_def CancelAlarm_def bind_eq_Some_conv dest!: frame)
qed

lemma map_of_replace:
  "map_of (map (\<lambda>(c, x). if c = k then (c, v) else (c, x)) xs) c =
     (if c = k \<and> map_of xs k \<noteq> None then Some v else map_of xs c)"
  by (induction xs) auto

lemma effect_fixed_hold:
  assumes "fixed_channel_hold acquire cid s = Some s'"
  obtains f where "s' = s\<lparr>fixed_channels := f\<rparr> \<and> (distinct (map fst (fixed_channels s)) \<longrightarrow> f = fixed_channels s) \<or>
      s' = RefreshRefCount (s\<lparr>fixed_channels := f\<rparr>)" "map fst f = map fst (fixed_channels s)"
    "\<And>c. map_option fix_closed (map_of f c) = map_option fix_closed (map_of (fixed_channels s) c)"
proof -
  obtain ch ch' refresh where ch: "map_of (fixed_channels s) cid = Some ch"
      "(if acquire then fix_Acquire ch else fix_Release ch) = Some (ch', refresh)"
    and s': "s' = (let t = s\<lparr>fixed_channels := map (\<lambda>(c, x). if c = cid then (c, ch') else (c, x)) (fixed_channels s)\<rparr>
      in if refresh then RefreshRefCount t else t)"
    using assms by (auto simp: fixed_channel_hold_def fix_FindChannel_def bind_eq_Some_conv Let_def)
  let ?f = "map (\<lambda>(c, x). if c = cid then (c, ch') else (c, x)) (fixed_channels s)"
  have same: "refresh \<or> ch' = ch" and closed: "fix_closed ch' = fix_closed ch"
    using ch(2) by (auto simp: fix_Acquire_def fix_Release_def bind_eq_Some_conv split: if_splits)
  have "?f = fixed_channels s" if "distinct (map fst (fixed_channels s))" "ch' = ch"
    using that ch(1) by (intro map_idI) (auto dest: eq_key_imp_eq_value)
  with s' same have "s' = s\<lparr>fixed_channels := ?f\<rparr> \<and> (distinct (map fst (fixed_channels s)) \<longrightarrow> ?f = fixed_channels s) \<or>
      s' = RefreshRefCount (s\<lparr>fixed_channels := ?f\<rparr>)" by (auto simp: Let_def)
  moreover have "map fst ?f = map fst (fixed_channels s)" by auto
  moreover have "map_option fix_closed (map_of ?f c) = map_option fix_closed (map_of (fixed_channels s) c)" for c
    using ch(1) closed by (simp add: map_of_replace)
  ultimately show ?thesis by (rule that)
qed

subsection \<open>The invariants\<close>

definition tables_ok :: "classic_link \<Rightarrow> bool" where
  "tables_ok s \<longleftrightarrow> books_ok (dynamic_channels s) \<and> distinct (map fst (fixed_channels s))"

lemma tables_cong:
  "dynamic_channels s' = dynamic_channels s \<Longrightarrow> map fst (fixed_channels s') = map fst (fixed_channels s) \<Longrightarrow>
     tables_ok s' = tables_ok s"
  by (simp add: tables_ok_def)

lemma close_tables:
  assumes "disconnect_channel cid ch s = Some s'" "books_ok (dynamic_channels s)"
  shows "books_ok (dynamic_channels s')" "fixed_channels s' = fixed_channels s"
    "used_by_security_module s' = used_by_security_module s"
proof -
  obtain a p where c: "update_channel cid (dyn_OnClosed 0) (dynamic_channels s) = Some a"
    "s' = FreeDynamicChannel cid ((set_configuration cid (configuration_of cid s) (s\<lparr>dynamic_channels := a\<rparr>))\<lparr>data_pipeline := p\<rparr>)"
    using effect_close [OF assms(1)] by metis
  have "books_ok a" using books_update [OF assms(2) c(1)] closed_same by blast
  with c(2) show "books_ok (dynamic_channels s')" "fixed_channels s' = fixed_channels s"
    "used_by_security_module s' = used_by_security_module s"
    by (simp_all add: books_FreeDynamicChannel set_configuration_def)
qed

lemma fixed_disconnected_keys: "fix_OnAclDisconnected status f = Some f' \<Longrightarrow> map fst f' = map fst f"
  by (induction status f arbitrary: f' rule: fix_OnAclDisconnected.induct) (auto simp: bind_eq_Some_conv)

interpretation tables: data_run_invariant tables_ok
proof
  show "connect_pending k s = Some s' \<Longrightarrow> tables_ok s \<Longrightarrow> tables_ok s'" for k s s'
    using effect_connect_pending [of k s s'] by (metis books_cong books_free rest_eqD(2) tables_ok_def)
  show "fixed_channel_hold acquire cid s = Some s' \<Longrightarrow> tables_ok s \<Longrightarrow> tables_ok s'" for acquire cid s s'
    by (erule effect_fixed_hold) (auto simp: tables_ok_def)
  show "AllocateFixedChannel cid s = Some s' \<Longrightarrow> tables_ok s \<Longrightarrow> tables_ok s'" for cid s s'
    by (drule effect_fixed) (auto simp: tables_ok_def map_of_eq_None_iff)
  show "OnAclDisconnected status s = Some s' \<Longrightarrow> tables_ok s \<Longrightarrow> tables_ok s'" for status s s'
    by (frule effect_disconnected(1), drule effect_disconnected(2))
      (auto simp: tables_ok_def fixed_disconnected_keys intro: books_disconnected)
  show "ReserveDynamicChannel s = Some (cid, s') \<Longrightarrow> tables_ok s \<Longrightarrow> tables_ok s'" for s cid s'
    by (drule effect_reserve) (auto simp: tables_ok_def rest_def cong: books_cong)
  show "OnOutgoingConnectionRequestFail cid result s = Some s' \<Longrightarrow> tables_ok s \<Longrightarrow> tables_ok s'" for cid result s s'
    by (drule effect_request_failed) (auto simp: tables_ok_def rest_def books_free)
  show "link_SendConnectionRequest psm cid conn s = Some s' \<Longrightarrow> tables_ok s \<Longrightarrow> tables_ok s'" for psm cid conn s s'
    by (drule effect_connect) (auto simp: tables_ok_def rest_def books_free)
  show "disconnect_channel cid ch s = Some s' \<Longrightarrow> tables_ok s \<Longrightarrow> tables_ok (erase_configuration cid s')" for cid ch s s'
    using close_tables [of cid ch s s'] by (simp add: tables_ok_def erase_configuration_def)
qed (auto simp: tables_ok_def core_def set_configuration_def AcquireSecurityHold_def
    ReleaseSecurityHold_def SetPendingDynamicChannels_def bind_eq_Some_conv
    dest: effect_allocate effect_allocate_reserved effect_configured books_dynamic books_reserved books_find)

text \<open>Further invariants may rely on the tables.\<close>

locale tables_invariant =
  fixes Q :: "classic_link \<Rightarrow> bool"
  assumes core: "core s' = core s \<Longrightarrow> tables_ok s \<Longrightarrow> Q s \<Longrightarrow> Q s'"
    and idle: "tables_ok s \<Longrightarrow> Q s \<Longrightarrow> Q (s\<lparr>idle_alarm := None\<rparr>)"
    and reserve: "ReserveDynamicChannel s = Some (cid, s') \<Longrightarrow> tables_ok s \<Longrightarrow> Q s \<Longrightarrow> Q s'"
    and request_failed: "OnOutgoingConnectionRequestFail cid result s = Some s' \<Longrightarrow> tables_ok s \<Longrightarrow> Q s \<Longrightarrow> Q s'"
    and allocate: "AllocateDynamicChannel psm rcid s = Some (new, s') \<Longrightarrow> tables_ok s \<Longrightarrow> Q s \<Longrightarrow> Q s'"
    and allocate_reserved: "AllocateReservedDynamicChannel cid psm rcid s = Some (new, s') \<Longrightarrow> tables_ok s \<Longrightarrow> Q s \<Longrightarrow> Q s'"
    and connect: "link_SendConnectionRequest psm cid conn s = Some s' \<Longrightarrow> tables_ok s \<Longrightarrow> Q s \<Longrightarrow> Q s'"
    and take_callbacks: "tables_ok s \<Longrightarrow> Q s \<Longrightarrow> Q (take_callbacks k s)"
    and configure: "configured conf = configured (configuration_of cid s) \<Longrightarrow> tables_ok s \<Longrightarrow> Q s \<Longrightarrow> Q (set_configuration cid conf s)"
    and configured: "channel_configured cid ch conf s = Some s' \<Longrightarrow> FindChannelByCid cid (dynamic_channels s) = Some ch \<Longrightarrow>
      \<not> configured (configuration_of cid s) \<Longrightarrow> tables_ok s \<Longrightarrow> Q s \<Longrightarrow> Q s'"
    and close: "disconnect_channel cid ch s = Some s' \<Longrightarrow> FindChannelByCid cid (dynamic_channels s) = Some ch \<Longrightarrow>
      tables_ok s \<Longrightarrow> Q s \<Longrightarrow> Q (erase_configuration cid s')"
    and disconnected: "OnAclDisconnected status s = Some s' \<Longrightarrow> tables_ok s \<Longrightarrow> Q s \<Longrightarrow> Q s'"
    and hold: "tables_ok s \<Longrightarrow> Q s \<Longrightarrow> Q (AcquireSecurityHold s)" "tables_ok s \<Longrightarrow> Q s \<Longrightarrow> Q (ReleaseSecurityHold s)"
    and fixed_hold: "fixed_channel_hold acquire cid s = Some s' \<Longrightarrow> tables_ok s \<Longrightarrow> Q s \<Longrightarrow> Q s'"
    and fixed: "AllocateFixedChannel cid s = Some s' \<Longrightarrow> tables_ok s \<Longrightarrow> Q s \<Longrightarrow> Q s'"
    and pipeline: "attached p = attached (data_pipeline s) \<Longrightarrow> tables_ok s \<Longrightarrow> Q s \<Longrightarrow> Q (s\<lparr>data_pipeline := p\<rparr>)"
    and pending_channels: "SetPendingDynamicChannels psms conns s = Some s' \<Longrightarrow> tables_ok s \<Longrightarrow> Q s \<Longrightarrow> Q s'"
begin

lemma connect_pending: "connect_pending k s = Some s' \<Longrightarrow> tables_ok s \<Longrightarrow> Q s \<Longrightarrow> Q s'"
proof -
  assume a: "connect_pending k s = Some s'" "tables_ok s" "Q s"
  then obtain cid t conn where t: "ReserveDynamicChannel (take_callbacks k s) = Some (cid, t)"
    "link_SendConnectionRequest (pending_dynamic_psm_list t ! k) cid conn t = Some s'"
    by (auto simp: connect_pending_def bind_eq_Some_conv)
  have k: "tables_ok (take_callbacks k s)" "Q (take_callbacks k s)"
    using a(2) take_callbacks [OF a(2,3)] by (simp_all add: take_callbacks_def tables_ok_def)
  show "Q s'" by (rule connect [OF t(2) tables.reserve [OF t(1) k(1)] reserve [OF t(1) k]])
qed

end

sublocale tables_invariant < both: data_run_invariant "\<lambda>s. tables_ok s \<and> Q s"
proof
  fix s s'
  show "core s' = core s \<Longrightarrow> tables_ok s \<and> Q s \<Longrightarrow> tables_ok s' \<and> Q s'" using tables.core core by blast
  show "tables_ok s \<and> Q s \<Longrightarrow> FindChannelByCid cid (dynamic_channels s) = Some ch \<Longrightarrow> dyn_cid ch = cid" for cid ch
    using tables.keys by blast
qed (blast intro: idle reserve request_failed allocate allocate_reserved connect connect_pending configure configured close
    disconnected hold fixed_hold fixed pipeline pending_channels
    tables.idle tables.reserve tables.request_failed tables.allocate tables.allocate_reserved tables.connect
    tables.connect_pending tables.configure tables.configured tables.close tables.disconnected tables.hold
    tables.fixed_hold tables.fixed tables.pipeline tables.pending_channels)+

definition references :: "classic_link \<Rightarrow> nat" where
  "references s = GetRefCount (fixed_channels s) + NumberOfChannels (dynamic_channels s) +
     (if used_by_security_module s then 1 else 0)"

definition idle_ok :: "classic_link \<Rightarrow> bool" where
  "idle_ok s \<longleftrightarrow> (0 < references s \<longrightarrow> idle_alarm s = None)"

lemma idle_ok_refresh [simp]: "idle_ok (RefreshRefCount s)"
  by (simp add: idle_ok_def references_def RefreshRefCount_def Let_def)

lemma idle_ok_less: "idle_ok s \<Longrightarrow> idle_alarm s' = idle_alarm s \<Longrightarrow> references s' \<le> references s \<Longrightarrow> idle_ok s'"
  by (auto simp: idle_ok_def)

lemma idle_ok_core: "core s' = core s \<Longrightarrow> idle_ok s \<Longrightarrow> idle_ok s'"
  by (simp add: core_def idle_ok_def references_def)

lemma idle_ok_fields [simp]:
  "idle_ok (s\<lparr>idle_alarm := None\<rparr>)" "idle_ok (set_configuration cid conf s) = idle_ok s"
  "idle_ok (s\<lparr>data_pipeline := p\<rparr>) = idle_ok s" "idle_ok (AcquireSecurityHold s)" "idle_ok (ReleaseSecurityHold s)"
  by (simp_all add: idle_ok_def references_def set_configuration_def)
    (simp_all add: AcquireSecurityHold_def ReleaseSecurityHold_def RefreshRefCount_def Let_def)

lemma free_number: "NumberOfChannels (FreeChannel c a) \<le> NumberOfChannels a"
  by (simp add: NumberOfChannels_def free_channels)

lemma references_rest:
  "rest s' = rest s \<Longrightarrow> NumberOfChannels (dynamic_channels s') \<le> NumberOfChannels (dynamic_channels s) \<Longrightarrow>
     references s' \<le> references s"
  by (simp add: references_def rest_def)

lemma idle_rest:
  "idle_ok s \<Longrightarrow> rest s' = rest s \<Longrightarrow> NumberOfChannels (dynamic_channels s') \<le> NumberOfChannels (dynamic_channels s) \<Longrightarrow>
     idle_ok s'"
  using idle_ok_less [of s s'] references_rest [of s' s] rest_eqD(4) [of s' s] by simp

lemma update_number: "update_channel cid f a = Some b \<Longrightarrow> NumberOfChannels b = NumberOfChannels a"
  by (auto simp: update_channel_def NumberOfChannels_def bind_eq_Some_conv)

lemma idle_update: "idle_ok s \<Longrightarrow> NumberOfChannels a = NumberOfChannels (dynamic_channels s) \<Longrightarrow> idle_ok (s\<lparr>dynamic_channels := a\<rparr>)"
  by (simp add: idle_ok_def references_def)

lemma idle_allocate: "AllocateDynamicChannel psm rcid s = Some (new, s') \<Longrightarrow> idle_ok s \<Longrightarrow> idle_ok s'"
proof -
  have none: "AllocateChannel psm rcid b = Some (None, a) \<Longrightarrow> a = b" for a b
    by (auto simp: AllocateChannel_def bind_eq_Some_conv split: if_splits)
  show "AllocateDynamicChannel psm rcid s = Some (new, s') \<Longrightarrow> idle_ok s \<Longrightarrow> idle_ok s'"
    by (auto simp: AllocateDynamicChannel_def bind_eq_Some_conv Let_def split: option.splits
        dest!: none update_number intro!: idle_update)
qed

lemma idle_allocate_reserved: "AllocateReservedDynamicChannel cid psm rcid s = Some (new, s') \<Longrightarrow> idle_ok s \<Longrightarrow> idle_ok s'"
  by (auto simp: AllocateReservedDynamicChannel_def bind_eq_Some_conv Let_def split: if_splits
      dest!: update_number intro!: idle_update)

lemma close_all_length: "dyn_close_all reason chs = Some chs' \<Longrightarrow> length chs' = length chs"
  using arg_cong [OF close_all_same, of _ _ _ length] by simp

lemma disconnected_number: "dyn_OnAclDisconnected reason a = Some b \<Longrightarrow> NumberOfChannels b = NumberOfChannels a"
  by (auto simp: NumberOfChannels_def dyn_OnAclDisconnected_def bind_eq_Some_conv dest!: close_all_length)

lemma fixed_disconnected_refs: "fix_OnAclDisconnected status f = Some f' \<Longrightarrow> GetRefCount f' \<le> GetRefCount f"
  by (induction status f arbitrary: f' rule: fix_OnAclDisconnected.induct)
    (auto simp: bind_eq_Some_conv fix_OnClosed_def Let_def split: option.splits; fastforce)+

lemma refs_append: "GetRefCount (f @ g) = GetRefCount f + GetRefCount g"
  by (induction f rule: GetRefCount.induct) simp_all

lemma idle_close:
  assumes "disconnect_channel cid ch s = Some s'" "FindChannelByCid cid (dynamic_channels s) = Some ch"
  shows "idle_ok (erase_configuration cid s')"
proof -
  obtain a p where c: "update_channel cid (dyn_OnClosed 0) (dynamic_channels s) = Some a"
    "s' = FreeDynamicChannel cid ((set_configuration cid (configuration_of cid s) (s\<lparr>dynamic_channels := a\<rparr>))\<lparr>data_pipeline := p\<rparr>)"
    using effect_close [OF assms(1)] by metis
  have "FindChannelByCid cid a \<noteq> None"
    using c(1) assms(2) by (auto simp: update_channel_def FindChannelByCid_def map_of_replace bind_eq_Some_conv)
  then have "idle_ok s'" by (auto simp: c(2) FreeDynamicChannel_def set_configuration_def)
  then show ?thesis by (simp add: idle_ok_def references_def erase_configuration_def)
qed

lemma idle_fixed_hold:
  assumes "fixed_channel_hold acquire cid s = Some s'" "tables_ok s" "idle_ok s"
  shows "idle_ok s'"
proof -
  from assms(1) have "s' = s \<or> (\<exists>f. s' = RefreshRefCount (s\<lparr>fixed_channels := f\<rparr>))"
    by (rule effect_fixed_hold) (use assms(2) in \<open>auto simp: tables_ok_def\<close>)
  then show ?thesis using assms(3) by auto
qed

lemma idle_disconnected: "OnAclDisconnected status s = Some s' \<Longrightarrow> idle_ok s \<Longrightarrow> idle_ok s'"
  using effect_disconnected [of status s s'] fixed_disconnected_refs disconnected_number
  by (elim idle_ok_less) (simp_all add: references_def add_mono)

interpretation idle: tables_invariant idle_ok
proof
  fix s s'
  show "AllocateFixedChannel cid s = Some s' \<Longrightarrow> idle_ok s \<Longrightarrow> idle_ok s'" for cid
    using effect_fixed [of cid s s'] by (auto simp: idle_ok_def references_def refs_append)
  show "ReserveDynamicChannel s = Some (cid, s') \<Longrightarrow> idle_ok s \<Longrightarrow> idle_ok s'" for cid
    using effect_reserve [of s cid s'] idle_rest [of s s'] by (auto simp: NumberOfChannels_def)
  show "OnOutgoingConnectionRequestFail cid result s = Some s' \<Longrightarrow> idle_ok s \<Longrightarrow> idle_ok s'" for cid result
    using effect_request_failed [of cid result s s'] idle_rest [of s s'] free_number by auto
  show "link_SendConnectionRequest psm cid conn s = Some s' \<Longrightarrow> idle_ok s \<Longrightarrow> idle_ok s'" for psm cid conn
    using effect_connect [of psm cid conn s s'] idle_rest [of s s'] free_number by auto
  show "channel_configured cid ch conf s = Some s' \<Longrightarrow> idle_ok s \<Longrightarrow> idle_ok s'" for cid ch conf
    using effect_configured [of cid ch conf s s'] by (auto simp: idle_ok_def references_def)
  show "SetPendingDynamicChannels psms conns s = Some s' \<Longrightarrow> idle_ok s \<Longrightarrow> idle_ok s'" for psms conns
    by (auto simp: SetPendingDynamicChannels_def idle_ok_def references_def bind_eq_Some_conv)
  show "idle_ok s \<Longrightarrow> idle_ok (take_callbacks k s)" for k by (simp add: take_callbacks_def idle_ok_def references_def)
qed (simp_all, (blast intro: idle_ok_core idle_allocate idle_allocate_reserved idle_close idle_fixed_hold idle_disconnected)+)

text \<open>The channels of the pipeline: the fixed ones and the configured ones, and no channel is both.\<close>

definition pipeline_matches :: "classic_link \<Rightarrow> bool" where
  "pipeline_matches s \<longleftrightarrow> (\<forall>cid.
     (attached (data_pipeline s) cid \<longleftrightarrow> IsChannelAllocated cid (fixed_channels s) \<or> configured (configuration_of cid s)) \<and>
     \<not> (IsChannelAllocated cid (fixed_channels s) \<and> configured (configuration_of cid s)))"

lemma allocated_keys: "IsChannelAllocated cid f \<longleftrightarrow> cid \<in> set (map fst f)"
  by (auto simp: IsChannelAllocated_def map_of_eq_None_iff)

lemma matches_cong:
  "channel_configuration s' = channel_configuration s \<Longrightarrow> map fst (fixed_channels s') = map fst (fixed_channels s) \<Longrightarrow>
     attached (data_pipeline s') = attached (data_pipeline s) \<Longrightarrow> pipeline_matches s' = pipeline_matches s"
  unfolding pipeline_matches_def allocated_keys configuration_of_def by simp

lemma matches_rest: "rest s' = rest s \<Longrightarrow> pipeline_matches s' = pipeline_matches s"
  by (rule matches_cong) (simp_all add: rest_def)

lemma matches_close:
  assumes "disconnect_channel cid ch s = Some s'" "pipeline_matches s"
  shows "pipeline_matches (erase_configuration cid s')"
proof -
  obtain a p where p: "if configured (configuration_of cid s) then DetachChannel cid (data_pipeline s) = Some p else p = data_pipeline s"
    "s' = FreeDynamicChannel cid ((set_configuration cid (configuration_of cid s) (s\<lparr>dynamic_channels := a\<rparr>))\<lparr>data_pipeline := p\<rparr>)"
    using effect_close [OF assms(1)] by metis
  have "attached p c \<longleftrightarrow> (if c = cid \<and> configured (configuration_of cid s) then False else attached (data_pipeline s) c)" for c
    using p(1) attached_detach [of cid "data_pipeline s" p] by (auto split: if_splits)
  moreover have "configuration_of c (erase_configuration cid s') = (if c = cid then default_configuration else configuration_of c s)" for c
    by (simp add: p(2) erase_configuration_def configuration_of_def set_configuration_def)
  moreover have "\<not> configured default_configuration" by (simp add: configured_def default_configuration_def)
  ultimately show ?thesis
    using assms(2) by (auto simp: pipeline_matches_def p(2) erase_configuration_def set_configuration_def)
qed

interpretation matches: tables_invariant pipeline_matches
proof
  fix s s'
  show "core s' = core s \<Longrightarrow> pipeline_matches s \<Longrightarrow> pipeline_matches s'"
    using matches_cong [of s' s] by (simp add: core_def)
  show "ReserveDynamicChannel s = Some (cid, s') \<Longrightarrow> pipeline_matches s \<Longrightarrow> pipeline_matches s'" for cid
    using effect_reserve [of s cid s'] matches_rest [of s' s] by simp
  show "OnOutgoingConnectionRequestFail cid result s = Some s' \<Longrightarrow> pipeline_matches s \<Longrightarrow> pipeline_matches s'" for cid result
    using effect_request_failed [of cid result s s'] matches_rest [of s' s] by simp
  show "link_SendConnectionRequest psm cid conn s = Some s' \<Longrightarrow> pipeline_matches s \<Longrightarrow> pipeline_matches s'" for psm cid conn
    using effect_connect [of psm cid conn s s'] matches_rest [of s' s] by simp
  show "AllocateDynamicChannel psm rcid s = Some (new, s') \<Longrightarrow> pipeline_matches s \<Longrightarrow> pipeline_matches s'" for psm rcid new
    using effect_allocate [of psm rcid s new s'] matches_cong [of s' s] by simp
  show "AllocateReservedDynamicChannel cid psm rcid s = Some (new, s') \<Longrightarrow> pipeline_matches s \<Longrightarrow> pipeline_matches s'"
    for cid psm rcid new
    using effect_allocate_reserved [of cid psm rcid s new s'] matches_cong [of s' s] by simp
  show "configured conf = configured (configuration_of cid s) \<Longrightarrow> pipeline_matches s \<Longrightarrow>
      pipeline_matches (set_configuration cid conf s)" for conf cid
    by (auto simp: pipeline_matches_def configuration_of_def set_configuration_def)
  show "channel_configured cid ch conf s = Some s' \<Longrightarrow> pipeline_matches s \<Longrightarrow> pipeline_matches s'" for cid ch conf
    using effect_configured [of cid ch conf s s']
    by (auto simp: pipeline_matches_def configuration_of_def configured_def)
  show "OnAclDisconnected status s = Some s' \<Longrightarrow> pipeline_matches s \<Longrightarrow> pipeline_matches s'" for status
    using effect_disconnected [of status s s'] matches_cong [of s' s] fixed_disconnected_keys by simp
  show "fixed_channel_hold acquire cid s = Some s' \<Longrightarrow> pipeline_matches s \<Longrightarrow> pipeline_matches s'" for acquire cid
    by (erule effect_fixed_hold) (use matches_cong [of s' s] in auto)
  show "AllocateFixedChannel cid s = Some s' \<Longrightarrow> pipeline_matches s \<Longrightarrow> pipeline_matches s'" for cid
  proof -
    assume a: "AllocateFixedChannel cid s = Some s'" "pipeline_matches s"
    note e = effect_fixed [OF a(1)]
    have "IsChannelAllocated c (fixed_channels s') \<longleftrightarrow> c = cid \<or> IsChannelAllocated c (fixed_channels s)" for c
      using e by (auto simp: allocated_keys)
    moreover have "configuration_of c s' = configuration_of c s" for c using e by (simp add: configuration_of_def)
    ultimately show "pipeline_matches s'" using a(2) e by (auto simp: pipeline_matches_def)
  qed
  show "SetPendingDynamicChannels psms conns s = Some s' \<Longrightarrow> pipeline_matches s \<Longrightarrow> pipeline_matches s'" for psms conns
    using matches_cong [of s' s] by (auto simp: SetPendingDynamicChannels_def bind_eq_Some_conv)
  show "attached p = attached (data_pipeline s) \<Longrightarrow> pipeline_matches s \<Longrightarrow> pipeline_matches (s\<lparr>data_pipeline := p\<rparr>)" for p
    using matches_cong [of "s\<lparr>data_pipeline := p\<rparr>" s] by simp
  show "pipeline_matches s \<Longrightarrow> pipeline_matches (s\<lparr>idle_alarm := None\<rparr>)" using matches_cong [of "s\<lparr>idle_alarm := None\<rparr>" s] by simp
  show "pipeline_matches s \<Longrightarrow> pipeline_matches (take_callbacks k s)" for k
    using matches_cong [of "take_callbacks k s" s] by (simp add: take_callbacks_def)
  show "pipeline_matches s \<Longrightarrow> pipeline_matches (AcquireSecurityHold s)" "pipeline_matches s \<Longrightarrow> pipeline_matches (ReleaseSecurityHold s)"
    using matches_cong [of "AcquireSecurityHold s" s] matches_cong [of "ReleaseSecurityHold s" s]
    by (simp_all add: AcquireSecurityHold_def ReleaseSecurityHold_def)
qed (rule matches_close)

text \<open>Until the ACL connection is gone, which closes the signalling channel, no channel is closed.\<close>

definition signalling_open :: "classic_link \<Rightarrow> bool" where
  "signalling_open s \<longleftrightarrow> map_option fix_closed (map_of (fixed_channels s) kClassicSignallingCid) = Some False"

definition all_open :: "dyn_alloc \<Rightarrow> bool" where
  "all_open a \<longleftrightarrow> (\<forall>(c, x)\<in>set (dyn_channels a). \<not> dyn_closed x)"

definition open_ok :: "classic_link \<Rightarrow> bool" where
  "open_ok s \<longleftrightarrow> IsChannelAllocated kClassicSignallingCid (fixed_channels s) \<and>
     (signalling_open s \<longrightarrow> all_open (dynamic_channels s))"

lemma open_less:
  assumes "open_ok s" and "map_option fix_closed (map_of (fixed_channels s') kClassicSignallingCid) =
       map_option fix_closed (map_of (fixed_channels s) kClassicSignallingCid)"
    and "all_open (dynamic_channels s) \<Longrightarrow> all_open (dynamic_channels s')"
  shows "open_ok s'"
proof -
  have "IsChannelAllocated kClassicSignallingCid (fixed_channels s') = IsChannelAllocated kClassicSignallingCid (fixed_channels s)"
    using arg_cong [OF assms(2), of "\<lambda>x. x = None"] by (simp add: IsChannelAllocated_def)
  moreover have "signalling_open s' = signalling_open s" using assms(2) by (simp add: signalling_open_def)
  ultimately show ?thesis using assms(1,3) by (simp add: open_ok_def)
qed

lemma all_open_free: "all_open a \<Longrightarrow> all_open (FreeChannel c a)"
  by (auto simp: all_open_def free_channels)

lemma all_open_cong: "dyn_channels a = dyn_channels b \<Longrightarrow> all_open a = all_open b"
  by (simp add: all_open_def)

lemma all_open_mark: "update_channel cid (\<lambda>ch. Some (ch\<lparr>local_initiated := x\<rparr>)) a = Some b \<Longrightarrow> all_open a \<Longrightarrow> all_open b"
  by (fastforce simp: update_channel_def all_open_def FindChannelByCid_def bind_eq_Some_conv split: if_splits dest: map_of_SomeD)

lemma all_open_allocate: "AllocateChannel psm rcid a = Some (new, b) \<Longrightarrow> all_open a \<Longrightarrow> all_open b"
  by (auto simp: AllocateChannel_def try_emplace_def all_open_def bind_eq_Some_conv split: if_splits dest!: new_channelD)

lemma all_open_allocate_reserved: "AllocateReservedChannel cid psm rcid a = Some (new, b) \<Longrightarrow> all_open a \<Longrightarrow> all_open b"
  by (auto simp: AllocateReservedChannel_def try_emplace_def all_open_def bind_eq_Some_conv split: if_splits dest!: new_channelD)

lemma all_open_closed: "update_channel cid (dyn_OnClosed r) a = Some b \<Longrightarrow> all_open a \<Longrightarrow> all_open (FreeChannel cid b)"
  by (fastforce simp: update_channel_def all_open_def free_channels bind_eq_Some_conv split: if_splits)

lemma all_open_rest:
  "rest s' = rest s \<Longrightarrow> open_ok s \<Longrightarrow> (all_open (dynamic_channels s) \<Longrightarrow> all_open (dynamic_channels s')) \<Longrightarrow> open_ok s'"
  using rest_eqD(2) [of s' s] open_less [of s s'] by simp

lemma open_allocate: "AllocateDynamicChannel psm rcid s = Some (new, s') \<Longrightarrow> open_ok s \<Longrightarrow> open_ok s'"
  using effect_allocate [of psm rcid s new s']
  by (elim open_less) (auto simp: AllocateDynamicChannel_def bind_eq_Some_conv Let_def split: option.splits
      dest!: all_open_allocate all_open_mark)

lemma open_allocate_reserved: "AllocateReservedDynamicChannel cid psm rcid s = Some (new, s') \<Longrightarrow> open_ok s \<Longrightarrow> open_ok s'"
  using effect_allocate_reserved [of cid psm rcid s new s']
  by (elim open_less) (auto simp: AllocateReservedDynamicChannel_def bind_eq_Some_conv Let_def split: if_splits
      dest: all_open_allocate_reserved all_open_mark)

lemma find_updated: "update_channel cid f a = Some b \<Longrightarrow> FindChannelByCid cid b \<noteq> None"
  by (auto simp: update_channel_def FindChannelByCid_def map_of_replace bind_eq_Some_conv)

lemma open_close:
  assumes "disconnect_channel cid ch s = Some s'" "open_ok s"
  shows "open_ok (erase_configuration cid s')"
proof -
  obtain a p where p: "update_channel cid (dyn_OnClosed 0) (dynamic_channels s) = Some a"
    "s' = FreeDynamicChannel cid ((set_configuration cid (configuration_of cid s) (s\<lparr>dynamic_channels := a\<rparr>))\<lparr>data_pipeline := p\<rparr>)"
    using effect_close [OF assms(1)] by metis
  have "dynamic_channels s' = FreeChannel cid a"
    using find_updated [OF p(1)] by (auto simp: p(2) FreeDynamicChannel_def free_dynamic_def set_configuration_def)
  then show ?thesis
    using open_less [OF assms(2), of "erase_configuration cid s'"] all_open_closed [OF p(1)]
    by (simp add: erase_configuration_def p(2) set_configuration_def)
qed

lemma open_disconnected: "OnAclDisconnected status s = Some s' \<Longrightarrow> open_ok s \<Longrightarrow> open_ok s'"
proof -
  assume d: "OnAclDisconnected status s = Some s'" "open_ok s"
  have closed: "fix_OnAclDisconnected status f = Some f' \<Longrightarrow> map_of f c \<noteq> None \<Longrightarrow> map_option fix_closed (map_of f' c) = Some True" for f f' c
    by (induction status f arbitrary: f' rule: fix_OnAclDisconnected.induct)
      (auto simp: bind_eq_Some_conv fix_OnClosed_def Let_def split: if_splits option.splits)
  show "open_ok s'"
    using d(2) closed [OF effect_disconnected(1) [OF d(1)], of kClassicSignallingCid]
    by (auto simp: open_ok_def signalling_open_def IsChannelAllocated_def)
qed

interpretation opened: tables_invariant open_ok
proof
  fix s s'
  show "core s' = core s \<Longrightarrow> open_ok s \<Longrightarrow> open_ok s'" using open_less [of s s'] by (simp add: core_def)
  show "ReserveDynamicChannel s = Some (cid, s') \<Longrightarrow> open_ok s \<Longrightarrow> open_ok s'" for cid
    using effect_reserve [of s cid s'] all_open_rest [of s' s] all_open_cong by blast
  show "OnOutgoingConnectionRequestFail cid result s = Some s' \<Longrightarrow> open_ok s \<Longrightarrow> open_ok s'" for cid result
    using effect_request_failed [of cid result s s'] all_open_rest [of s' s] all_open_free by simp
  show "link_SendConnectionRequest psm cid conn s = Some s' \<Longrightarrow> open_ok s \<Longrightarrow> open_ok s'" for psm cid conn
    using effect_connect [of psm cid conn s s'] all_open_rest [of s' s] all_open_free by auto
  show "channel_configured cid ch conf s = Some s' \<Longrightarrow> open_ok s \<Longrightarrow> open_ok s'" for cid ch conf
    using effect_configured [of cid ch conf s s'] open_less [of s s'] by simp
  show "AllocateFixedChannel cid s = Some s' \<Longrightarrow> open_ok s \<Longrightarrow> open_ok s'" for cid
    using effect_fixed [of cid s s'] by (auto simp: open_ok_def signalling_open_def IsChannelAllocated_def)
  show "fixed_channel_hold acquire cid s = Some s' \<Longrightarrow> open_ok s \<Longrightarrow> open_ok s'" for acquire cid
    by (erule effect_fixed_hold) (use open_less [of s s'] in auto)
  show "SetPendingDynamicChannels psms conns s = Some s' \<Longrightarrow> open_ok s \<Longrightarrow> open_ok s'" for psms conns
    using open_less [of s s'] by (auto simp: SetPendingDynamicChannels_def bind_eq_Some_conv)
  show "open_ok s \<Longrightarrow> open_ok (s\<lparr>data_pipeline := p\<rparr>)" for p by (erule open_less) simp_all
  show "open_ok s \<Longrightarrow> open_ok (s\<lparr>idle_alarm := None\<rparr>)" by (erule open_less) simp_all
  show "open_ok s \<Longrightarrow> open_ok (take_callbacks k s)" for k by (erule open_less) (simp_all add: take_callbacks_def)
  show "open_ok s \<Longrightarrow> open_ok (set_configuration cid conf s)" for cid conf
    by (erule open_less) (simp_all add: set_configuration_def)
  show "open_ok s \<Longrightarrow> open_ok (AcquireSecurityHold s)" "open_ok s \<Longrightarrow> open_ok (ReleaseSecurityHold s)"
    by (erule open_less; simp add: AcquireSecurityHold_def ReleaseSecurityHold_def)+
qed (fact open_allocate open_allocate_reserved open_close open_disconnected | blast intro: open_allocate open_allocate_reserved open_close open_disconnected)+

end
