(* ===== verification/Classic_Signalling.thy ===== *)
theory Classic_Signalling
  imports Classic_Books
begin

text \<open>
  The command queue of a classic link.  In every run the outstanding and the waiting commands have
  consecutive identifiers and can all be sent, and the queue moves: while a command is outstanding the
  alarm is armed, and otherwise nothing waits.  The inputs that break the second are listed in \<open>stalls\<close>.
\<close>

subsection \<open>Invariants of the queue\<close>

definition queue_part :: "classic_link \<Rightarrow> _" where
  "queue_part s = (sig_buffer s, pending_commands s, command_just_sent s, sig_alarm s, next_signal_id s)"

lemma queue_part_fields [simp]:
  "queue_part (set_configuration cid conf s) = queue_part s" "queue_part (erase_configuration cid s) = queue_part s"
  "queue_part (log_event e s) = queue_part s" "queue_part (free_dynamic cid s) = queue_part s"
  "queue_part (erase_pending cid s) = queue_part s" "queue_part (RefreshRefCount s) = queue_part s"
  "queue_part (FreeDynamicChannel cid s) = queue_part s" "queue_part (s\<lparr>data_pipeline := p\<rparr>) = queue_part s"
  "queue_part (s\<lparr>dynamic_channels := a\<rparr>) = queue_part s" "queue_part (s\<lparr>fixed_channels := f\<rparr>) = queue_part s"
  "queue_part (take_callbacks k s) = queue_part s" "queue_part (AcquireSecurityHold s) = queue_part s"
  "queue_part (ReleaseSecurityHold s) = queue_part s" "queue_part (s\<lparr>pending_connections := conns\<rparr>) = queue_part s"
  by (simp_all add: queue_part_def set_configuration_def erase_configuration_def log_event_def free_dynamic_def
      erase_pending_def RefreshRefCount_def FreeDynamicChannel_def take_callbacks_def AcquireSecurityHold_def
      ReleaseSecurityHold_def Let_def)

lemma queue_failed: "invoke_fail conn result s = Some s' \<Longrightarrow> queue_part s' = queue_part s"
  by (auto simp: invoke_fail_def split: option.splits)

lemma queue_request_failed: "OnOutgoingConnectionRequestFail cid result s = Some s' \<Longrightarrow> queue_part s' = queue_part s"
  by (auto simp: OnOutgoingConnectionRequestFail_def NotifyChannelFail_def bind_eq_Some_conv split: if_splits dest!: queue_failed)

lemma queue_reserve: "ReserveDynamicChannel s = Some (cid, s') \<Longrightarrow> queue_part s' = queue_part s"
  by (auto simp: ReserveDynamicChannel_def bind_eq_Some_conv)

lemma queue_allocate: "AllocateDynamicChannel psm rcid s = Some (new, s') \<Longrightarrow> queue_part s' = queue_part s"
  by (auto simp: AllocateDynamicChannel_def bind_eq_Some_conv Let_def split: option.splits)

lemma queue_allocate_reserved:
  "AllocateReservedDynamicChannel cid psm rcid s = Some (new, s') \<Longrightarrow> queue_part s' = queue_part s"
  by (auto simp: AllocateReservedDynamicChannel_def bind_eq_Some_conv Let_def split: if_splits)

lemma queue_connect: "link_SendConnectionRequest psm cid conn s = Some s' \<Longrightarrow> queue_part s' = queue_part s"
  by (auto simp: link_SendConnectionRequest_def sm_SendConnectionRequest_def bind_eq_Some_conv queue_part_def
      free_dynamic_def log_event_def invoke_fail_def split: if_splits option.splits)

lemma queue_connect_pending: "connect_pending k s = Some s' \<Longrightarrow> queue_part s' = queue_part s"
  by (auto simp: connect_pending_def bind_eq_Some_conv dest!: queue_reserve queue_connect)

lemma queue_configured: "channel_configured cid ch conf s = Some s' \<Longrightarrow> queue_part s' = queue_part s"
  by (auto simp: channel_configured_def NotifyChannelCreation_def bind_eq_Some_conv Let_def split: if_splits option.splits)

lemma queue_close: "disconnect_channel cid ch s = Some s' \<Longrightarrow> queue_part s' = queue_part s"
  by (elim effect_close) simp

lemma queue_fixed_hold: "fixed_channel_hold acquire cid s = Some s' \<Longrightarrow> queue_part s' = queue_part s"
  by (elim effect_fixed_hold) auto

lemma queue_fixed: "AllocateFixedChannel cid s = Some s' \<Longrightarrow> queue_part s' = queue_part s"
  by (auto simp: AllocateFixedChannel_def bind_eq_Some_conv queue_part_def)

lemma queue_disconnected: "OnAclDisconnected status s = Some s' \<Longrightarrow> queue_part s' = queue_part (CancelAlarm s)"
proof -
  have fail: "fail_pending result conns t = Some u \<Longrightarrow> queue_part u = queue_part t" for result conns t u
    by (induction result conns t rule: fail_pending.induct) (auto simp: bind_eq_Some_conv queue_failed)
  show "OnAclDisconnected status s = Some s' \<Longrightarrow> queue_part s' = queue_part (CancelAlarm s)"
    by (auto simp: OnAclDisconnected_def Let_def bind_eq_Some_conv queue_part_def dest!: fail)
qed

lemma queue_pending_channels: "SetPendingDynamicChannels psms conns s = Some s' \<Longrightarrow> queue_part s' = queue_part s"
  by (auto simp: SetPendingDynamicChannels_def bind_eq_Some_conv queue_part_def)

lemmas [l2cap_frame] = queue_request_failed queue_reserve queue_allocate queue_allocate_reserved queue_connect queue_connect_pending
  queue_configured queue_close queue_fixed_hold queue_fixed queue_pending_channels

text \<open>A predicate of the queue alone is kept by all inputs when the few operations of the queue keep it.\<close>

locale queue_step_invariant =
  fixes Q :: "classic_link \<Rightarrow> bool"
  assumes frame: "queue_part s' = queue_part s \<Longrightarrow> Q s \<Longrightarrow> Q s'"
    and enqueue: "sig_Enqueue c s = Some s' \<Longrightarrow> Q s \<Longrightarrow> Q s'"
    and push: "push_command f s = Some s' \<Longrightarrow> sendable f \<Longrightarrow> Q s \<Longrightarrow> Q s'"
    and send: "send_command s = Some s' \<Longrightarrow> Q s \<Longrightarrow> Q s'"

sublocale queue_step_invariant < step: link_step_invariant "\<lambda>s. tables_ok s \<and> Q s"
proof
  fix s s'
  show "sig_Enqueue c s = Some s' \<Longrightarrow> tables_ok s \<and> Q s \<Longrightarrow> tables_ok s' \<and> Q s'" for c
    using tables.all.enqueue enqueue by blast
  show "push_command f s = Some s' \<Longrightarrow> sendable f \<Longrightarrow> tables_ok s \<and> Q s \<Longrightarrow> tables_ok s' \<and> Q s'" for f
    using tables.all.push push by blast
  show "send_command s = Some s' \<Longrightarrow> tables_ok s \<and> Q s \<Longrightarrow> tables_ok s' \<and> Q s'"
    using tables.all.send send by blast
  show "ReserveDynamicChannel s = Some (cid, s') \<Longrightarrow> tables_ok s \<and> Q s \<Longrightarrow> tables_ok s' \<and> Q s'" for cid
    using tables.reserve frame [OF queue_reserve] by blast
  show "OnOutgoingConnectionRequestFail cid result s = Some s' \<Longrightarrow> tables_ok s \<and> Q s \<Longrightarrow> tables_ok s' \<and> Q s'" for cid result
    using tables.request_failed frame [OF queue_request_failed] by blast
  show "AllocateDynamicChannel psm rcid s = Some (new, s') \<Longrightarrow> tables_ok s \<and> Q s \<Longrightarrow> tables_ok s' \<and> Q s'" for psm rcid new
    using tables.allocate frame [OF queue_allocate] by blast
  show "connect_pending k s = Some s' \<Longrightarrow> tables_ok s \<and> Q s \<Longrightarrow> tables_ok s' \<and> Q s'" for k
    using tables.connect_pending frame [OF queue_connect_pending] by blast
  show "channel_configured cid ch conf s = Some s' \<Longrightarrow> tables_ok s \<and> Q s \<Longrightarrow> tables_ok s' \<and> Q s'"
    if "FindChannelByCid cid (dynamic_channels s) = Some ch" "\<not> configured (configuration_of cid s)" for cid ch conf
    using tables.configured [OF that] frame [OF queue_configured] by blast
  show "tables_ok s \<and> Q s \<Longrightarrow> tables_ok (erase_configuration cid s') \<and> Q (erase_configuration cid s')"
    if "disconnect_channel cid ch s = Some s'" "FindChannelByCid cid (dynamic_channels s) = Some ch" for cid ch
    using tables.close [OF that] frame [of "erase_configuration cid s'" s] queue_close [OF that(1)] by simp
  show "fixed_channel_hold acquire cid s = Some s' \<Longrightarrow> tables_ok s \<and> Q s \<Longrightarrow> tables_ok s' \<and> Q s'" for acquire cid
    using tables.fixed_hold frame [OF queue_fixed_hold] by blast
  show "AllocateFixedChannel cid s = Some s' \<Longrightarrow> tables_ok s \<and> Q s \<Longrightarrow> tables_ok s' \<and> Q s'" for cid
    using tables.fixed frame [OF queue_fixed] by blast
  show "tables_ok s \<and> Q s \<Longrightarrow> \<not> is_callback e \<Longrightarrow> tables_ok (log_event e s) \<and> Q (log_event e s)" for e
    using tables.all.log frame [of "log_event e s" s] by simp
  show "tables_ok s \<and> Q s \<Longrightarrow> configured conf = configured (configuration_of cid s) \<Longrightarrow>
      tables_ok (set_configuration cid conf s) \<and> Q (set_configuration cid conf s)" for conf cid
    using tables.configure frame [of "set_configuration cid conf s" s] by simp
  show "tables_ok s \<and> Q s \<Longrightarrow> attached p = attached (data_pipeline s) \<Longrightarrow>
      tables_ok (s\<lparr>data_pipeline := p\<rparr>) \<and> Q (s\<lparr>data_pipeline := p\<rparr>)" for p
    using tables.pipeline frame [of "s\<lparr>data_pipeline := p\<rparr>" s] by simp
qed (elim conjE, intro conjI, simp add: tables_ok_def AcquireSecurityHold_def ReleaseSecurityHold_def,
    erule frame [rotated], simp add: queue_part_def AcquireSecurityHold_def ReleaseSecurityHold_def RefreshRefCount_def Let_def)+

locale queue_invariant = queue_step_invariant +
  assumes next_command: "handle_send_next_command s = Some s' \<Longrightarrow> Q s \<Longrightarrow> Q s'"
    and alarm: "Q s \<Longrightarrow> Q (s\<lparr>sig_alarm := a\<rparr>)"
    and forget: "Q s \<Longrightarrow> Q (s\<lparr>command_just_sent := (command_just_sent s)\<lparr>signal_id := kInvalidSignalId\<rparr>\<rparr>)"

sublocale queue_invariant < both: link_run_invariant "\<lambda>s. tables_ok s \<and> Q s"
proof
  fix s s'
  show "handle_send_next_command s = Some s' \<Longrightarrow> tables_ok s \<and> Q s \<Longrightarrow> tables_ok s' \<and> Q s'"
    using tables.all.next_command next_command by blast
  show "tables_ok s \<and> Q s \<Longrightarrow> tables_ok (s\<lparr>sig_alarm := a\<rparr>) \<and> Q (s\<lparr>sig_alarm := a\<rparr>)" for a
    using tables.all.alarm alarm by blast
  show "tables_ok s \<and> Q s \<Longrightarrow>
      tables_ok (s\<lparr>command_just_sent := (command_just_sent s)\<lparr>signal_id := kInvalidSignalId\<rparr>\<rparr>) \<and>
      Q (s\<lparr>command_just_sent := (command_just_sent s)\<lparr>signal_id := kInvalidSignalId\<rparr>\<rparr>)"
    using tables.all.forget forget by blast
  show "tables_ok s \<and> Q s \<Longrightarrow>
      tables_ok (s\<lparr>remote_connectionless_mtu := m\<rparr>) \<and> Q (s\<lparr>remote_connectionless_mtu := m\<rparr>)" for m
    using tables.all.connectionless_mtu frame [of "s\<lparr>remote_connectionless_mtu := m\<rparr>" s] by (simp add: queue_part_def)
  show "AllocateReservedDynamicChannel cid psm rcid s = Some (new, s') \<Longrightarrow> tables_ok s \<and> Q s \<Longrightarrow> tables_ok s' \<and> Q s'"
    for cid psm rcid new using tables.allocate_reserved frame [OF queue_allocate_reserved] by blast
  show "tables_ok s \<and> Q s \<Longrightarrow> FindChannelByCid cid (dynamic_channels s) = Some ch \<Longrightarrow> dyn_cid ch = cid" for cid ch
    using tables.keys by blast
  show "OnAclDisconnected status s = Some s' \<Longrightarrow> tables_ok s \<and> Q s \<Longrightarrow> tables_ok s' \<and> Q s'" for status
    using tables.disconnected queue_disconnected alarm [of s None] frame [of s' "s\<lparr>sig_alarm := None\<rparr>"]
    by (simp add: CancelAlarm_def)
  show "link_SendConnectionRequest psm cid conn s = Some s' \<Longrightarrow> tables_ok s \<and> Q s \<Longrightarrow> tables_ok s' \<and> Q s'" for psm cid conn
    using tables.connect frame [OF queue_connect] by blast
  show "SetPendingDynamicChannels psms conns s = Some s' \<Longrightarrow> tables_ok s \<and> Q s \<Longrightarrow> tables_ok s' \<and> Q s'" for psms conns
    using tables.pending_channels frame [OF queue_pending_channels] by blast
qed

subsection \<open>Identifiers\<close>

definition outstanding :: "classic_link \<Rightarrow> bool" where
  "outstanding s \<longleftrightarrow> signal_id (command_just_sent s) \<noteq> kInvalidSignalId"

text \<open>The commands that are not answered yet, in the order of their creation.\<close>

definition commands :: "classic_link \<Rightarrow> PendingCommand list" where
  "commands s = (if outstanding s then [command_just_sent s] else []) @ pending_commands s"

fun consecutive :: "SignalId list \<Rightarrow> SignalId \<Rightarrow> bool" where
  "consecutive [] j = True"
| "consecutive (i # is) j = (sig_IsValid i \<and> hd (is @ [j]) = sig_inc i \<and> consecutive is j)"

definition sent_code :: "PendingCommand \<Rightarrow> bool" where
  "sent_code c \<longleftrightarrow>
     pending_code c \<in> {CONNECTION_REQUEST, CONFIGURATION_REQUEST, DISCONNECTION_REQUEST, INFORMATION_REQUEST}"

definition queue_ok :: "classic_link \<Rightarrow> bool" where
  "queue_ok s \<longleftrightarrow> sig_buffer s \<noteq> None \<and> sig_IsValid (next_signal_id s) \<and>
     consecutive (map signal_id (commands s)) (next_signal_id s) \<and> (\<forall>c\<in>set (commands s). sent_code c)"

lemma valid_iff: "sig_IsValid i \<longleftrightarrow> i \<noteq> kInvalidSignalId"
  by (cases i) (simp add: sig_IsValid_def kInvalidSignalId_def SignalId_def)

lemma consecutive_snoc:
  "consecutive is j \<Longrightarrow> sig_IsValid j \<Longrightarrow> consecutive (is @ [j]) (sig_inc j)"
  by (induction "is") (auto simp: hd_append split: if_splits)

lemma consecutive_iterate:
  assumes "consecutive is j" "is \<noteq> []"
  shows "is = map (\<lambda>k. (sig_inc ^^ k) (hd is)) [0..<length is] \<and> j = (sig_inc ^^ length is) (hd is)"
  using assms
proof (induction "is")
  case (Cons i "is")
  show ?case
  proof (cases "is")
    case (Cons i' is')
    then have "is = map (\<lambda>k. (sig_inc ^^ Suc k) i) [0..<length is] \<and> j = (sig_inc ^^ Suc (length is)) i"
      using Cons.IH Cons.prems by (simp add: funpow_swap1 sig_inc_valid del: upt_Suc)
    then show ?thesis by (simp add: upt_conv_Cons map_Suc_upt [symmetric] comp_def del: upt_Suc funpow.simps(2))
  qed (use Cons.prems in simp)
qed simp

lemma commands_cong: "queue_part s' = queue_part s \<Longrightarrow> commands s' = commands s \<and> outstanding s' = outstanding s"
  by (simp add: queue_part_def commands_def outstanding_def)

lemma queue_ok_cong: "queue_part s' = queue_part s \<Longrightarrow> queue_ok s \<Longrightarrow> queue_ok s'"
  using commands_cong [of s' s] by (simp add: queue_ok_def queue_part_def)

text \<open>Sending the next command never meets an unknown one.\<close>

lemma next_sends:
  assumes "handle_send_next_command s = Some s'" "queue_ok s"
  shows "pending_commands s = [] \<and> \<not> outstanding s' \<and> pending_commands s' = [] \<and> sig_buffer s' = sig_buffer s \<or>
     pending_commands s \<noteq> [] \<and> outstanding s' \<and> commands s' = (hd (pending_commands s))\<lparr>pending_config := []\<rparr> # tl (pending_commands s) \<and>
     sig_alarm s' = Some kTimeout \<and> sig_buffer s' \<noteq> None"
    "next_signal_id s' = next_signal_id s"
proof -
  have "pending_commands s = c # cs \<Longrightarrow> sent_code c \<and> signal_id c \<noteq> kInvalidSignalId" for c cs
    using assms(2) by (auto simp: queue_ok_def commands_def valid_iff split: if_splits)
  then show "pending_commands s = [] \<and> \<not> outstanding s' \<and> pending_commands s' = [] \<and> sig_buffer s' = sig_buffer s \<or>
     pending_commands s \<noteq> [] \<and> outstanding s' \<and> commands s' = (hd (pending_commands s))\<lparr>pending_config := []\<rparr> # tl (pending_commands s) \<and>
     sig_alarm s' = Some kTimeout \<and> sig_buffer s' \<noteq> None"
    "next_signal_id s' = next_signal_id s"
    using assms(1) by (auto simp: handle_send_next_command_def send_request_def sig_Enqueue_def outstanding_def commands_def
        sent_code_def bind_eq_Some_conv Let_def split: list.splits CommandCode.splits option.splits)
qed

lemma queue_next: "handle_send_next_command s = Some s' \<Longrightarrow> queue_ok s \<Longrightarrow> queue_ok s'"
proof -
  assume a: "handle_send_next_command s = Some s'" "queue_ok s"
  have "consecutive (map signal_id (pending_commands s)) (next_signal_id s)" "\<forall>c\<in>set (pending_commands s). sent_code c"
    using a(2) by (auto simp: queue_ok_def commands_def split: if_splits)
  then show "queue_ok s'"
    using next_sends [OF a] a(2) by (cases "pending_commands s") (auto simp: queue_ok_def commands_def sent_code_def)
qed

lemma queue_pushed:
  assumes "sendable f" "queue_ok s"
  shows "queue_ok (s\<lparr>pending_commands := pending_commands s @ [f (next_signal_id s)],
     next_signal_id := sig_inc (next_signal_id s)\<rparr>)" (is "queue_ok ?s")
proof -
  have "commands ?s = commands s @ [f (next_signal_id s)]" by (simp add: commands_def outstanding_def)
  then show ?thesis
    using assms by (auto simp: queue_ok_def sendable_def sent_code_def sig_inc_valid intro: consecutive_snoc)
qed

lemma queue_push: "push_command f s = Some s' \<Longrightarrow> sendable f \<Longrightarrow> queue_ok s \<Longrightarrow> queue_ok s'"
  using queue_pushed [of f s] queue_next by (auto simp: push_command_def Let_def split: if_splits)

lemma queue_fields:
  "sig_Enqueue c s = Some s' \<Longrightarrow> queue_ok s \<Longrightarrow> queue_ok s'" "send_command s = Some s' \<Longrightarrow> queue_ok s \<Longrightarrow> queue_ok s'"
  "queue_ok s \<Longrightarrow> queue_ok (s\<lparr>sig_alarm := a\<rparr>)"
  by (auto simp: sig_Enqueue_def send_command_def queue_ok_def commands_def outstanding_def split: option.splits if_splits)

lemma queue_forget:
  "queue_ok s \<Longrightarrow> queue_ok (s\<lparr>command_just_sent := (command_just_sent s)\<lparr>signal_id := kInvalidSignalId\<rparr>\<rparr>)"
  by (auto simp: queue_ok_def commands_def outstanding_def split: if_splits)

interpretation queue: queue_invariant queue_ok
  by unfold_locales (fact queue_ok_cong queue_fields queue_push queue_next queue_forget)+

lemma queue_start: "Link dynamic fixed = Some s \<Longrightarrow> tables_ok s \<and> queue_ok s"
  by (auto simp: Link_def ClassicSignallingManager_def AllocateFixedChannel_def fix_AllocateChannel_def FixedChannelImpl_def
      try_emplace_def tables_ok_def books_ok_def DynamicChannelAllocator_def queue_ok_def commands_def outstanding_def
      valid_iff kInitialSignalId_def kInvalidSignalId_def SignalId_def bind_eq_Some_conv)

lemma reach_queue: "link_reach s \<Longrightarrow> tables_ok s \<and> queue_ok s"
  by (rule queue.both.reach [OF _ queue_start])

subsection \<open>Progress\<close>

text \<open>While a command is outstanding the alarm is armed, and without one nothing waits.\<close>

definition progress :: "classic_link \<Rightarrow> bool" where
  "progress s \<longleftrightarrow> (if outstanding s then sig_alarm s \<noteq> None else pending_commands s = [])"

lemma progress_cong: "queue_part s' = queue_part s \<Longrightarrow> progress s' = progress s"
  by (simp add: queue_part_def progress_def outstanding_def)

lemma progress_next: "handle_send_next_command s = Some s' \<Longrightarrow> queue_ok s \<Longrightarrow> progress s'"
  using next_sends [of s s'] by (auto simp: progress_def)

lemma progress_push_idle: "push_command f s = Some s' \<Longrightarrow> sendable f \<Longrightarrow> queue_ok s \<Longrightarrow> \<not> outstanding s \<Longrightarrow> progress s'"
  using queue_pushed [of f s] progress_next by (simp add: push_command_def Let_def outstanding_def)

lemma progress_push: "push_command f s = Some s' \<Longrightarrow> sendable f \<Longrightarrow> queue_ok s \<Longrightarrow> progress s \<Longrightarrow> progress s'"
proof (cases "outstanding s")
  case True
  then show "push_command f s = Some s' \<Longrightarrow> progress s \<Longrightarrow> progress s'"
    by (auto simp: push_command_def Let_def outstanding_def progress_def split: if_splits)
qed (rule progress_push_idle)

lemma progress_initial_request:
  "SendInitialConfigRequest cid s = Some s' \<Longrightarrow> queue_ok s \<Longrightarrow> \<not> outstanding s \<Longrightarrow> progress s'"
  unfolding SendInitialConfigRequest_def send_configuration_request_def Let_def bind_eq_Some_conv
  by (elim exE conjE, erule progress_push_idle)
    (auto simp: sendable_def outstanding_def set_configuration_def elim!: queue_ok_cong [rotated] simp add: queue_part_def)

interpretation moving: queue_step_invariant "\<lambda>s. queue_ok s \<and> progress s"
proof
  fix s s'
  show "queue_part s' = queue_part s \<Longrightarrow> queue_ok s \<and> progress s \<Longrightarrow> queue_ok s' \<and> progress s'"
    using queue_ok_cong progress_cong by blast
  show "sig_Enqueue c s = Some s' \<Longrightarrow> queue_ok s \<and> progress s \<Longrightarrow> queue_ok s' \<and> progress s'" for c
    using queue_fields(1) by (auto simp: sig_Enqueue_def progress_def outstanding_def split: option.splits)
  show "push_command f s = Some s' \<Longrightarrow> sendable f \<Longrightarrow> queue_ok s \<and> progress s \<Longrightarrow> queue_ok s' \<and> progress s'" for f
    using queue_push progress_push by blast
  show "send_command s = Some s' \<Longrightarrow> queue_ok s \<and> progress s \<Longrightarrow> queue_ok s' \<and> progress s'"
    using queue_fields(2) by (auto simp: send_command_def progress_def outstanding_def split: option.splits if_splits)
qed

text \<open>
  The inputs after which the queue may stand still: the alarm runs out while a configuration request
  is outstanding, a connection is accepted before the features of the peer are known, or the ACL
  connection is gone.
\<close>

fun stalls :: "link_input \<Rightarrow> classic_link \<Rightarrow> bool" where
  "stalls CommandTimeout s = (outstanding s \<and> pending_code (command_just_sent s) = CONFIGURATION_REQUEST)"
| "stalls (Command (ConnectionResponse i dcid scid result status)) s =
     (result = CONNECTION_SUCCESS \<and> \<not> remote_extended_feature_received s)"
| "stalls (AclDisconnected reason) s = True"
| "stalls _ s = False"

text \<open>What an answer does when it ends by sending the next command.\<close>

definition moves_on :: "classic_link \<Rightarrow> bool" where
  "moves_on s \<longleftrightarrow> (\<exists>t u. queue_ok t \<and> handle_send_next_command t = Some u \<and> queue_part s = queue_part u)"

lemma moves_on_progress: "moves_on s \<Longrightarrow> progress s"
  unfolding moves_on_def using progress_next progress_cong by blast

lemma moves_onI: "handle_send_next_command t = Some s \<Longrightarrow> queue_ok t \<Longrightarrow> moves_on s"
  unfolding moves_on_def by blast

lemmas cancel_ok = queue.both.cancel [THEN conjunct2]

lemma reject_moves: "OnCommandReject i s = Some s' \<Longrightarrow> tables_ok s \<Longrightarrow> queue_ok s \<Longrightarrow> s' = s \<or> moves_on s'"
  by (auto simp: OnCommandReject_def bind_eq_Some_conv split: if_splits)
    (blast intro: moves_onI cancel_ok dest: queue.step.features_received)+

lemma echo_moves: "OnEchoResponse i bs s = Some s' \<Longrightarrow> tables_ok s \<Longrightarrow> queue_ok s \<Longrightarrow> s' = s \<or> moves_on s'"
  by (auto simp: OnEchoResponse_def split: if_splits intro: moves_onI cancel_ok)

lemma information_moves:
  "OnInformationResponse i type body s = Some s' \<Longrightarrow> tables_ok s \<Longrightarrow> queue_ok s \<Longrightarrow> s' = s \<or> moves_on s'"
proof -
  assume a: "OnInformationResponse i type body s = Some s'" "tables_ok s" "queue_ok s"
  have "queue_ok (CancelAlarm t)" if "OnRemoteExtendedFeatureReceived e f s = Some t" for e f t
    using cancel_ok [OF queue.step.features_received [OF that]] a(2,3) by simp
  moreover have "queue_ok (CancelAlarm s)" "queue_ok (CancelAlarm (s\<lparr>remote_connectionless_mtu := m\<rparr>))" for m
    using cancel_ok [of s] cancel_ok [OF queue.both.connectionless_mtu, of s m] a(2,3) by simp_all
  ultimately show ?thesis
    using a(1) moves_onI by (auto simp: OnInformationResponse_def bind_eq_Some_conv split: if_splits)
qed

lemma disconnection_moves:
  "OnDisconnectionResponse i rcid cid s = Some s' \<Longrightarrow> tables_ok s \<Longrightarrow> queue_ok s \<Longrightarrow> s' = s \<or> moves_on s'"
proof -
  assume a: "OnDisconnectionResponse i rcid cid s = Some s'" "tables_ok s" "queue_ok s"
  have "moves_on (erase_configuration cid u)"
    if "disconnect_channel cid ch (CancelAlarm s) = Some t" "handle_send_next_command t = Some u" for ch t u
    using that(2) queue_ok_cong [OF queue_close [OF that(1)]] cancel_ok [of s] a(2,3) unfolding moves_on_def by auto
  then show ?thesis
    using a cancel_ok [of s]
    by (auto simp: OnDisconnectionResponse_def bind_eq_Some_conv Let_def split: if_splits option.splits intro: moves_onI)
qed

definition forget_command :: "classic_link \<Rightarrow> classic_link" where
  "forget_command s = CancelAlarm (s\<lparr>command_just_sent := (command_just_sent s)\<lparr>signal_id := kInvalidSignalId\<rparr>\<rparr>)"

lemma forget_ok: "tables_ok s \<Longrightarrow> queue_ok s \<Longrightarrow> queue_ok (forget_command s)"
  unfolding forget_command_def using queue.both.cancel queue.both.forget by blast

lemma refresh_features [simp]:
  "remote_extended_feature_received (RefreshRefCount s) = remote_extended_feature_received s"
  by (simp add: RefreshRefCount_def Let_def)

lemma reserved_features:
  "AllocateReservedDynamicChannel c p r s = Some (new, u) \<Longrightarrow>
     remote_extended_feature_received u = remote_extended_feature_received s"
  by (auto simp: AllocateReservedDynamicChannel_def bind_eq_Some_conv Let_def split: if_splits)

lemma connection_failed_moves:
  "OnOutgoingConnectionRequestFail c r s = Some t \<Longrightarrow> handle_send_next_command t = Some u \<Longrightarrow> queue_ok s \<Longrightarrow> progress u"
  using progress_next queue_ok_cong [OF queue_request_failed] by blast

lemma connection_opened_moves:
  assumes "AllocateReservedDynamicChannel c p r (forget_command s) = Some (new, u)"
    "SendInitialConfigRequestOrQueue c u = Some v" "queue_ok (forget_command s)" "remote_extended_feature_received s"
  shows "progress v"
proof (rule progress_initial_request)
  show "queue_ok u" "\<not> outstanding u"
    using queue_ok_cong [OF queue_allocate_reserved [OF assms(1)] assms(3)] commands_cong [OF queue_allocate_reserved [OF assms(1)]]
    by (simp_all add: outstanding_def forget_command_def CancelAlarm_def)
  show "SendInitialConfigRequest c u = Some v"
    using assms(2,4) reserved_features [OF assms(1)]
    by (simp add: SendInitialConfigRequestOrQueue_def forget_command_def CancelAlarm_def)
qed

lemma OnConnectionResponse_cases:
  assumes "OnConnectionResponse i rcid cid result status s = Some s'"
  obtains "s' = s" | "handle_send_next_command s = Some s'" | "s' = s\<lparr>sig_alarm := Some kTimeout\<rparr>"
    | c r t where "OnOutgoingConnectionRequestFail c r (forget_command s) = Some t" "handle_send_next_command t = Some s'"
    | p new t where "result = CONNECTION_SUCCESS" "AllocateReservedDynamicChannel cid p rcid (forget_command s) = Some (Some new, t)"
        "SendInitialConfigRequestOrQueue cid t = Some s'"
proof (cases "expects i CONNECTION_REQUEST s \<and> source_cid (command_just_sent s) = cid \<and> result \<noteq> CONNECTION_PENDING")
  case True
  note r = assms [unfolded OnConnectionResponse_def Let_def forget_command_def [symmetric]]
  show ?thesis
  proof (cases "result = CONNECTION_SUCCESS")
    case success: True
    obtain new t where t: "AllocateReservedDynamicChannel cid (pending_psm (command_just_sent (forget_command s))) rcid
        (forget_command s) = Some (new, t)"
      using r True success
      by (cases "AllocateReservedDynamicChannel cid (pending_psm (command_just_sent (forget_command s))) rcid (forget_command s)") auto
    then obtain n where "new = Some n" by (auto simp: AllocateReservedDynamicChannel_def bind_eq_Some_conv Let_def)
    then show ?thesis using that(5) [OF success] t r True success by simp
  next
    case False
    then obtain t where "OnOutgoingConnectionRequestFail cid (connection_result FAIL_L2CAP_ERROR result) (forget_command s) = Some t"
      "handle_send_next_command t = Some s'" using r True by (auto simp: bind_eq_Some_conv)
    then show ?thesis by (rule that(4))
  qed
next
  case False
  then consider "\<not> expects i CONNECTION_REQUEST s" | "expects i CONNECTION_REQUEST s" "source_cid (command_just_sent s) \<noteq> cid"
    | "expects i CONNECTION_REQUEST s" "source_cid (command_just_sent s) = cid" "result = CONNECTION_PENDING" by blast
  then show ?thesis by cases (use assms that(1-3) in \<open>simp_all add: OnConnectionResponse_def\<close>)
qed

lemma connection_moves:
  assumes "OnConnectionResponse i rcid cid result status s = Some s'" "tables_ok s" "queue_ok s"
    "result = CONNECTION_SUCCESS \<longrightarrow> remote_extended_feature_received s" "progress s"
  shows "progress s'"
  using assms(1)
proof (cases rule: OnConnectionResponse_cases)
  case 3
  then show ?thesis using assms(5) by (simp add: progress_def outstanding_def)
next
  case (4 c r t)
  then show ?thesis using connection_failed_moves forget_ok [OF assms(2,3)] by blast
next
  case (5 p new t)
  then show ?thesis using connection_opened_moves forget_ok [OF assms(2,3)] assms(4) by blast
qed (use assms(3,5) progress_next in blast)+

lemma configuration_moves:
  assumes "OnConfigurationResponse i cid c result options s = Some s'" "tables_ok s" "queue_ok s" "progress s"
  shows "progress s'"
proof (cases "FindChannelByCid cid (dynamic_channels s)")
  case None
  then show ?thesis
    using assms progress_next by (auto simp: OnConfigurationResponse_def split: if_splits)
next
  case (Some ch)
  have both: "tables_ok s \<and> queue_ok s" using assms by simp
  have negotiated: "progress u" if "negotiate_configuration cid options (CancelAlarm s) = Some t" "handle_send_next_command t = Some u" for t u
    using that progress_next queue.step.negotiate [OF that(1) queue.both.cancel [OF both]] by blast
  let ?s = "set_configuration (dyn_cid ch) conf s"
  have ok: "queue_ok (set_configuration c conf u)" if "queue_ok u" for c conf u
    using queue_ok_cong [of "set_configuration c conf u" u] that by simp
  have ends: "progress u" if "handle_send_next_command (CancelAlarm t) = Some u" "queue_ok t" for t u
    using that progress_next queue_fields(3) by (auto simp: CancelAlarm_def)
  have again: "progress (s\<lparr>sig_alarm := Some kTimeout\<rparr>)"
    using assms(4) by (simp add: progress_def outstanding_def)
  have opened: "queue_ok t" if "channel_configured c ch' conf u = Some t" "queue_ok u" for c ch' conf t u
    using that queue_ok_cong [OF queue_configured [OF that(1)]] by blast
  have asked: "queue_ok t" if "sm_SendDisconnectionRequest c r u = Some t" "queue_ok u" for c r t u
    using that queue_push by (auto simp: sm_SendDisconnectionRequest_def sendable_def)
  show ?thesis
    using assms(1,3,4) again Some
    by (auto simp: OnConfigurationResponse_def bind_eq_Some_conv Let_def case_prod_unfold
        split: if_splits ConfigState.splits response_end.splits intro: negotiated ends ok opened asked)
qed

lemma timeout_moves:
  assumes "sig_alarm_fires s = Some s'" "tables_ok s" "queue_ok s" "progress s" "\<not> stalls CommandTimeout s"
  shows "progress s'"
proof (cases "sig_alarm s = None \<or> \<not> outstanding s")
  case True
  then show ?thesis
    using assms(1,4)
    by (auto simp: sig_alarm_fires_def on_command_timeout_def outstanding_def progress_def split: option.splits if_splits)
next
  case False
  let ?s = "s\<lparr>sig_alarm := None\<rparr>"
  have ok: "tables_ok ?s \<and> queue_ok ?s" using queue.both.alarm [of s None] assms(2,3) by simp
  have failed: "queue_ok t" if "OnOutgoingConnectionRequestFail c r ?s = Some t" for c r t
    using queue_ok_cong [OF queue_request_failed [OF that]] ok by simp
  have features: "queue_ok t" if "OnRemoteExtendedFeatureReceived e f ?s = Some t" for e f t
    using queue.step.features_received [OF that ok] by simp
  show ?thesis
    using assms(1,5) False ok failed features progress_next
    by (auto simp: sig_alarm_fires_def on_command_timeout_def outstanding_def bind_eq_Some_conv split: option.splits if_splits)
qed

lemma answer_moves:
  assumes "handle_command c s = Some s'" "is_answer c" "tables_ok s" "queue_ok s" "progress s" "\<not> stalls (Command c) s"
  shows "progress s'"
proof -
  have same: "progress s'" if "s' = s \<or> moves_on s'" using that assms(5) moves_on_progress by blast
  show ?thesis
  proof (cases c)
    case CommandReject
    then show ?thesis using assms(1) same [OF reject_moves [OF _ assms(3,4)]] by simp
  next
    case ConnectionResponse
    then show ?thesis using assms(1,6) connection_moves [OF _ assms(3,4) _ assms(5)] by simp
  next
    case ConfigurationResponse
    then show ?thesis using assms(1) configuration_moves [OF _ assms(3-5)] by simp
  next
    case DisconnectionResponse
    then show ?thesis using assms(1) same [OF disconnection_moves [OF _ assms(3,4)]] by simp
  next
    case EchoResponse
    then show ?thesis using assms(1) same [OF echo_moves [OF _ assms(3,4)]] by simp
  next
    case InformationResponse
    then show ?thesis using assms(1) same [OF information_moves [OF _ assms(3,4)]] by simp
  qed (use assms(2) in simp_all)
qed

lemma connect_same_queue: "link_handle e s = Some s' \<Longrightarrow> asks_connection e \<Longrightarrow> queue_part s' = queue_part s"
  by (cases e) (auto simp: bind_eq_Some_conv dest!: l2cap_frame)

lemma progress_step:
  assumes "link_handle e s = Some s'" "tables_ok s" "queue_ok s" "progress s" "\<not> stalls e s"
  shows "progress s'"
proof -
  consider "asks_connection e" | "\<not> asks_connection e" "\<not> ends_command e" | c where "e = Command c" "is_answer c"
    | "e = CommandTimeout" | r where "e = AclDisconnected r"
    by (cases e) auto
  then show ?thesis
  proof cases
    case 1
    then show ?thesis using progress_cong [OF connect_same_queue [OF assms(1)]] assms(4) by simp
  next
    case 2
    then show ?thesis using moving.step.step [OF assms(1)] assms(2-4) by simp
  next
    case (3 c)
    then show ?thesis using answer_moves [OF _ 3(2) assms(2-4)] assms(1,5) by simp
  next
    case 4
    then show ?thesis using timeout_moves [OF _ assms(2-4)] assms(1,5) by simp
  qed (use assms(5) in simp)
qed

end
