(* ===== verification/Classic_Claims.thy ===== *)
theory Classic_Claims
  imports Classic_Signalling
begin

text \<open>
  What a classic link promises: its tables, its idle alarm, its data pipeline and its command queue in
  every run, the callbacks of its users, and the handling of disconnection requests.  The last part
  shows inputs of a peer that stop or abort the link.
\<close>

subsection \<open>Callbacks\<close>

text \<open>
  The callbacks a user got, and the entries from which the user may still get one: the pending
  connections, and the connections that wait for the features of the peer.
\<close>

fun calls_back :: "nat \<Rightarrow> link_event \<Rightarrow> bool" where
  "calls_back u (OpenCallback v cid) = (v = u)"
| "calls_back u (FailCallback v result) = (v = u)"
| "calls_back u _ = False"

definition is_of :: "nat \<Rightarrow> PendingDynamicChannelConnection \<Rightarrow> bool" where
  "is_of u conn \<longleftrightarrow> conn_callbacks conn = Some u"

definition answered :: "nat \<Rightarrow> classic_link \<Rightarrow> nat" where
  "answered u s = length (filter (calls_back u) (link_log s))"

definition in_map :: "nat \<Rightarrow> (Cid \<times> PendingDynamicChannelConnection) list \<Rightarrow> nat" where
  "in_map u conns = length (filter (is_of u \<circ> snd) conns)"

definition in_list :: "nat \<Rightarrow> PendingDynamicChannelConnection list \<Rightarrow> nat" where
  "in_list u conns = length (filter (is_of u) conns)"

definition accounted :: "nat \<Rightarrow> classic_link \<Rightarrow> nat" where
  "accounted u s = answered u s + in_map u (pending_connections s) + in_list u (pending_dynamic_channel_callback_list s)"

fun requested :: "nat \<Rightarrow> link_input \<Rightarrow> nat" where
  "requested u (Connect psm conn) = in_list u [conn]"
| "requested u (PendingChannels psms conns) = in_list u conns"
| "requested u _ = 0"

definition callback_part :: "classic_link \<Rightarrow> _" where
  "callback_part s = (pending_connections s, pending_dynamic_channel_callback_list s, filter is_callback (link_log s))"

lemma answered_callbacks: "answered u s = length (filter (calls_back u) (filter is_callback (link_log s)))"
proof -
  have "calls_back u e \<Longrightarrow> is_callback e" for e by (cases e) simp_all
  then show ?thesis unfolding answered_def filter_filter by (metis (mono_tags, lifting))
qed

lemma accounted_cong: "callback_part s' = callback_part s \<Longrightarrow> accounted u s' = accounted u s"
  unfolding accounted_def answered_callbacks callback_part_def by simp

lemma callback_part_core: "core s' = core s \<Longrightarrow> callback_part s' = callback_part s"
  by (simp add: core_def callback_part_def)

lemma callback_part_fields [simp]:
  "callback_part (s\<lparr>dynamic_channels := a\<rparr>) = callback_part s" "callback_part (s\<lparr>fixed_channels := f\<rparr>) = callback_part s"
  "callback_part (s\<lparr>data_pipeline := p\<rparr>) = callback_part s" "callback_part (s\<lparr>idle_alarm := a'\<rparr>) = callback_part s"
  "callback_part (set_configuration cid conf s) = callback_part s" "callback_part (erase_configuration cid s) = callback_part s"
  "callback_part (RefreshRefCount s) = callback_part s" "callback_part (FreeDynamicChannel cid s) = callback_part s"
  "callback_part (AcquireSecurityHold s) = callback_part s" "callback_part (ReleaseSecurityHold s) = callback_part s"
  "callback_part (free_dynamic cid s) = callback_part s"
  by (simp_all add: callback_part_def set_configuration_def erase_configuration_def RefreshRefCount_def FreeDynamicChannel_def
      free_dynamic_def AcquireSecurityHold_def ReleaseSecurityHold_def Let_def)

lemma callback_part_frames:
  "ReserveDynamicChannel s = Some (cid, s') \<Longrightarrow> callback_part s' = callback_part s"
  "AllocateDynamicChannel psm rcid s = Some (new, s') \<Longrightarrow> callback_part s' = callback_part s"
  "AllocateReservedDynamicChannel cid psm rcid s = Some (new, s') \<Longrightarrow> callback_part s' = callback_part s"
  "AllocateFixedChannel cid s = Some s' \<Longrightarrow> callback_part s' = callback_part s"
  "fixed_channel_hold acquire cid s = Some s' \<Longrightarrow> callback_part s' = callback_part s"
  "disconnect_channel cid ch s = Some s' \<Longrightarrow> callback_part s' = callback_part s"
proof -
  show "ReserveDynamicChannel s = Some (cid, s') \<Longrightarrow> callback_part s' = callback_part s"
    by (auto simp: ReserveDynamicChannel_def bind_eq_Some_conv)
  show "AllocateDynamicChannel psm rcid s = Some (new, s') \<Longrightarrow> callback_part s' = callback_part s"
    by (auto simp: AllocateDynamicChannel_def bind_eq_Some_conv Let_def split: option.splits)
  show "AllocateReservedDynamicChannel cid psm rcid s = Some (new, s') \<Longrightarrow> callback_part s' = callback_part s"
    by (auto simp: AllocateReservedDynamicChannel_def bind_eq_Some_conv Let_def split: if_splits)
  show "AllocateFixedChannel cid s = Some s' \<Longrightarrow> callback_part s' = callback_part s"
    by (auto simp: AllocateFixedChannel_def bind_eq_Some_conv callback_part_def)
  show "fixed_channel_hold acquire cid s = Some s' \<Longrightarrow> callback_part s' = callback_part s"
    by (elim effect_fixed_hold) auto
  show "disconnect_channel cid ch s = Some s' \<Longrightarrow> callback_part s' = callback_part s"
    by (elim effect_close) simp
qed

text \<open>Moving an entry from one place to the next never adds to the account.\<close>

lemma in_map_simps [simp]:
  "in_map u [] = 0" "in_map u ((c, conn) # conns) = in_list u [conn] + in_map u conns"
  by (simp_all add: in_map_def in_list_def)

lemma in_map_filter: "in_map u (filter P conns) \<le> in_map u conns"
  by (induction conns) auto

lemma in_map_erase: "map_of conns cid = Some conn \<Longrightarrow> in_map u (filter (\<lambda>(c, _). c \<noteq> cid) conns) + in_list u [conn] \<le> in_map u conns"
  using in_map_filter [of u "\<lambda>(c, _). c \<noteq> cid"] by (induction conns) (auto split: if_splits)

lemma in_map_update: "in_map u (AList.update cid conn conns) \<le> in_map u conns + in_list u [conn]"
  by (induction conns) auto

lemma accounted_invoke:
  "invoke_fail conn result s = Some s' \<Longrightarrow> accounted u s' = accounted u s + in_list u [conn]"
  "conn_callbacks conn = Some v \<Longrightarrow> accounted u (log_event (OpenCallback v cid) s) = accounted u s + in_list u [conn]"
  by (auto simp: invoke_fail_def accounted_def answered_def in_list_def is_of_def log_event_def split: option.splits)

lemma accounted_erase:
  "map_of (pending_connections s) cid = Some conn \<Longrightarrow> accounted u (erase_pending cid s) + in_list u [conn] \<le> accounted u s"
  using in_map_erase [of "pending_connections s" cid conn u] by (simp add: accounted_def answered_def erase_pending_def)

lemma accounted_notify:
  assumes "NotifyChannelFail cid result s = Some s' \<or> NotifyChannelCreation cid s = Some s'"
  shows "accounted u s' \<le> accounted u s"
proof -
  obtain conn t where conn: "map_of (pending_connections s) cid = Some conn" "s' = erase_pending cid t"
    "pending_connections t = pending_connections s" "accounted u t = accounted u s + in_list u [conn]"
    using assms accounted_invoke
    by (fastforce simp: NotifyChannelFail_def NotifyChannelCreation_def invoke_fail_def bind_eq_Some_conv log_event_def
        split: option.splits)
  then show ?thesis using accounted_erase [of t cid conn u] by simp
qed

lemma accounted_request_failed: "OnOutgoingConnectionRequestFail cid result s = Some s' \<Longrightarrow> accounted u s' \<le> accounted u s"
  using accounted_cong [of "free_dynamic cid _"] accounted_notify [of cid result s _ u]
  by (auto simp: OnOutgoingConnectionRequestFail_def bind_eq_Some_conv split: if_splits)

lemma accounted_connect:
  "link_SendConnectionRequest psm cid conn s = Some s' \<Longrightarrow> accounted u s' \<le> accounted u s + in_list u [conn]"
  using in_map_update [of u cid conn "pending_connections s"]
  by (auto simp: link_SendConnectionRequest_def sm_SendConnectionRequest_def invoke_fail_def accounted_def answered_def
      free_dynamic_def log_event_def in_list_def is_of_def bind_eq_Some_conv split: if_splits option.splits)

lemma accounted_take:
  assumes "k < length (pending_dynamic_channel_callback_list s)"
  shows "accounted u (take_callbacks k s) + in_list u [pending_dynamic_channel_callback_list s ! k] = accounted u s"
proof -
  let ?l = "pending_dynamic_channel_callback_list s"
  have "?l = take k ?l @ ?l ! k # drop (Suc k) ?l" using assms by (rule id_take_nth_drop)
  then have "in_list u ?l = in_list u (take k ?l) + in_list u [?l ! k] + in_list u (drop (Suc k) ?l)"
    by (metis (no_types, lifting) append.assoc append_Cons append_Nil filter_append in_list_def length_append)
  moreover have "in_list u (?l[k := (?l ! k)\<lparr>conn_callbacks := None\<rparr>]) = in_list u (take k ?l) + in_list u (drop (Suc k) ?l)"
    using assms by (simp add: upd_conv_take_nth_drop in_list_def is_of_def)
  ultimately show ?thesis by (simp add: accounted_def answered_def take_callbacks_def)
qed

lemma accounted_connect_pending: "connect_pending k s = Some s' \<Longrightarrow> accounted u s' \<le> accounted u s"
proof -
  assume "connect_pending k s = Some s'"
  then obtain cid t where t: "k < length (pending_dynamic_channel_callback_list s)"
    "ReserveDynamicChannel (take_callbacks k s) = Some (cid, t)"
    "link_SendConnectionRequest (pending_dynamic_psm_list t ! k) cid (pending_dynamic_channel_callback_list s ! k) t = Some s'"
    by (auto simp: connect_pending_def bind_eq_Some_conv Let_def)
  show ?thesis
    using accounted_connect [OF t(3), of u] accounted_take [OF t(1), of u] accounted_cong [OF callback_part_frames(1) [OF t(2)], of u]
    by simp
qed

lemma accounted_configured: "channel_configured cid ch conf s = Some s' \<Longrightarrow> accounted u s' \<le> accounted u s"
proof -
  assume "channel_configured cid ch conf s = Some s'"
  then obtain t p where t: "NotifyChannelCreation cid s = Some t \<or> (\<exists>psm. t = log_event (ServiceOpen psm cid) s)"
    "s' = (set_configuration cid (conf\<lparr>config_state := CONFIGURED\<rparr>) t)\<lparr>data_pipeline := p\<rparr>"
    by (auto simp: channel_configured_def bind_eq_Some_conv Let_def split: if_splits)
  have "accounted u t \<le> accounted u s"
    using t(1) accounted_notify [of cid _ s t u] by (auto simp: accounted_def answered_def log_event_def)
  then show ?thesis using accounted_cong [of s' t u] t(2) by simp
qed

lemma fail_pending_log:
  "fail_pending result conns s = Some s' \<Longrightarrow> s' = s\<lparr>pending_connections := [],
     link_log := link_log s @ map (\<lambda>(cid, conn). FailCallback (the (conn_callbacks conn)) result) conns\<rparr> \<and>
     (\<forall>(cid, conn)\<in>set conns. conn_callbacks conn \<noteq> None)"
  by (induction result conns s rule: fail_pending.induct)
    (auto simp: invoke_fail_def log_event_def bind_eq_Some_conv split: option.splits)

lemma accounted_disconnected:
  assumes "OnAclDisconnected status s = Some s'"
  shows "accounted u s' \<le> accounted u s"
proof -
  have calls: "length (filter (calls_back u) (map (\<lambda>(cid, conn). FailCallback (the (conn_callbacks conn)) result) conns)) = in_map u conns"
    if "\<forall>(cid, conn)\<in>set conns. conn_callbacks conn \<noteq> None" for result and conns :: "(Cid \<times> PendingDynamicChannelConnection) list"
    using that by (induction conns) (auto simp: in_list_def is_of_def)
  obtain t result where t: "fail_pending result (pending_connections s) t = Some s'" "link_log t = link_log s"
    "pending_dynamic_channel_callback_list t = pending_dynamic_channel_callback_list s"
    using assms by (auto simp: OnAclDisconnected_def CancelAlarm_def bind_eq_Some_conv Let_def)
  show ?thesis
    using fail_pending_log [OF t(1)] calls [of "pending_connections s" result] t(2,3) by (simp add: accounted_def answered_def)
qed

interpretation counted: data_invariant "\<lambda>s. tables_ok s \<and> accounted u s \<le> n" for u n
proof
  fix s s' :: classic_link
  let ?P = "\<lambda>s. tables_ok s \<and> accounted u s \<le> n"
  have keep: "accounted u t \<le> accounted u s \<Longrightarrow> (tables_ok s \<Longrightarrow> tables_ok t) \<Longrightarrow> ?P s \<Longrightarrow> ?P t" for s t by auto
  have same: "callback_part t = callback_part s \<Longrightarrow> (tables_ok s \<Longrightarrow> tables_ok t) \<Longrightarrow> ?P s \<Longrightarrow> ?P t" for s t
    using accounted_cong [of t s u] by simp
  show "core s' = core s \<Longrightarrow> ?P s \<Longrightarrow> ?P s'" by (rule same [OF callback_part_core tables.core])
  show "?P s \<Longrightarrow> ?P (s\<lparr>idle_alarm := None\<rparr>)" by (rule same [OF _ tables.idle]) simp_all
  show "ReserveDynamicChannel s = Some (cid, s') \<Longrightarrow> ?P s \<Longrightarrow> ?P s'" for cid
    by (rule same [OF callback_part_frames(1) tables.reserve])
  show "OnOutgoingConnectionRequestFail cid result s = Some s' \<Longrightarrow> ?P s \<Longrightarrow> ?P s'" for cid result
    by (rule keep [OF accounted_request_failed tables.request_failed])
  show "AllocateDynamicChannel psm rcid s = Some (new, s') \<Longrightarrow> ?P s \<Longrightarrow> ?P s'" for psm rcid new
    by (rule same [OF callback_part_frames(2) tables.allocate])
  show "AllocateReservedDynamicChannel cid psm rcid s = Some (new, s') \<Longrightarrow> ?P s \<Longrightarrow> ?P s'" for cid psm rcid new
    by (rule same [OF callback_part_frames(3) tables.allocate_reserved])
  show "connect_pending k s = Some s' \<Longrightarrow> ?P s \<Longrightarrow> ?P s'" for k
    by (rule keep [OF accounted_connect_pending tables.connect_pending])
  show "?P s \<Longrightarrow> FindChannelByCid cid (dynamic_channels s) = Some ch \<Longrightarrow> dyn_cid ch = cid" for cid ch
    using tables.keys by blast
  show "?P s \<Longrightarrow> configured conf = configured (configuration_of cid s) \<Longrightarrow> ?P (set_configuration cid conf s)" for cid conf
    by (rule same [OF _ tables.configure]) simp_all
  show "?P s \<Longrightarrow> ?P s'" if "FindChannelByCid cid (dynamic_channels s) = Some ch" "\<not> configured (configuration_of cid s)"
      "channel_configured cid ch conf s = Some s'" for cid ch conf
    by (rule keep [OF accounted_configured [OF that(3)] tables.configured [OF that]])
  show "?P s \<Longrightarrow> ?P (erase_configuration cid s')" if "disconnect_channel cid ch s = Some s'"
      "FindChannelByCid cid (dynamic_channels s) = Some ch" for cid ch
    by (rule same [OF _ tables.close [OF that]]) (simp_all add: callback_part_frames(6) [OF that(1)])
  show "OnAclDisconnected status s = Some s' \<Longrightarrow> ?P s \<Longrightarrow> ?P s'" for status
    by (rule keep [OF accounted_disconnected tables.disconnected])
  show "?P s \<Longrightarrow> ?P (AcquireSecurityHold s)" by (rule same [OF _ tables.hold(1)]) simp_all
  show "?P s \<Longrightarrow> ?P (ReleaseSecurityHold s)" by (rule same [OF _ tables.hold(2)]) simp_all
  show "fixed_channel_hold acquire cid s = Some s' \<Longrightarrow> ?P s \<Longrightarrow> ?P s'" for acquire cid
    by (rule same [OF callback_part_frames(5) tables.fixed_hold])
  show "AllocateFixedChannel cid s = Some s' \<Longrightarrow> ?P s \<Longrightarrow> ?P s'" for cid
    by (rule same [OF callback_part_frames(4) tables.fixed])
  show "?P s \<Longrightarrow> attached p = attached (data_pipeline s) \<Longrightarrow> ?P (s\<lparr>data_pipeline := p\<rparr>)" for p
    by (rule same [OF _ tables.pipeline]) simp_all
qed

lemma accounted_step:
  assumes "link_handle e s = Some s'" "tables_ok s"
  shows "accounted u s' \<le> accounted u s + requested u e"
proof (cases "asks_connection e")
  case True
  then show ?thesis
  proof (cases e)
    case (Connect psm conn)
    with assms(1) obtain cid t where t: "ReserveDynamicChannel s = Some (cid, t)" "link_SendConnectionRequest psm cid conn t = Some s'"
      by (auto simp: bind_eq_Some_conv)
    then show ?thesis
      using accounted_connect [OF t(2), of u] accounted_cong [OF callback_part_frames(1) [OF t(1)], of u] Connect by simp
  next
    case (PendingChannels psms conns)
    with assms(1) show ?thesis
      by (auto simp: SetPendingDynamicChannels_def bind_eq_Some_conv accounted_def answered_def)
  qed simp_all
next
  case False
  then show ?thesis using counted.all.handle_other [OF assms(1) False, of u "accounted u s"] assms(2) by simp
qed

subsection \<open>A sample link\<close>

definition sample_service :: dynamic_service where
  "sample_service = \<lparr>security_policy = SDP_ONLY_NO_SECURITY,
     config_option = \<lparr>channel_mode = MODE_BASIC, incoming_mtu = 672, minimal_remote_mtu = 48\<rparr>\<rparr>"

definition sample_link :: classic_link where
  "sample_link = the (Link [(1, sample_service)] [])"

definition sample_run :: "link_input list \<Rightarrow> classic_link" where
  "sample_run es = the (foldM link_handle es sample_link)"

lemmas link_start_defs = Link_def ClassicSignallingManager_def AllocateFixedChannel_def fix_AllocateChannel_def
  FixedChannelImpl_def try_emplace_def IsChannelAllocated_def AttachChannel_def DataPipelineManager_def EnqueueBuffer_def ASSERT_def
  DynamicChannelAllocator_def cid_consts kFirstFixedChannel_def kClassicSignallingCid_def

lemma Link_starts: "\<exists>s. Link dynamic fixed = Some s"
  by (simp add: link_start_defs)

lemma sample_starts: "Link [(1, sample_service)] [] = Some sample_link"
  using Link_starts by (auto simp: sample_link_def)

lemma sample_runI: "\<exists>s. foldM link_handle es sample_link = Some s \<and> P s \<Longrightarrow> link_reach (sample_run es) \<and> P (sample_run es)"
  unfolding link_reach_def sample_run_def using sample_starts by force

lemmas link_eval = sample_link_def link_start_defs sample_service_def sendable_def push_command_def handle_send_next_command_def
  send_request_def sig_Enqueue_def eb_Enqueue_def sm_SendInformationRequest_def sm_SendDisconnectionRequest_def
  send_configuration_request_def kInvalidSignalId_def kInitialSignalId_def SignalId_def sig_inc_def CancelAlarm_def
  on_security_result_for_incoming_def send_connection_response_def AllocateDynamicChannel_def AllocateChannel_def search_cid_step
  DynamicChannelImpl_def update_channel_def FindChannelByCid_def RefreshRefCount_def SendInitialConfigRequestOrQueue_def
  SendInitialConfigRequest_def initial_options_def initial_rfc_def default_rfc_def dsm_GetService_def dsm_IsServiceRegistered_def
  configuration_of_def set_configuration_def default_configuration_def expects_def OnInformationResponse_def
  OnRemoteExtendedFeatureReceived_def connect_to_pending_dynamic_channels_def connect_loop.simps send_pending_configuration_requests_def
  kTimeout_def outstanding_def NumberOfChannels_def Let_def

subsection \<open>The tables, the idle alarm and the data pipeline\<close>

lemma tables_start: "Link dynamic fixed = Some s \<Longrightarrow> tables_ok s"
  using queue_start by blast

lemma idle_start: "Link dynamic fixed = Some s \<Longrightarrow> tables_ok s \<and> idle_ok s"
  using tables_start [of dynamic fixed s]
  by (auto simp: link_start_defs idle_ok_def references_def NumberOfChannels_def)

lemma matches_start: "Link dynamic fixed = Some s \<Longrightarrow> tables_ok s \<and> pipeline_matches s"
  using tables_start [of dynamic fixed s]
  by (auto simp: link_start_defs pipeline_matches_def attached_def configured_def configuration_of_def default_configuration_def
      split: if_splits)

lemma open_start: "Link dynamic fixed = Some s \<Longrightarrow> tables_ok s \<and> open_ok s"
  using tables_start [of dynamic fixed s]
  by (auto simp: link_start_defs open_ok_def signalling_open_def all_open_def)

lemma reach_matches: "link_reach s \<Longrightarrow> tables_ok s \<and> pipeline_matches s"
  by (rule matches.both.run.reach [OF _ matches_start])

lemma reach_open: "link_reach s \<Longrightarrow> tables_ok s \<and> open_ok s"
  by (rule opened.both.run.reach [OF _ open_start])

definition sample_incoming :: link_input where
  "sample_incoming = SecurityIncoming 1 70 (SignalId 5) True"

definition sample_opened :: classic_link where
  "sample_opened = sample_run [sample_incoming]"

lemma sample_opened_facts:
  "link_reach sample_opened \<and> NumberOfChannels (dynamic_channels sample_opened) = 1 \<and>
     map_of (fixed_channels sample_opened) 1 \<noteq> None \<and> signalling_open sample_opened \<and>
     (\<exists>ch. FindChannelByCid 64 (dynamic_channels sample_opened) = Some ch)"
  unfolding sample_opened_def
  by (rule sample_runI) (simp add: sample_incoming_def link_eval NumberOfChannels_def signalling_open_def)

lemmas sample_opened_reach = conjunct1 [OF sample_opened_facts]

text \<open>
  C10: in every state a link reaches, its tables are well formed.  Every dynamic channel is entered
  under its own identifier, its two identifiers are not zero, no two channels share a local or a
  remote identifier, the set of remote identifiers in use is that of the channels, and no fixed
  channel is entered twice.
\<close>

theorem link_tables_well_formed:
  assumes "link_reach s"
  shows "books_ok (dynamic_channels s) \<and> distinct (map fst (fixed_channels s))"
  using tables.run.reach [OF assms tables_start] by (simp add: tables_ok_def)

theorem link_tables_well_formed_witness:
  "books_ok (dynamic_channels sample_opened) \<and> distinct (map fst (fixed_channels sample_opened))"
  by (rule link_tables_well_formed [OF sample_opened_reach])

text \<open>
  C12: the idle alarm of a link is armed only while nothing uses the link.  As long as a fixed channel
  is acquired, a dynamic channel exists or the security module holds the link, the alarm is off and
  does not disconnect.
\<close>

theorem idle_alarm_only_when_unused:
  assumes "link_reach s" "0 < references s"
  shows "idle_alarm s = None \<and> link_handle IdleTimeout s = Some s"
  using idle.both.run.reach [OF assms(1) idle_start] assms(2) by (simp add: idle_ok_def idle_alarm_fires_def)

theorem idle_alarm_only_when_unused_witness:
  "0 < references sample_opened \<and> idle_alarm sample_opened = None"
proof -
  have "0 < references sample_opened" using sample_opened_facts by (simp add: references_def)
  then show ?thesis using idle_alarm_only_when_unused [OF sample_opened_reach] by simp
qed



subsection \<open>The command queue\<close>

lemma consecutive_valid: "consecutive is j \<Longrightarrow> i \<in> set is \<Longrightarrow> sig_IsValid i"
  by (induction "is") auto

text \<open>
  C13: the commands of a link that are not answered yet, the outstanding one and those that wait, have
  valid identifiers that follow each other, and while there are fewer than 255 of them no two share an
  identifier and the next identifier is free.  An answer of the peer therefore belongs to one command.
\<close>

theorem link_signal_ids_unambiguous:
  assumes "link_reach s" "length (commands s) < 255"
  shows "consecutive (map signal_id (commands s)) (next_signal_id s) \<and> distinct (map signal_id (commands s)) \<and>
     next_signal_id s \<notin> signal_id ` set (commands s) \<and> kInvalidSignalId \<notin> signal_id ` set (commands s)"
proof -
  let ?is = "map signal_id (commands s)"
  have ok: "consecutive ?is (next_signal_id s)" using reach_queue [OF assms(1)] by (simp add: queue_ok_def)
  have valid: "\<forall>i\<in>set ?is. sig_IsValid i" using consecutive_valid [OF ok] by blast
  show ?thesis
  proof (cases "commands s = []")
    case False
    then have first: "sig_IsValid (hd ?is)" using valid by (cases "commands s") simp_all
    have it: "?is = map (\<lambda>k. (sig_inc ^^ k) (hd ?is)) [0..<length (commands s)]"
      "next_signal_id s = (sig_inc ^^ length (commands s)) (hd ?is)"
      using consecutive_iterate [OF ok] False by simp_all
    have "distinct (map (\<lambda>k. (sig_inc ^^ k) (hd ?is)) [0..<Suc (length (commands s))])"
      using sig_ids_distinct [OF first] assms(2) by (auto simp: distinct_map inj_on_def simp del: upt_Suc)
    then have "distinct (?is @ [next_signal_id s])" using it by simp
    then show ?thesis using ok valid by (auto simp: valid_iff)
  qed (use ok in simp)
qed

definition sample_asking :: classic_link where
  "sample_asking = sample_run [RequestInformation 2, RequestInformation 3]"

lemma sample_asking_facts:
  "link_reach sample_asking \<and> length (commands sample_asking) = 2 \<and> progress sample_asking \<and>
     \<not> stalls CommandTimeout sample_asking \<and> (\<exists>s. link_handle CommandTimeout sample_asking = Some s)"
  unfolding sample_asking_def
  by (rule sample_runI) (simp add: link_eval commands_def progress_def sig_alarm_fires_def on_command_timeout_def)

lemmas sample_asking_reach = conjunct1 [OF sample_asking_facts]

theorem link_signal_ids_unambiguous_witness:
  "length (commands sample_asking) = 2 \<and> distinct (map signal_id (commands sample_asking))"
  using link_signal_ids_unambiguous [OF sample_asking_reach] sample_asking_facts by simp

text \<open>
  C6: the command queue of a link moves.  While a command is outstanding the alarm is armed, and when
  none is outstanding nothing waits; every input keeps this, but for an alarm that runs out on a
  configuration request, a connection that is accepted before the features of the peer are known, and
  the end of the ACL connection.
\<close>

theorem command_queue_moves:
  assumes "link_reach s" "progress s" "link_handle e s = Some s'" "\<not> stalls e s"
  shows "progress s'"
  using progress_step [OF assms(3)] reach_queue [OF assms(1)] assms(2,4) by simp

theorem command_queue_moves_witness:
  "\<exists>s. link_handle CommandTimeout sample_asking = Some s \<and> progress s"
  using command_queue_moves [OF sample_asking_reach] sample_asking_facts by blast

text \<open>
  C34: when the alarm runs out on a configuration request, the queue stands still: the request stays
  outstanding with no alarm, the disconnection request it causes only waits behind it, and another
  alarm does nothing.
\<close>

theorem configuration_timeout_stalls:
  assumes "link_reach s" "outstanding s" "pending_code (command_just_sent s) = CONFIGURATION_REQUEST" "sig_alarm s \<noteq> None"
    and "link_handle CommandTimeout s = Some s'"
  shows "\<not> progress s' \<and> command_just_sent s' = command_just_sent s \<and> sig_buffer s' = sig_buffer s \<and>
     (\<exists>c. pending_commands s' = pending_commands s @ [c] \<and> pending_code c = DISCONNECTION_REQUEST) \<and>
     link_handle CommandTimeout s' = Some s'"
  using assms(2-5)
  by (auto simp: sig_alarm_fires_def on_command_timeout_def sm_SendDisconnectionRequest_def push_command_def outstanding_def
      progress_def bind_eq_Some_conv Let_def)

definition sample_configuring :: classic_link where
  "sample_configuring = sample_run [RequestInformation 2, Command (InformationResponse 1 2 0 [0, 0, 0, 0]), sample_incoming]"

lemma sample_configuring_facts:
  "link_reach sample_configuring \<and> outstanding sample_configuring \<and> sig_alarm sample_configuring \<noteq> None \<and>
     pending_code (command_just_sent sample_configuring) = CONFIGURATION_REQUEST \<and>
     (\<exists>s. link_handle CommandTimeout sample_configuring = Some s)"
  unfolding sample_configuring_def
  by (rule sample_runI) (simp add: link_eval sample_incoming_def sig_alarm_fires_def on_command_timeout_def
      FindChannelByRemoteCid_def)

theorem configuration_timeout_stalls_witness:
  "\<exists>s. link_handle CommandTimeout sample_configuring = Some s \<and> \<not> progress s \<and> link_handle CommandTimeout s = Some s"
  using configuration_timeout_stalls [of sample_configuring] sample_configuring_facts by blast

subsection \<open>Users\<close>

text \<open>
  C7: no user of a link is called back more often than it asked for a connection.  In every run, the
  successes and failures reported to a user, together with the connections from which the user still
  waits for a report, are at most the connections the user requested.
\<close>

theorem callbacks_at_most_requests:
  assumes "Link dynamic fixed = Some start" "foldM link_handle es start = Some s"
  shows "answered u s + in_map u (pending_connections s) + in_list u (pending_dynamic_channel_callback_list s) \<le>
     sum_list (map (requested u) es)"
proof -
  have steps: "accounted u s \<le> accounted u t + sum_list (map (requested u) es)"
    if "foldM link_handle es t = Some s" "tables_ok t" for es t
    using that
  proof (induction es arbitrary: t)
    case (Cons e es)
    then obtain t' where t': "link_handle e t = Some t'" "foldM link_handle es t' = Some s" by (auto simp: bind_eq_Some_conv)
    show ?case
      using Cons.IH [OF t'(2) tables.run.handle [OF t'(1) Cons.prems(2)]] accounted_step [OF t'(1) Cons.prems(2), of u] by simp
  qed simp
  have "accounted u start = 0"
    using assms(1) by (auto simp: link_start_defs accounted_def answered_def in_list_def)
  then show ?thesis using steps [OF assms(2) tables_start [OF assms(1)]] by (simp add: accounted_def)
qed

definition sample_user :: PendingDynamicChannelConnection where
  "sample_user = \<lparr>conn_callbacks = Some 7, conn_configuration = \<lparr>channel_mode = MODE_BASIC, incoming_mtu = 672, minimal_remote_mtu = 48\<rparr>\<rparr>"

theorem callbacks_at_most_requests_witness:
  "\<exists>s. foldM link_handle [Connect 1 sample_user, AclDisconnected 0x13] sample_link = Some s \<and> answered 7 s = 1 \<and> answered 7 s \<le> 1"
proof -
  have "\<exists>s. foldM link_handle [Connect 1 sample_user, AclDisconnected 0x13] sample_link = Some s \<and> answered 7 s = 1"
    by (simp add: link_eval sample_user_def ReserveDynamicChannel_def ReserveChannel_def link_SendConnectionRequest_def
        sm_SendConnectionRequest_def log_event_def OnDisconnection_def OnAclDisconnected_def dyn_OnAclDisconnected_def fix_OnClosed_def
        invoke_fail_def answered_def)
  then show ?thesis
    using callbacks_at_most_requests [OF sample_starts, of "[Connect 1 sample_user, AclDisconnected 0x13]" _ 7]
    by (auto simp: in_list_def is_of_def sample_user_def simp del: foldM.simps)
qed



subsection \<open>Disconnection\<close>

lemma disconnect_channel_works:
  assumes "tables_ok s" "pipeline_matches s" "open_ok s" "signalling_open s" "FindChannelByCid cid (dynamic_channels s) = Some ch"
  shows "\<exists>s'. disconnect_channel cid ch s = Some s'"
proof -
  have "(cid, ch) \<in> set (dyn_channels (dynamic_channels s))"
    using books_find [of "dynamic_channels s" cid ch] assms(1,5) by (simp add: tables_ok_def)
  then have "\<not> dyn_closed ch" using assms(3,4) by (auto simp: open_ok_def all_open_def)
  then have "\<exists>a. update_channel cid (dyn_OnClosed 0) (dynamic_channels s) = Some a"
    using assms(5) by (simp add: update_channel_def dyn_OnClosed_def Let_def)
  moreover have "\<exists>p. DetachChannel cid (data_pipeline s) = Some p" if "config_state (configuration_of cid s) = CONFIGURED"
    using assms(2) that by (auto simp: pipeline_matches_def configured_def attached_def DetachChannel_def)
  moreover have "configuration_of cid (s\<lparr>dynamic_channels := a\<rparr>) = configuration_of cid s" for a
    by (simp add: configuration_of_def)
  ultimately show ?thesis by (auto simp: disconnect_channel_def set_configuration_def Let_def)
qed

lemma free_gone: "FindChannelByCid cid (dynamic_channels (FreeDynamicChannel cid s)) = None"
  by (auto simp: FreeDynamicChannel_def free_dynamic_def FindChannelByCid_def free_channels map_of_eq_None_iff)



subsection \<open>What a peer can do to a link\<close>

text \<open>The commands of a link only pile up in front of the signalling channel.\<close>

definition buffer_grows :: "classic_link \<Rightarrow> classic_link \<Rightarrow> bool" where
  "buffer_grows s s' \<longleftrightarrow> (\<forall>b. sig_buffer s = Some b \<longrightarrow> (\<exists>b' cs. sig_buffer s' = Some b' \<and> eb_buffer b' = eb_buffer b @ cs))"

lemma buffer_grows_refl: "sig_buffer s' = sig_buffer s \<Longrightarrow> buffer_grows s s'"
  by (simp add: buffer_grows_def)

lemma push_grows: "push_command f s = Some s' \<Longrightarrow> buffer_grows s s'"
  by (auto simp: push_command_def handle_send_next_command_def send_request_def sig_Enqueue_def eb_Enqueue_def buffer_grows_def
      bind_eq_Some_conv Let_def split: if_splits list.splits CommandCode.splits option.splits)

lemma initial_request_grows: "SendInitialConfigRequestOrQueue cid s = Some s' \<Longrightarrow> buffer_grows s s'"
  by (auto simp: SendInitialConfigRequestOrQueue_def SendInitialConfigRequest_def send_configuration_request_def set_configuration_def
      bind_eq_Some_conv Let_def split: if_splits intro: buffer_grows_refl dest!: push_grows) (simp_all add: buffer_grows_def)

lemma initial_request_tables: "SendInitialConfigRequestOrQueue cid s = Some s' \<Longrightarrow> dynamic_channels s' = dynamic_channels s"
  by (auto simp: SendInitialConfigRequestOrQueue_def SendInitialConfigRequest_def send_configuration_request_def
      bind_eq_Some_conv Let_def split: if_splits dest!: data_part_push data_part_eqD(3))

lemma allocated_remote:
  assumes "AllocateDynamicChannel psm rcid s = Some (new, s')" "rcid \<notin> used_remote_cid (dynamic_channels s)"
    "search_cid (used_cid (dynamic_channels s)) kFirstDynamicChannel \<noteq> None"
  shows "\<exists>cid ch. new = Some cid \<and> (cid, ch) \<in> set (dyn_channels (dynamic_channels s')) \<and> dyn_remote_cid ch = rcid"
  using assms
  by (auto simp: AllocateDynamicChannel_def AllocateChannel_def try_emplace_def update_channel_def FindChannelByCid_def
      map_add_Some_iff bind_eq_Some_conv Let_def split: if_splits dest!: new_channelD)
    (rule exI, rule conjI, rule disjI1, rule refl, simp)

text \<open>
  C37: a connection the security module refuses is opened all the same.  The peer is told first that
  the connection is blocked and then, with the same identifier, that it is accepted, and a channel is
  allocated for it.
\<close>

theorem security_block_still_connects:
  assumes "link_handle (SecurityIncoming psm rcid i False) s = Some s'" "sig_buffer s = Some b"
    and "rcid \<notin> used_remote_cid (FreeChannel 0 (dynamic_channels s))"
    and "search_cid (used_cid (FreeChannel 0 (dynamic_channels s))) kFirstDynamicChannel \<noteq> None"
  shows "\<exists>b' cid ch cs. sig_buffer s' = Some b' \<and>
     eb_buffer b' = eb_buffer b @
       [ConnectionResponse (sig_value i) 0 rcid SECURITY_BLOCK NO_FURTHER_INFORMATION_AVAILABLE,
        ConnectionResponse (sig_value i) cid rcid CONNECTION_SUCCESS NO_FURTHER_INFORMATION_AVAILABLE] @ cs \<and>
     (cid, ch) \<in> set (dyn_channels (dynamic_channels s')) \<and> dyn_remote_cid ch = rcid"
proof -
  let ?r = "ConnectionResponse (sig_value i) 0 rcid SECURITY_BLOCK NO_FURTHER_INFORMATION_AVAILABLE"
  let ?s = "s\<lparr>sig_buffer := Some (eb_Enqueue ?r b)\<rparr>"
  obtain t u new where t: "OnOutgoingConnectionRequestFail 0 (connection_result FAIL_SECURITY_BLOCK NO_RESOURCES_AVAILABLE) ?s = Some t"
    and u: "AllocateDynamicChannel psm rcid t = Some (new, u)"
    and rest: "(case new of None \<Rightarrow> Some u | Some cid \<Rightarrow>
        Option.bind (send_connection_response i rcid cid CONNECTION_SUCCESS NO_FURTHER_INFORMATION_AVAILABLE u)
          (SendInitialConfigRequestOrQueue cid)) = Some s'"
    using assms(1,2) by (auto simp: on_security_result_for_incoming_def send_connection_response_def sig_Enqueue_def bind_eq_Some_conv)
  have tables: "dynamic_channels t = FreeChannel 0 (dynamic_channels s)" using effect_request_failed [OF t] by simp
  have buffer: "sig_buffer u = Some (eb_Enqueue ?r b)"
    using queue_request_failed [OF t] queue_allocate [OF u] by (simp add: queue_part_def)
  obtain cid ch where ch: "new = Some cid" "(cid, ch) \<in> set (dyn_channels (dynamic_channels u))" "dyn_remote_cid ch = rcid"
    using allocated_remote [OF u] assms(3,4) tables by auto
  let ?a = "ConnectionResponse (sig_value i) cid rcid CONNECTION_SUCCESS NO_FURTHER_INFORMATION_AVAILABLE"
  have v: "SendInitialConfigRequestOrQueue cid (u\<lparr>sig_buffer := Some (eb_Enqueue ?a (eb_Enqueue ?r b))\<rparr>) = Some s'"
    using rest ch(1) buffer by (simp add: send_connection_response_def sig_Enqueue_def)
  then obtain b' cs where "sig_buffer s' = Some b'" "eb_buffer b' = eb_buffer b @ [?r, ?a] @ cs"
    using initial_request_grows [OF v] by (auto simp: buffer_grows_def eb_Enqueue_def)
  then show ?thesis using ch initial_request_tables [OF v] by auto
qed

theorem security_block_still_connects_witness:
  "\<exists>s b. link_handle (SecurityIncoming 1 70 (SignalId 5) False) sample_link = Some s \<and> sig_buffer s = Some b \<and>
     length (eb_buffer b) \<ge> 2"
proof -
  have "\<exists>s. link_handle (SecurityIncoming 1 70 (SignalId 5) False) sample_link = Some s"
    by (simp add: link_eval OnOutgoingConnectionRequestFail_def free_dynamic_def FreeChannel_def)
  then obtain s where s: "link_handle (SecurityIncoming 1 70 (SignalId 5) False) sample_link = Some s" by blast
  show ?thesis using s security_block_still_connects [OF s, of EnqueueBuffer]
    by (auto simp: link_eval FreeChannel_def)
qed


definition sample_connecting :: classic_link where
  "sample_connecting = sample_run [sample_incoming, Connect 1 sample_user, SecurityOutgoing 1 65 True]"

lemma sample_connecting_facts:
  "link_reach sample_connecting \<and> expects (SignalId 1) CONNECTION_REQUEST sample_connecting \<and>
     source_cid (command_just_sent sample_connecting) = 65 \<and> 70 \<in> used_remote_cid (dynamic_channels sample_connecting)"
  unfolding sample_connecting_def
  by (rule sample_runI) (simp add: link_eval sample_incoming_def sample_user_def ReserveDynamicChannel_def ReserveChannel_def
      link_SendConnectionRequest_def sm_SendConnectionRequest_def log_event_def on_security_result_for_outgoing_def IsAuthenticated_def)


lemma initial_requests_need_channels:
  "cid \<in> set cids \<Longrightarrow> FindChannelByCid cid (dynamic_channels s) = None \<Longrightarrow> foldM SendInitialConfigRequest cids s = None"
proof (induction cids arbitrary: s)
  case (Cons c cids)
  show ?case
  proof (cases "SendInitialConfigRequest c s")
    case (Some t)
    then have "dynamic_channels t = dynamic_channels s"
      by (auto simp: SendInitialConfigRequest_def send_configuration_request_def bind_eq_Some_conv Let_def
          dest!: data_part_push data_part_eqD(3))
    moreover have "c \<noteq> cid" using Some Cons.prems(2) by (auto simp: SendInitialConfigRequest_def)
    ultimately show ?thesis using Some Cons by simp
  qed simp
qed simp

text \<open>
  C36: a channel that is closed while its configuration request waits for the features of the peer
  aborts the link: when the features arrive, the request is sent for a channel that is gone.
\<close>

theorem features_after_close_abort:
  assumes "expects (SignalId i) INFORMATION_REQUEST s" "4 \<le> length body" "pending_dynamic_psm_list s = []"
    and "cid \<in> set (pending_outgoing_configuration_request_list s)" "FindChannelByCid cid (dynamic_channels s) = None"
  shows "handle_command (InformationResponse i EXTENDED_FEATURES_SUPPORTED result body) s = None"
proof -
  have "OnRemoteExtendedFeatureReceived e f s = None" for e f
    using assms(3-5) initial_requests_need_channels
    by (simp add: OnRemoteExtendedFeatureReceived_def connect_to_pending_dynamic_channels_def connect_loop.simps
        send_pending_configuration_requests_def)
  then show ?thesis using assms(1,2) by (simp add: OnInformationResponse_def)
qed

definition sample_closed :: classic_link where
  "sample_closed = sample_run [RequestInformation 2, sample_incoming, Command (DisconnectionRequest 9 64 70)]"

lemma sample_closed_facts:
  "link_reach sample_closed \<and> expects (SignalId 1) INFORMATION_REQUEST sample_closed \<and> pending_dynamic_psm_list sample_closed = [] \<and>
     64 \<in> set (pending_outgoing_configuration_request_list sample_closed) \<and>
     FindChannelByCid 64 (dynamic_channels sample_closed) = None"
  unfolding sample_closed_def
  by (rule sample_runI) (simp add: link_eval sample_incoming_def OnDisconnectionRequest_def disconnect_channel_def dyn_OnClosed_def
      FreeDynamicChannel_def free_dynamic_def FreeChannel_def erase_configuration_def)

theorem features_after_close_abort_witness:
  "link_reach sample_closed \<and> handle_command (InformationResponse 1 EXTENDED_FEATURES_SUPPORTED 0 [0, 0, 0, 0]) sample_closed = None"
  using features_after_close_abort [of 1 sample_closed "[0, 0, 0, 0]" 64 0] sample_closed_facts by simp

text \<open>
  The lists of connections that wait for the features are not cleared: their first entry stays, without
  its callbacks.
\<close>

definition moved_out :: "classic_link \<Rightarrow> bool" where
  "moved_out s \<longleftrightarrow> pending_dynamic_psm_list s \<noteq> [] \<and> pending_dynamic_channel_callback_list s \<noteq> [] \<and>
     conn_callbacks (pending_dynamic_channel_callback_list s ! 0) = None \<and>
     channel_mode (conn_configuration (pending_dynamic_channel_callback_list s ! 0)) = MODE_ERTM"

lemma connect_lists:
  assumes "link_SendConnectionRequest psm cid conn s = Some s'"
  shows "\<exists>psms conns. pending_dynamic_psm_list s' = pending_dynamic_psm_list s @ psms \<and>
     pending_dynamic_channel_callback_list s' = pending_dynamic_channel_callback_list s @ conns"
  using assms by (auto simp: link_SendConnectionRequest_def sm_SendConnectionRequest_def invoke_fail_def free_dynamic_def log_event_def
      bind_eq_Some_conv split: if_splits option.splits)

lemma connect_pending_lists:
  assumes "connect_pending k s = Some s'"
  shows "k < length (pending_dynamic_channel_callback_list s) \<and> (\<exists>psms conns. pending_dynamic_psm_list s' = pending_dynamic_psm_list s @ psms \<and>
     pending_dynamic_channel_callback_list s' = (pending_dynamic_channel_callback_list s)
       [k := (pending_dynamic_channel_callback_list s ! k)\<lparr>conn_callbacks := None\<rparr>] @ conns)"
proof -
  obtain cid t conn where t: "k < length (pending_dynamic_channel_callback_list s)"
    "ReserveDynamicChannel (take_callbacks k s) = Some (cid, t)"
    "link_SendConnectionRequest (pending_dynamic_psm_list t ! k) cid conn t = Some s'"
    using assms by (auto simp: connect_pending_def bind_eq_Some_conv Let_def)
  have "pending_dynamic_psm_list t = pending_dynamic_psm_list s"
    "pending_dynamic_channel_callback_list t = pending_dynamic_channel_callback_list (take_callbacks k s)"
    using t(2) by (auto simp: ReserveDynamicChannel_def take_callbacks_def bind_eq_Some_conv)
  then show ?thesis using connect_lists [OF t(3)] t(1) by (auto simp: take_callbacks_def)
qed

text \<open>Once the features are known no entry is added, so the loop visits each waiting entry once and ends.\<close>

lemma connect_pending_keeps:
  assumes "connect_pending k s = Some s'" "remote_extended_feature_received s"
  shows "remote_extended_feature_received s' \<and> pending_dynamic_psm_list s' = pending_dynamic_psm_list s"
  using assms by (auto simp: connect_pending_def ReserveDynamicChannel_def take_callbacks_def link_SendConnectionRequest_def
      sm_SendConnectionRequest_def invoke_fail_def free_dynamic_def log_event_def bind_eq_Some_conv Let_def
      split: if_splits option.splits)

lemma connect_loop_visits:
  assumes "remote_extended_feature_received s"
  shows "connect_loop k s = foldM connect_pending [k..<length (pending_dynamic_psm_list s)] s"
  using assms
proof (induction "length (pending_dynamic_psm_list s) - k" arbitrary: k s)
  case 0
  then show ?case by (simp add: connect_loop.simps)
next
  case (Suc n)
  show ?case
  proof (cases "connect_pending k s")
    case (Some s')
    have keep: "remote_extended_feature_received s'" "pending_dynamic_psm_list s' = pending_dynamic_psm_list s"
      using connect_pending_keeps [OF Some Suc.prems] by simp_all
    with Suc.hyps(2) have "connect_loop (Suc k) s' = foldM connect_pending [Suc k..<length (pending_dynamic_psm_list s)] s'"
      using Suc.hyps(1) [of s' "Suc k"] by simp
    with Some Suc.hyps(2) show ?thesis by (simp add: connect_loop.simps [of k] upt_conv_Cons)
  qed (use Suc.hyps(2) in \<open>simp add: connect_loop.simps [of k] upt_conv_Cons\<close>)
qed

lemma moved_out_pending: "connect_pending k s = Some s' \<Longrightarrow> moved_out s \<Longrightarrow> moved_out s'"
  using connect_pending_lists [of k s s'] by (cases k) (auto simp: moved_out_def nth_append nth_list_update)

lemma moved_out_loop: "connect_loop k s = Some s' \<Longrightarrow> moved_out s \<longrightarrow> moved_out s'"
proof (induction rule: connect_loop.raw_induct [rotated, consumes 1])
  case (1 loop k s s')
  then show ?case by (auto simp: bind_eq_Some_conv split: if_splits) (blast intro: moved_out_pending)
qed

lemma moved_out_cong:
  "pending_dynamic_psm_list s' = pending_dynamic_psm_list s \<Longrightarrow>
     pending_dynamic_channel_callback_list s' = pending_dynamic_channel_callback_list s \<Longrightarrow> moved_out s \<Longrightarrow> moved_out s'"
  by (simp add: moved_out_def)

lemma moved_out_initial_request: "SendInitialConfigRequest c s = Some s' \<Longrightarrow> moved_out s \<Longrightarrow> moved_out s'"
  by (erule moved_out_cong [rotated 2])
    (auto simp: SendInitialConfigRequest_def send_configuration_request_def set_configuration_def bind_eq_Some_conv Let_def
      dest!: data_part_push dest: data_part_eqD(8,13))

lemma moved_out_features:
  assumes "OnRemoteExtendedFeatureReceived e f s = Some s'" "pending_dynamic_psm_list s \<noteq> []"
    "channel_mode (conn_configuration (pending_dynamic_channel_callback_list s ! 0)) = MODE_ERTM"
  shows "moved_out s'"
proof -
  let ?s = "s\<lparr>remote_supports_ertm := e, remote_supports_fcs := f, remote_extended_feature_received := True\<rparr>"
  obtain t u where t: "connect_pending 0 ?s = Some t" "connect_loop 1 t = Some u"
    and u: "send_pending_configuration_requests u = Some s'"
    using assms(1,2) by (auto simp: OnRemoteExtendedFeatureReceived_def connect_to_pending_dynamic_channels_def
        connect_loop.simps [of 0] bind_eq_Some_conv)
  have "moved_out t" using connect_pending_lists [OF t(1)] assms(2,3) by (auto simp: moved_out_def nth_append)
  then have "moved_out u" using moved_out_loop [OF t(2)] by blast
  moreover obtain v where v: "foldM SendInitialConfigRequest (pending_outgoing_configuration_request_list u) u = Some v"
    "s' = v\<lparr>pending_outgoing_configuration_request_list := []\<rparr>"
    using u by (auto simp: send_pending_configuration_requests_def bind_eq_Some_conv)
  ultimately have "moved_out v"
    using foldM_invariant [OF v(1), of moved_out] moved_out_initial_request by blast
  then show ?thesis using v(2) by (simp add: moved_out_def)
qed

lemma moved_out_abort: "moved_out s \<Longrightarrow> OnRemoteExtendedFeatureReceived False f s = None"
proof -
  assume m: "moved_out s"
  let ?s = "s\<lparr>remote_supports_ertm := False, remote_supports_fcs := f, remote_extended_feature_received := True\<rparr>"
  have "connect_pending 0 ?s = None"
  proof (rule ccontr)
    assume "connect_pending 0 ?s \<noteq> None"
    then obtain cid t s' where "ReserveDynamicChannel (take_callbacks 0 ?s) = Some (cid, t)"
      "link_SendConnectionRequest (pending_dynamic_psm_list t ! 0) cid (pending_dynamic_channel_callback_list s ! 0) t = Some s'"
      by (auto simp: connect_pending_def Let_def bind_eq_Some_conv)
    then show False
      using m by (auto simp: ReserveDynamicChannel_def take_callbacks_def link_SendConnectionRequest_def invoke_fail_def moved_out_def
          bind_eq_Some_conv)
  qed
  then show ?thesis
    using m by (simp add: OnRemoteExtendedFeatureReceived_def connect_to_pending_dynamic_channels_def connect_loop.simps [of 0]
        moved_out_def)
qed

text \<open>
  C35: a peer aborts the link with a second answer about its features.  When a connection in ERTM mode
  waited for the first answer and no other command is outstanding, a second answer with identifier
  zero that denies ERTM is taken for the answer to the command that is already done; the waiting
  connection is started again, with callbacks that have been moved away.
\<close>

theorem second_feature_answer_aborts:
  assumes "handle_command (InformationResponse i EXTENDED_FEATURES_SUPPORTED result body) s = Some s'"
    and "expects (SignalId i) INFORMATION_REQUEST s" "4 \<le> length body" "pending_dynamic_psm_list s \<noteq> []"
    and "channel_mode (conn_configuration (pending_dynamic_channel_callback_list s ! 0)) = MODE_ERTM"
    and "expects (SignalId 0) INFORMATION_REQUEST s'" "4 \<le> length body'" "\<not> bit (body' ! 0) 3"
  shows "handle_command (InformationResponse 0 EXTENDED_FEATURES_SUPPORTED result' body') s' = None"
proof -
  obtain t where t: "OnRemoteExtendedFeatureReceived (bit (body ! 0) 3) (bit (body ! 0) 5) s = Some t"
    "handle_send_next_command (CancelAlarm t) = Some s'"
    using assms(1-3) by (auto simp: OnInformationResponse_def bind_eq_Some_conv)
  have same: "data_part s' = data_part t" using data_part_next [OF t(2)] by simp
  have "moved_out s'"
    by (rule moved_out_cong [OF data_part_eqD(13) [OF same] data_part_eqD(8) [OF same] moved_out_features [OF t(1) assms(4,5)]])
  from moved_out_abort [OF this] show ?thesis
    using assms(6-8) by (simp add: OnInformationResponse_def)
qed

definition sample_ertm_user :: PendingDynamicChannelConnection where
  "sample_ertm_user = sample_user\<lparr>conn_configuration := (conn_configuration sample_user)\<lparr>channel_mode := MODE_ERTM\<rparr>\<rparr>"

definition sample_waiting :: classic_link where
  "sample_waiting = sample_run [RequestInformation 2, Connect 1 sample_ertm_user]"

lemma sample_waiting_facts:
  "link_reach sample_waiting \<and> expects (SignalId 1) INFORMATION_REQUEST sample_waiting \<and> pending_dynamic_psm_list sample_waiting \<noteq> [] \<and>
     channel_mode (conn_configuration (pending_dynamic_channel_callback_list sample_waiting ! 0)) = MODE_ERTM \<and>
     (\<exists>s. handle_command (InformationResponse 1 EXTENDED_FEATURES_SUPPORTED 0 [8, 0, 0, 0]) sample_waiting = Some s \<and>
        expects (SignalId 0) INFORMATION_REQUEST s)"
  unfolding sample_waiting_def
  by (rule sample_runI) (simp add: link_eval sample_ertm_user_def sample_user_def ReserveDynamicChannel_def ReserveChannel_def
      link_SendConnectionRequest_def free_dynamic_def FreeChannel_def connect_pending_def take_callbacks_def
      sm_SendConnectionRequest_def log_event_def)

theorem second_feature_answer_aborts_witness:
  "\<exists>s. handle_command (InformationResponse 1 EXTENDED_FEATURES_SUPPORTED 0 [8, 0, 0, 0]) sample_waiting = Some s \<and>
     handle_command (InformationResponse 0 EXTENDED_FEATURES_SUPPORTED 0 [0, 0, 0, 0]) s = None"
proof -
  obtain s where s: "handle_command (InformationResponse 1 EXTENDED_FEATURES_SUPPORTED 0 [8, 0, 0, 0]) sample_waiting = Some s"
    "expects (SignalId 0) INFORMATION_REQUEST s" using sample_waiting_facts by blast
  show ?thesis
    using s(1) second_feature_answer_aborts [OF s(1) _ _ _ _ s(2), of "[0, 0, 0, 0]" 0] sample_waiting_facts by auto
qed

end
