(* ===== verification/Classic_Handshake.thy ===== *)
theory Classic_Handshake
  imports Classic_Claims
begin

text \<open>
  Two links talking to each other: the commands of one, encoded as the wire format says, are parsed
  and handled by the other.  Both links start fresh, ask for the features of the peer, and one of them
  connects; at the end the channel is open on both sides and carries data.
\<close>

subsection \<open>Two links\<close>

definition deliver ::
    "(bytes \<Rightarrow> ConfigurationOption list) \<Rightarrow> classic_link \<Rightarrow> classic_link \<Rightarrow> (classic_link \<times> classic_link) option" where
  "deliver get_config a b = do {
     buffer \<leftarrow> sig_buffer a;
     (c, buffer, _) \<leftarrow> eb_enqueue_callback buffer;
     b \<leftarrow> on_incoming_packet get_config (PacketView (encode_control c)) b;
     Some (a\<lparr>sig_buffer := Some buffer\<rparr>, b) }"

text \<open>A security module that grants what it was asked last.\<close>

definition grant :: "classic_link \<Rightarrow> classic_link option" where
  "grant s =
     (case last (link_log s) of
        EnforceOutgoing policy psm cid \<Rightarrow> link_handle (SecurityOutgoing psm cid True) s
      | EnforceIncoming policy psm cid i \<Rightarrow> link_handle (SecurityIncoming psm cid i True) s
      | _ \<Rightarrow> None)"

definition ask_features ::
    "(bytes \<Rightarrow> ConfigurationOption list) \<Rightarrow> classic_link \<Rightarrow> classic_link \<Rightarrow> (classic_link \<times> classic_link) option" where
  "ask_features get_config a b = do {
     a \<leftarrow> link_handle (RequestInformation EXTENDED_FEATURES_SUPPORTED) a;
     (a, b) \<leftarrow> deliver get_config a b;
     (b, a) \<leftarrow> deliver get_config b a;
     Some (a, b) }"

definition open_channel ::
    "(bytes \<Rightarrow> ConfigurationOption list) \<Rightarrow> Psm \<Rightarrow> PendingDynamicChannelConnection \<Rightarrow> classic_link \<Rightarrow> classic_link \<Rightarrow>
       (classic_link \<times> classic_link) option" where
  "open_channel get_config psm conn a b = do {
     a \<leftarrow> link_handle (Connect psm conn) a;
     a \<leftarrow> grant a;
     (a, b) \<leftarrow> deliver get_config a b;
     b \<leftarrow> grant b;
     (b, a) \<leftarrow> deliver get_config b a;
     (b, a) \<leftarrow> deliver get_config b a;
     (a, b) \<leftarrow> deliver get_config a b;
     (a, b) \<leftarrow> deliver get_config a b;
     (b, a) \<leftarrow> deliver get_config b a;
     Some (a, b) }"

text \<open>What the parser of the configuration options has to do for the options the two links send.\<close>

definition parses :: "(bytes \<Rightarrow> ConfigurationOption list) \<Rightarrow> ConfigurationOption list \<Rightarrow> bool" where
  "parses get_config options \<longleftrightarrow> get_config (concat (map encode_option options)) = options"

definition parses_initial :: "(bytes \<Rightarrow> ConfigurationOption list) \<Rightarrow> bool" where
  "parses_initial get_config \<longleftrightarrow> (\<forall>mtu. parses get_config [MtuConfigurationOption False mtu] \<and>
     parses get_config [MtuConfigurationOption False mtu, RetransmissionOption False (initial_rfc MODE_ERTM)] \<and>
     parses get_config [MtuConfigurationOption False mtu, RetransmissionOption False (initial_rfc MODE_ERTM),
       FrameCheckSequenceOption False FCS_DEFAULT])"

lemma options_parsed_parses [simp]:
  "options_parsed get_config (ConfigurationRequest i cid c config) = parses get_config config"
  "options_parsed get_config (ConfigurationResponse i cid c result config) = parses get_config config"
  by (simp_all add: parses_def)

declare options_parsed.simps(1,2) [simp del]

lemma deliver_command:
  assumes "sig_buffer a = Some \<lparr>eb_buffer = c # cs, enqueue_registered = True, callback_on_empty = False\<rparr>"
    "wf_control c" "options_parsed get_config c"
  shows "deliver get_config a b = do {
     b \<leftarrow> handle_command c b;
     Some (a\<lparr>sig_buffer := Some \<lparr>eb_buffer = cs, enqueue_registered = (cs \<noteq> []), callback_on_empty = False\<rparr>\<rparr>, b) }"
proof -
  have "get_commands [] = Some []" by (subst get_commands.simps) simp
  then have "on_incoming_packet get_config (PacketView (encode_control c)) b = handle_command c b" for b
    using get_commands_encode [OF assms(2), of "[]"] ControlView_encode [OF assms(2), of "[]"] command_view_single [OF assms(2,3)]
    by (cases "handle_command c b") (simp_all add: on_incoming_packet_def GetCommandsFromPacketView_def handle_one_command_def)
  then show ?thesis using assms(1) by (simp add: deliver_def eb_enqueue_callback_def Let_def)
qed

lemmas handshake_eval = link_start_defs push_command_def handle_send_next_command_def
  send_request_def sig_Enqueue_def eb_Enqueue_def sm_SendInformationRequest_def
  send_configuration_request_def kInvalidSignalId_def kInitialSignalId_def SignalId_def sig_inc_def CancelAlarm_def
  on_security_result_for_incoming_def send_connection_response_def AllocateDynamicChannel_def AllocateChannel_def search_cid_step
  DynamicChannelImpl_def update_channel_def FindChannelByCid_def RefreshRefCount_def SendInitialConfigRequestOrQueue_def
  SendInitialConfigRequest_def initial_options_def initial_rfc_def default_rfc_def
  configuration_of_def set_configuration_def default_configuration_def expects_def OnInformationResponse_def OnInformationRequest_def
  OnRemoteExtendedFeatureReceived_def connect_to_pending_dynamic_channels_def connect_loop.simps send_pending_configuration_requests_def
  kTimeout_def NumberOfChannels_def Let_def

definition featured :: "dynamic_services \<Rightarrow> fixed_services \<Rightarrow> classic_link" where
  "featured dynamic fixed = (the (Link dynamic fixed))\<lparr>next_signal_id := SignalId 2,
     command_just_sent := \<lparr>signal_id = SignalId 0, pending_code = INFORMATION_REQUEST, pending_psm = 0, source_cid = 0,
       destination_cid = 0, info_type = EXTENDED_FEATURES_SUPPORTED, pending_config = []\<rparr>,
     remote_extended_feature_received := True, remote_supports_ertm := True, remote_supports_fcs := True\<rparr>"

lemma features_exchanged:
  assumes "Link da fa = Some a" "Link db fb = Some b"
  shows "Option.bind (ask_features get_config a b) (\<lambda>(a, b). ask_features get_config b a) = Some (featured db fb, featured da fa)"
  using assms
  by (auto simp: ask_features_def deliver_command featured_def handshake_eval)

lemmas open_eval = handshake_eval dsm_GetService_def dsm_IsServiceRegistered_def ReserveDynamicChannel_def ReserveChannel_def
  link_SendConnectionRequest_def sm_SendConnectionRequest_def log_event_def on_security_result_for_outgoing_def IsAuthenticated_def
  OnConnectionRequest_def OnConnectionResponse_def AllocateReservedDynamicChannel_def AllocateReservedChannel_def
  OnConfigurationRequest_def OnConfigurationResponse_def channel_configured_def NotifyChannelCreation_def erase_pending_def
  pm_UpdateClassicConfiguration_def s_UpdateClassicConfiguration_def Encrypt_def continuation_bytes_def option_header_def

lemma Sender_fields [simp]:
  "sender_mode (Sender c r m k) = L2CAP_BASIC" "channel_id (Sender c r m k) = c" "remote_channel_id (Sender c r m k) = r"
  by (simp_all add: Sender_def try_register_dequeue_def)

lemma channel_opens:
  assumes "map_of da psm = Some sa" "map_of db psm = Some sb" "IsPsmValid psm"
    and "channel_mode (config_option sa) = MODE_BASIC" "channel_mode (config_option sb) = MODE_BASIC"
    and "minimal_remote_mtu (config_option sa) \<le> incoming_mtu (config_option sb)"
      "minimal_remote_mtu (config_option sb) \<le> incoming_mtu (config_option sa)"
    and "conn_callbacks conn = Some u" "channel_mode (conn_configuration conn) = MODE_BASIC"
    and "parses_initial get_config"
  shows "\<exists>a b. open_channel get_config psm conn (featured da fa) (featured db fb) = Some (a, b) \<and>
    last (link_log a) = OpenCallback u 64 \<and> last (link_log b) = ServiceOpen psm 64 \<and>
    commands a = [] \<and> commands b = [] \<and> idle_alarm a = None \<and> idle_alarm b = None \<and>
    data_pipeline a = data_pipeline b \<and> data_pipeline b = DataPipelineManager\<lparr>next_controller := 3,
      sender_map := [1 \<mapsto> Sender 1 1 BASIC 0, 64 \<mapsto> Sender 64 64 BASIC 1]\<rparr>"
proof -
  have parsed: "parses get_config [MtuConfigurationOption False m]"
    "parses get_config [MtuConfigurationOption False m, RetransmissionOption False (initial_rfc MODE_ERTM)]"
    "parses get_config [MtuConfigurationOption False m, RetransmissionOption False (initial_rfc MODE_ERTM),
       FrameCheckSequenceOption False FCS_DEFAULT]" for m
    using assms(10) by (simp_all add: parses_initial_def)
  have mtu: "\<not> incoming_mtu (config_option sb) < minimal_remote_mtu (config_option sa)"
    "\<not> incoming_mtu (config_option sa) < minimal_remote_mtu (config_option sb)" using assms(6,7) by simp_all
  show ?thesis
  proof (cases "security_policy sa = SDP_ONLY_NO_SECURITY")
    case True
    then show ?thesis
      using assms(1-9) parsed mtu
      by (simp add: open_channel_def featured_def grant_def deliver_command open_eval commands_def outstanding_def)
  next
    case False
    then show ?thesis
      using assms(1-9) parsed mtu
      by (simp add: open_channel_def featured_def grant_def deliver_command open_eval commands_def outstanding_def)
  qed
qed

text \<open>An SDU of a user of one link, up to the upper queue of the channel at the other.\<close>

definition transfer :: "Cid \<Rightarrow> bytes \<Rightarrow> classic_link \<Rightarrow> classic_link \<Rightarrow> (classic_link \<times> classic_link) option" where
  "transfer cid sdu a b = do {
     a \<leftarrow> link_handle (Pipe (PipeDequeue cid sdu)) a;
     a \<leftarrow> link_handle (Pipe PipePosted) a;
     (packet, p) \<leftarrow> link_queue_enqueue_callback (data_pipeline a);
     b \<leftarrow> link_handle (Pipe (PipeReceive (PacketView (encode packet)))) b;
     Some (a\<lparr>data_pipeline := p\<rparr>, b) }"

definition upper_queue :: "Cid \<Rightarrow> classic_link \<Rightarrow> bytes list option" where
  "upper_queue cid s =
     (case sender_map (data_pipeline s) cid of None \<Rightarrow> None
      | Some t \<Rightarrow> (case sender_controller t of BasicMode c \<Rightarrow> Some (map bytes_of (eb_buffer (bm_enqueue_buffer c))) | _ \<Rightarrow> None))"

lemma sdu_transferred:
  assumes "data_pipeline a = p" "data_pipeline b = p" "length sdu < 65536"
    "p = DataPipelineManager\<lparr>next_controller := 3, sender_map := [1 \<mapsto> Sender 1 1 BASIC 0, 64 \<mapsto> Sender 64 64 BASIC 1]\<rparr>"
  shows "\<exists>a' b'. transfer 64 sdu a b = Some (a', b') \<and> upper_queue 64 b' = Some [sdu]"
proof -
  obtain v where v: "BasicFrameView (PacketView (basic_frame 64 sdu)) = Some (64, v)" "bytes_of v = sdu"
    using BasicFrameView_basic_frame [OF assms(3), of 64] by auto
  show ?thesis
    using assms(1,2) v unfolding assms(4)
    by (simp add: transfer_def upper_queue_def DataPipelineManager_def Sender_def try_register_dequeue_def dequeue_callback_def
        run_posted_def run_controller_def bm_OnSdu_def BasicModeDataController_def link_queue_enqueue_callback_def
        fifo_OnPacketsReady_def Fifo_def mpq_empty_queue_def Let_def try_register_link_queue_enqueue_def mpq_push_def mpq_pop_def
        mpq_front_def mpq_size_def unregister_if_empty_def mpq_empty_def fifo_next_channel_def mpq_set_front_def ASSERT_def
        GetDataController_def bm_GetNextPacket_def pm_OnPacketSent_def s_OnPacketSent_def link_queue_dequeue_callback_def bm_OnPdu_def
        eb_Enqueue_def EnqueueBuffer_def)
qed

lemma ertm_channel_opens:
  assumes "map_of da psm = Some sa" "map_of db psm = Some sb" "IsPsmValid psm"
    and "channel_mode (config_option sa) = MODE_ERTM" "channel_mode (config_option sb) = MODE_ERTM"
    and "minimal_remote_mtu (config_option sa) \<le> incoming_mtu (config_option sb)"
      "minimal_remote_mtu (config_option sb) \<le> incoming_mtu (config_option sa)"
    and "conn_callbacks conn = Some u" "channel_mode (conn_configuration conn) = MODE_ERTM"
    and "parses_initial get_config"
  shows "\<exists>a b. open_channel get_config psm conn (featured da fa) (featured db fb) = Some (a, b) \<and>
    last (link_log a) = OpenCallback u 64 \<and> last (link_log b) = ServiceOpen psm 64 \<and>
    commands a = [] \<and> commands b = [] \<and> idle_alarm a = None \<and> idle_alarm b = None \<and>
    data_pipeline a = data_pipeline b \<and> data_pipeline b = DataPipelineManager\<lparr>next_controller := 3,
      sender_map := [1 \<mapsto> Sender 1 1 BASIC 0, 64 \<mapsto> (Sender 64 64 BASIC 1)
        \<lparr>sender_controller := ErtmMode (ertm_configured 64 64 True (initial_rfc MODE_ERTM)), controller_number := Suc (Suc 0)\<rparr>]\<rparr>"
proof -
  have parsed: "parses get_config [MtuConfigurationOption False m]"
    "parses get_config [MtuConfigurationOption False m, RetransmissionOption False (initial_rfc MODE_ERTM)]"
    "parses get_config [MtuConfigurationOption False m, RetransmissionOption False (initial_rfc MODE_ERTM),
       FrameCheckSequenceOption False FCS_DEFAULT]" for m
    using assms(10) by (simp_all add: parses_initial_def)
  have mtu: "\<not> incoming_mtu (config_option sb) < minimal_remote_mtu (config_option sa)"
    "\<not> incoming_mtu (config_option sa) < minimal_remote_mtu (config_option sb)" using assms(6,7) by simp_all
  show ?thesis
  proof (cases "security_policy sa = SDP_ONLY_NO_SECURITY")
    case True
    then show ?thesis
      using assms(1-9) parsed mtu
      by (simp add: open_channel_def featured_def grant_def deliver_command open_eval commands_def outstanding_def fill_time_outs_def
        ertm_configured_def)
  next
    case False
    then show ?thesis
      using assms(1-9) parsed mtu
      by (simp add: open_channel_def featured_def grant_def deliver_command open_eval commands_def outstanding_def fill_time_outs_def
        ertm_configured_def)
  qed
qed

lemma features_exchanged_fresh:
  assumes "Link da fa = Some a" "Link db fb = Some b"
  obtains a' b' where "ask_features get_config a b = Some (a', b')"
    "ask_features get_config b' a' = Some (featured db fb, featured da fa)"
  using features_exchanged [OF assms, of get_config] by (auto simp: bind_eq_Some_conv)

subsection \<open>Claims\<close>

text \<open>
  C4: two fresh links that know a service in basic mode open a channel and use it.  Each asks for the
  features of the other, one connects, the security modules grant what they are asked, and every
  command is encoded, parsed and handled by the peer.  Nothing aborts; the user of the connecting
  link and the service of the other are told the channel, both command queues are empty, and an SDU
  then crosses both data pipelines unchanged.
\<close>

theorem links_connect_and_deliver:
  assumes "Link da fa = Some a" "Link db fb = Some b" "parses_initial get_config"
    and "map_of da psm = Some sa" "map_of db psm = Some sb" "IsPsmValid psm"
    and "channel_mode (config_option sa) = MODE_BASIC" "channel_mode (config_option sb) = MODE_BASIC"
    and "minimal_remote_mtu (config_option sa) \<le> incoming_mtu (config_option sb)"
      "minimal_remote_mtu (config_option sb) \<le> incoming_mtu (config_option sa)"
    and "conn_callbacks conn = Some u" "channel_mode (conn_configuration conn) = MODE_BASIC" "length sdu < 65536"
  shows "\<exists>a1 b1 a2 b2 a3 b3 a4 b4. ask_features get_config a b = Some (a1, b1) \<and> ask_features get_config b1 a1 = Some (b2, a2) \<and>
    open_channel get_config psm conn a2 b2 = Some (a3, b3) \<and>
    last (link_log a3) = OpenCallback u 64 \<and> last (link_log b3) = ServiceOpen psm 64 \<and> commands a3 = [] \<and> commands b3 = [] \<and>
    transfer 64 sdu a3 b3 = Some (a4, b4) \<and> upper_queue 64 b4 = Some [sdu]"
proof -
  obtain a1 b1 where f: "ask_features get_config a b = Some (a1, b1)"
    "ask_features get_config b1 a1 = Some (featured db fb, featured da fa)" by (rule features_exchanged_fresh [OF assms(1,2)])
  obtain a3 b3 where w: "open_channel get_config psm conn (featured da fa) (featured db fb) = Some (a3, b3)"
    "last (link_log a3) = OpenCallback u 64" "last (link_log b3) = ServiceOpen psm 64" "commands a3 = []" "commands b3 = []"
    "data_pipeline a3 = data_pipeline b3" "data_pipeline b3 = DataPipelineManager\<lparr>next_controller := 3,
      sender_map := [1 \<mapsto> Sender 1 1 BASIC 0, 64 \<mapsto> Sender 64 64 BASIC 1]\<rparr>"
    using channel_opens [OF assms(4-12,3)] by blast
  show ?thesis using f w(1-5) sdu_transferred [OF w(6) refl assms(13) w(7)] by blast
qed

definition sample_parser :: "bytes \<Rightarrow> ConfigurationOption list" where
  "sample_parser bs =
    (let mtu = MtuConfigurationOption False (of_le16 (bs ! 2) (bs ! 3)); rfc = RetransmissionOption False (initial_rfc MODE_ERTM)
     in if length bs = 4 then [mtu] else if length bs = 15 then [mtu, rfc] else [mtu, rfc, FrameCheckSequenceOption False FCS_DEFAULT])"

lemma sample_parser_parses: "parses_initial sample_parser"
  by (simp add: parses_initial_def parses_def sample_parser_def option_header_def le16_def of_le16_le16 [unfolded le16_def])

theorem links_connect_and_deliver_witness:
  "\<exists>a b a' b'. open_channel sample_parser 1 sample_user a b = Some (a', b') \<and> last (link_log a') = OpenCallback 7 64"
  using links_connect_and_deliver [OF sample_starts sample_starts sample_parser_parses, of 1 sample_service sample_service sample_user 7 "[1, 2]"]
  by (fastforce simp: sample_service_def sample_user_def IsPsmValid_def)

text \<open>
  C9: two fresh links whose service wants enhanced retransmission mode agree on it.  After the same
  exchange, both data controllers of the channel are new ERTM controllers with frame check sequence
  and the same window and timers, the states in which the claims on ERTM start.
\<close>

theorem links_agree_on_ertm:
  assumes "Link da fa = Some a" "Link db fb = Some b" "parses_initial get_config"
    and "map_of da psm = Some sa" "map_of db psm = Some sb" "IsPsmValid psm"
    and "channel_mode (config_option sa) = MODE_ERTM" "channel_mode (config_option sb) = MODE_ERTM"
    and "minimal_remote_mtu (config_option sa) \<le> incoming_mtu (config_option sb)"
      "minimal_remote_mtu (config_option sb) \<le> incoming_mtu (config_option sa)"
    and "conn_callbacks conn = Some u" "channel_mode (conn_configuration conn) = MODE_ERTM"
  shows "\<exists>a1 b1 a2 b2 a3 b3 s. ask_features get_config a b = Some (a1, b1) \<and> ask_features get_config b1 a1 = Some (b2, a2) \<and>
    open_channel get_config psm conn a2 b2 = Some (a3, b3) \<and>
    last (link_log a3) = OpenCallback u 64 \<and> last (link_log b3) = ServiceOpen psm 64 \<and> commands a3 = [] \<and> commands b3 = [] \<and>
    sender_map (data_pipeline a3) 64 = Some s \<and> sender_map (data_pipeline b3) 64 = Some s \<and>
    sender_controller s = ErtmMode (ertm_configured 64 64 True (initial_rfc MODE_ERTM))"
proof -
  obtain a1 b1 where f: "ask_features get_config a b = Some (a1, b1)"
    "ask_features get_config b1 a1 = Some (featured db fb, featured da fa)" by (rule features_exchanged_fresh [OF assms(1,2)])
  obtain a3 b3 where w: "open_channel get_config psm conn (featured da fa) (featured db fb) = Some (a3, b3)"
    "last (link_log a3) = OpenCallback u 64" "last (link_log b3) = ServiceOpen psm 64" "commands a3 = []" "commands b3 = []"
    "data_pipeline a3 = data_pipeline b3" "data_pipeline b3 = DataPipelineManager\<lparr>next_controller := 3,
      sender_map := [1 \<mapsto> Sender 1 1 BASIC 0, 64 \<mapsto> (Sender 64 64 BASIC 1)
        \<lparr>sender_controller := ErtmMode (ertm_configured 64 64 True (initial_rfc MODE_ERTM)), controller_number := Suc (Suc 0)\<rparr>]\<rparr>"
    using ertm_channel_opens [OF assms(4-12,3)] by blast
  show ?thesis using f w(1-5) w(6) by (fastforce simp: w(7))
qed

definition sample_ertm_service :: dynamic_service where
  "sample_ertm_service = sample_service\<lparr>config_option := (config_option sample_service)\<lparr>channel_mode := MODE_ERTM\<rparr>\<rparr>"

theorem links_agree_on_ertm_witness:
  "\<exists>a b a' b'. open_channel sample_parser 1 sample_ertm_user a b = Some (a', b') \<and> last (link_log b') = ServiceOpen 1 64"
proof -
  obtain a where a: "Link [(1, sample_ertm_service)] [] = Some a" using Link_starts by blast
  show ?thesis
    using links_agree_on_ertm [OF a a sample_parser_parses, of 1 sample_ertm_service sample_ertm_service sample_ertm_user 7]
    by (fastforce simp: sample_ertm_service_def sample_service_def sample_ertm_user_def sample_user_def IsPsmValid_def)
qed

end
